(* ===== verification/Prelude.thy ===== *)
theory Prelude
  imports Main "HOL-Library.Word"
begin

text \<open>
  Shared vocabulary of the development: bytes and byte strings, the result type that
  carries the \<open>?\<close> operator of the source, slices that panic when they are out of range,
  and the generic lemmas the component theories share.

  A function of the source that may stop early, panic or loop for ever returns a sum
  \<open>'e + 'a\<close>: \<open>Inl\<close> the reason it produced no value, \<open>Inr\<close> the value. The bind of
  this sum, \<open>rbind\<close>, is the \<open>?\<close> operator.
\<close>

named_theorems spec_simps \<open>equations that replace an operation of the code by its specification\<close>
named_theorems codec_simps \<open>laws of the fixed-length wire encodings\<close>
named_theorems alg_simps \<open>laws of the scalar field and of the prime-order group\<close>

type_synonym byte = "8 word"
type_synonym bytes = "byte list"

section \<open>The result monad\<close>

fun rbind :: "'e + 'a \<Rightarrow> ('a \<Rightarrow> 'e + 'b) \<Rightarrow> 'e + 'b" where
  "rbind (Inl e) f = Inl e"
| "rbind (Inr x) f = f x"

lemma rbind_cong [fundef_cong]:
  "m = m' \<Longrightarrow> (\<And>x. m' = Inr x \<Longrightarrow> f x = g x) \<Longrightarrow> rbind m f = rbind m' g"
  by (cases m') auto

lemma rbind_eq_Inr_iff: "rbind m f = Inr y \<longleftrightarrow> (\<exists>x. m = Inr x \<and> f x = Inr y)"
  by (cases m) auto

lemma rbind_eq_Inl_iff: "rbind m f = Inl e \<longleftrightarrow> m = Inl e \<or> (\<exists>x. m = Inr x \<and> f x = Inl e)"
  by (cases m) auto

lemma rbind_assoc: "rbind (rbind m f) g = rbind m (\<lambda>x. rbind (f x) g)"
  by (cases m) auto

lemma rbind_Inr_right [simp]: "rbind m Inr = m"
  by (cases m) auto

text \<open>A loop or an iterator chain that stops at the first failure.\<close>

fun rmap :: "('a \<Rightarrow> 'e + 'b) \<Rightarrow> 'a list \<Rightarrow> 'e + 'b list" where
  "rmap f [] = Inr []"
| "rmap f (x # xs) = rbind (f x) (\<lambda>y. rbind (rmap f xs) (\<lambda>ys. Inr (y # ys)))"

lemma rmap_eq_Inr_iff: "rmap f xs = Inr ys \<longleftrightarrow> list_all2 (\<lambda>x y. f x = Inr y) xs ys"
  by (induction xs arbitrary: ys) (auto simp: rbind_eq_Inr_iff list_all2_Cons1)

lemma rmap_Inr: "(\<And>x. x \<in> set xs \<Longrightarrow> f x = Inr (g x)) \<Longrightarrow> rmap f xs = Inr (map g xs)"
  by (induction xs) auto

lemma rmap_cong [fundef_cong]:
  "xs = ys \<Longrightarrow> (\<And>x. x \<in> set ys \<Longrightarrow> f x = g x) \<Longrightarrow> rmap f xs = rmap g ys"
  by (induction xs arbitrary: ys) auto

lemma rmap_eq_Inl: "rmap f xs = Inl e \<Longrightarrow> \<exists>x \<in> set xs. f x = Inl e"
  by (induction xs) (auto simp: rbind_eq_Inl_iff)

lemma rmap_uniform_Inl:
  assumes "\<exists>x \<in> set xs. f x = Inl e" and "\<And>x e'. x \<in> set xs \<Longrightarrow> f x = Inl e' \<Longrightarrow> e' = e"
  shows "rmap f xs = Inl e"
proof (cases "rmap f xs")
  case (Inl e')
  then show ?thesis using rmap_eq_Inl assms(2) by metis
next
  case (Inr ys)
  then have "list_all2 (\<lambda>x y. f x = Inr y) xs ys" by (simp add: rmap_eq_Inr_iff)
  then have "\<forall>x \<in> set xs. \<exists>y. f x = Inr y"
    by (induction rule: list_all2_induct) auto
  with assms(1) show ?thesis by force
qed

section \<open>Byte strings\<close>

text \<open>A byte-string literal \<open>b"..."\<close> of the source.\<close>

definition ascii :: "string \<Rightarrow> bytes" where
  "ascii s = map of_char s"

lemma ascii_simps:
  "ascii [] = []"
  "ascii (c # s) = of_char c # ascii s"
  by (simp_all add: ascii_def)

lemma ascii_append: "ascii (s @ t) = ascii s @ ascii t"
  by (simp add: ascii_def)

lemma length_ascii [simp]: "length (ascii s) = length s"
  by (simp add: ascii_def)

text \<open>\<open>u16::to_be_bytes\<close>: the high byte first.\<close>

definition to_be_bytes :: "16 word \<Rightarrow> bytes" where
  "to_be_bytes w = [ucast (drop_bit 8 w), ucast w]"

lemma length_to_be_bytes [simp]: "length (to_be_bytes w) = 2"
  by (simp add: to_be_bytes_def)

lemma unat_to_be_bytes:
  "map unat (to_be_bytes w) = [unat w div 256, unat w mod 256]"
proof -
  have "unat w < 2 ^ LENGTH(16)" by (rule unsigned_less)
  then have "unat w div 256 < 256" by simp
  then show ?thesis
    by (simp add: to_be_bytes_def unsigned_ucast_eq take_bit_eq_mod unsigned_drop_bit_eq drop_bit_eq_div
        unat_div)
qed

lemma to_be_bytes_inj: "to_be_bytes v = to_be_bytes w \<longleftrightarrow> v = w"
proof
  assume "to_be_bytes v = to_be_bytes w"
  then have "map unat (to_be_bytes v) = map unat (to_be_bytes w)" by simp
  then have "unat v div 256 = unat w div 256" and "unat v mod 256 = unat w mod 256"
    by (simp_all add: unat_to_be_bytes)
  then have "unat v = unat w"
    by (metis div_mult_mod_eq)
  then show "v = w" by (rule unsigned_word_eqI)
qed simp

text \<open>The formatting \<open>{byte:02x}\<close>, and a loop that writes every byte that way.\<close>

definition hex_digit :: "nat \<Rightarrow> char" where
  "hex_digit n = ''0123456789abcdef'' ! n"

definition fmt_02x :: "byte \<Rightarrow> string" where
  "fmt_02x b = [hex_digit (unat b div 16), hex_digit (unat b mod 16)]"

definition fmt_hex :: "bytes \<Rightarrow> string" where
  "fmt_hex bs = concat (map fmt_02x bs)"

text \<open>The decimal formatting \<open>{}\<close> of an unsigned integer.\<close>

fun fmt_dec :: "nat \<Rightarrow> string" where
  "fmt_dec n = (if n < 10 then [hex_digit n] else fmt_dec (n div 10) @ [hex_digit (n mod 10)])"

declare fmt_dec.simps [simp del]

section \<open>Slices\<close>

text \<open>
  \<open>&buf[..n]\<close> and \<open>&buf[n..]\<close>: out of range they panic, which is the value \<open>p\<close> of
  the error type. \<open>write_slice\<close> is \<open>out[i..i+len].copy_from_slice(src)\<close> inside the
  bounds of \<open>out\<close>.
\<close>

definition slice_to :: "'e \<Rightarrow> 'a list \<Rightarrow> nat \<Rightarrow> 'e + 'a list" where
  "slice_to p buf n = (if n \<le> length buf then Inr (take n buf) else Inl p)"

definition slice_from :: "'e \<Rightarrow> 'a list \<Rightarrow> nat \<Rightarrow> 'e + 'a list" where
  "slice_from p buf n = (if n \<le> length buf then Inr (drop n buf) else Inl p)"

definition write_slice :: "'a list \<Rightarrow> nat \<Rightarrow> 'a list \<Rightarrow> 'a list" where
  "write_slice out i src = take i out @ src @ drop (i + length src) out"

lemma length_write_slice [simp]:
  "i + length src \<le> length out \<Longrightarrow> length (write_slice out i src) = length out"
  by (simp add: write_slice_def)

lemma write_slice_halves:
  assumes "length x = n" and "length y = m" and "k = n + m"
  shows "write_slice (write_slice (replicate k z) 0 x) n y = x @ y"
  using assms by (simp add: write_slice_def)

section \<open>Lists\<close>

lemma append_eq_append_same_length:
  "length xs = length ys \<Longrightarrow> xs @ us = ys @ vs \<longleftrightarrow> xs = ys \<and> us = vs"
  by auto

lemma find_append: "find P (xs @ ys) = (case find P xs of None \<Rightarrow> find P ys | Some x \<Rightarrow> Some x)"
  by (induction xs) auto

lemma find_upt: "find P [0..<n] = (if \<exists>i < n. P i then Some (LEAST i. P i) else None)"
proof (induction n)
  case (Suc n)
  have "(LEAST i. P i) = n" if "P n" and "\<not> (\<exists>i < n. P i)"
    using that by (intro Least_equality) (auto simp flip: not_less)
  with Suc show ?case by (auto simp: find_append less_Suc_eq)
qed simp

text \<open>Leaving out one position and putting it back.\<close>

definition omit :: "nat \<Rightarrow> 'a list \<Rightarrow> 'a list" where
  "omit i xs = take i xs @ drop (Suc i) xs"

lemma length_omit [simp]: "i < length xs \<Longrightarrow> length (omit i xs) = length xs - 1"
  by (simp add: omit_def)

lemma omit_update [simp]: "i < length xs \<Longrightarrow> omit i (xs[i := x]) = omit i xs"
  by (simp add: omit_def)

lemma unique_list:
  assumes one: "\<And>i. i < n \<Longrightarrow> \<exists>!x. P i x"
  shows "\<exists>!xs. length xs = n \<and> (\<forall>i < n. P i (xs ! i))"
proof (rule ex1I)
  let ?xs = "map (\<lambda>i. THE x. P i x) [0..<n]"
  have at: "P i (?xs ! i)" if "i < n" for i using theI' [OF one [OF that]] that by simp
  then show "length ?xs = n \<and> (\<forall>i < n. P i (?xs ! i))" by simp
  fix xs assume xs: "length xs = n \<and> (\<forall>i < n. P i (xs ! i))"
  show "xs = ?xs"
  proof (rule nth_equalityI)
    fix i assume "i < length xs"
    then show "xs ! i = ?xs ! i" using xs at one by blast
  qed (use xs in simp)
qed

text \<open>The pairs \<open>iter().zip().enumerate()\<close> produces.\<close>

definition zip_enumerate :: "'a list \<Rightarrow> 'b list \<Rightarrow> (nat \<times> 'a \<times> 'b) list" where
  "zip_enumerate xs ys = enumerate 0 (zip xs ys)"

lemma length_zip_enumerate [simp]:
  "length (zip_enumerate xs ys) = min (length xs) (length ys)"
  by (simp add: zip_enumerate_def)

lemma zip_enumerate_nth:
  "i < length xs \<Longrightarrow> i < length ys \<Longrightarrow> zip_enumerate xs ys ! i = (i, xs ! i, ys ! i)"
  by (simp add: zip_enumerate_def nth_enumerate_eq)

lemma zip_map_zip_enumerate:
  assumes "length xs = length ys"
  shows "zip (map f (zip_enumerate xs ys)) xs = map (\<lambda>(i, x, y). (f (i, x, y), x)) (zip_enumerate xs ys)"
    and "zip (map f (zip_enumerate xs ys)) ys = map (\<lambda>(i, x, y). (f (i, x, y), y)) (zip_enumerate xs ys)"
  using assms by (auto intro!: nth_equalityI simp: zip_enumerate_nth)

lemma zip_enumerate_index: "(i, x, y) \<in> set (zip_enumerate xs ys) \<Longrightarrow> i < length xs"
  by (auto simp: zip_enumerate_def in_set_enumerate_eq)

lemma zip_enumerate_in_set:
  "i < length xs \<Longrightarrow> i < length ys \<Longrightarrow> (i, xs ! i, ys ! i) \<in> set (zip_enumerate xs ys)"
  by (metis length_zip_enumerate min_less_iff_conj nth_mem zip_enumerate_nth)

end
