(* ===== verification/Errors.thy ===== *)
theory Errors
  imports Prelude
begin

text \<open>
  The error type of \<open>poprf-ristretto/src/error.rs\<close> and the ways an operation of the crate
  can produce no value: it returns \<open>Err(e)\<close>, it panics, or it never returns. A Rust
  function of type \<open>Result<T, Error>\<close>, or one that can panic, is a HOL function into
  \<open>'a res\<close>.
\<close>

datatype error =
    Deserialize
  | InputValidation
  | InvalidInput
  | LengthMismatch
  | Verify
  | Inverse
  | DeriveKeyPair
  | InputTooLong
  | InconsistentState

datatype fault = Err error | Panic | Diverge

type_synonym 'a res = "fault + 'a"

abbreviation Fail :: "error \<Rightarrow> 'a res" where
  "Fail e \<equiv> Inl (Err e)"

abbreviation panic :: "'a res" where
  "panic \<equiv> Inl Panic"

text \<open>The \<open>Display\<close> implementation, whose text the C ABI and the browser bindings report.\<close>

fun error_fmt :: "error \<Rightarrow> string" where
  "error_fmt Deserialize = ''deserialization failed''"
| "error_fmt InputValidation = ''input validation failed''"
| "error_fmt InvalidInput = ''invalid input''"
| "error_fmt LengthMismatch = ''batched-API length mismatch''"
| "error_fmt Verify = ''DLEQ proof verification failed''"
| "error_fmt Inverse = ''inversion of zero scalar''"
| "error_fmt DeriveKeyPair = ''DeriveKeyPair counter exhausted''"
| "error_fmt InputTooLong =
     ''input or info length must be smaller than 2^16 - 1 bytes''"
| "error_fmt InconsistentState = ''PoprfBlindState entries disagree on tweakedKey''"

text \<open>The messages tell the errors apart.\<close>

lemma error_fmt_inj: "error_fmt e = error_fmt e' \<longleftrightarrow> e = e'"
  by (cases e; cases e') simp_all

text \<open>The errors can be listed, so that a statement about all of them is a computation.\<close>

instantiation error :: enum
begin

definition enum_error :: "error list" where
  "enum_error = [Deserialize, InputValidation, InvalidInput, LengthMismatch, Verify, Inverse, DeriveKeyPair,
     InputTooLong, InconsistentState]"

definition enum_all_error :: "(error \<Rightarrow> bool) \<Rightarrow> bool" where
  "enum_all_error P \<longleftrightarrow> list_all P Enum.enum"

definition enum_ex_error :: "(error \<Rightarrow> bool) \<Rightarrow> bool" where
  "enum_ex_error P \<longleftrightarrow> list_ex P Enum.enum"

instance
proof
  show all: "(UNIV :: error set) = set Enum.enum"
    using error.exhaust by (auto simp: enum_error_def)
  show "distinct (Enum.enum :: error list)" by (simp add: enum_error_def)
  fix P :: "error \<Rightarrow> bool"
  show "Enum.enum_all P \<longleftrightarrow> Ball UNIV P" by (simp add: all enum_all_error_def list_all_iff)
  show "Enum.enum_ex P \<longleftrightarrow> Bex UNIV P" by (simp add: all enum_ex_error_def list_ex_iff)
qed

end

text \<open>No message has a NUL character, which a C string could not hold.\<close>

lemma error_fmt_no_nul: "0 \<notin> set (ascii (error_fmt e))"
proof -
  have "list_all (\<lambda>e. 0 \<notin> set (ascii (error_fmt e))) Enum.enum"
    by (simp add: enum_error_def ascii_simps)
  then show ?thesis by (simp add: list_all_iff flip: UNIV_enum)
qed

text \<open>
  An operation that ends in a value or in one of its declared errors, never in a panic or
  a loop: what the callers across the C boundary rely on, where a panic aborts.
\<close>

definition no_abort :: "'a res \<Rightarrow> bool" where
  "no_abort r = (case r of Inl (Err e) \<Rightarrow> True | Inl Panic \<Rightarrow> False | Inl Diverge \<Rightarrow> False | Inr x \<Rightarrow> True)"

lemma no_abort_simps [simp]:
  "no_abort (Inr x)"
  "no_abort (Fail e)"
  "\<not> no_abort panic"
  "\<not> no_abort (Inl Diverge)"
  by (simp_all add: no_abort_def)

lemma no_abort_rbind [intro]:
  "no_abort m \<Longrightarrow> (\<And>x. m = Inr x \<Longrightarrow> no_abort (f x)) \<Longrightarrow> no_abort (rbind m f)"
  by (cases m) (auto simp: no_abort_def split: fault.splits)

lemma no_abort_rmap: "(\<And>x. x \<in> set xs \<Longrightarrow> no_abort (f x)) \<Longrightarrow> no_abort (rmap f xs)"
  by (induction xs) (auto intro!: no_abort_rbind)

lemma no_abort_iff: "no_abort r \<longleftrightarrow> r \<noteq> panic \<and> r \<noteq> Inl Diverge"
  by (auto simp: no_abort_def split: sum.splits fault.splits)

text \<open>\<open>assert_eq!\<close> of a test.\<close>

definition assert_eq :: "'a \<Rightarrow> 'a \<Rightarrow> unit res" where
  "assert_eq a b = (if a = b then Inr () else panic)"

lemma assert_eq_refl [simp]: "assert_eq a a = Inr ()"
  by (simp add: assert_eq_def)

end
