(* ===== verification/Environment.thy ===== *)
theory Environment
  imports Errors
begin

text \<open>
  What the crates under \<open>src/\<close> call but do not contain, as a parameter of the model: a
  record \<open>env\<close> with one field per library operation used, and the library's documented
  behaviour as named predicates on that record. The type variables are

  \<^item> \<open>'s\<close>: \<open>curve25519_dalek::Scalar\<close> (integers modulo the group order),
  \<^item> \<open>'p\<close>: \<open>curve25519_dalek::RistrettoPoint\<close> (group elements, not representations),
  \<^item> \<open>'t\<close>: \<open>RistrettoBasepointTable\<close>,
  \<^item> \<open>'h\<close>: the state of a \<open>sha2::Sha512\<close> hasher,
  \<^item> \<open>'r\<close>: the state of the caller's \<open>RngCore + CryptoRng\<close>.

  The last three fields are the build: the cargo features \<open>fast-dleq\<close> and
  \<open>precomputed-tables\<close>, and whether debug assertions are compiled in.
\<close>

record ('s, 'p, 't, 'h, 'r) env =
  Scalar_ZERO :: 's
  Scalar_ONE :: 's
  Scalar_add :: "'s \<Rightarrow> 's \<Rightarrow> 's"
  Scalar_sub :: "'s \<Rightarrow> 's \<Rightarrow> 's"
  Scalar_mul :: "'s \<Rightarrow> 's \<Rightarrow> 's"
  Scalar_invert :: "'s \<Rightarrow> 's"
  Scalar_ct_eq :: "'s \<Rightarrow> 's \<Rightarrow> bool"
  Scalar_random :: "'r \<Rightarrow> 's \<times> 'r"
  Scalar_to_bytes :: "'s \<Rightarrow> bytes"
  Scalar_from_canonical_bytes :: "bytes \<Rightarrow> 's option"
  Scalar_from_bytes_mod_order_wide :: "bytes \<Rightarrow> 's"
  Point_identity :: 'p
  RISTRETTO_BASEPOINT_POINT :: 'p
  Point_add :: "'p \<Rightarrow> 'p \<Rightarrow> 'p"
  Point_mul :: "'s \<Rightarrow> 'p \<Rightarrow> 'p"
  Point_ct_eq :: "'p \<Rightarrow> 'p \<Rightarrow> bool"
  Point_compress :: "'p \<Rightarrow> bytes"
  Point_decompress :: "bytes \<Rightarrow> 'p option"
  Point_from_uniform_bytes :: "bytes \<Rightarrow> 'p"
  vartime_multiscalar_mul :: "'s list \<Rightarrow> 'p list \<Rightarrow> 'p option"
  Table_create :: "'p \<Rightarrow> 't"
  Table_mul :: "'s \<Rightarrow> 't \<Rightarrow> 'p"
  Sha512_default :: 'h
  Sha512_update :: "'h \<Rightarrow> bytes \<Rightarrow> 'h"
  Sha512_finalize :: "'h \<Rightarrow> bytes"
  expand_message_xmd :: "bytes list \<Rightarrow> bytes list \<Rightarrow> nat \<Rightarrow> bytes option"
  slice_ct_eq :: "bytes \<Rightarrow> bytes \<Rightarrow> bool"
  Scalar_zeroize :: "'s \<Rightarrow> 's"
  Point_zeroize :: "'p \<Rightarrow> 'p"
  fast_dleq :: bool
  precomputed_tables :: bool
  debug_assertions :: bool

section \<open>The documented behaviour of the libraries\<close>

text \<open>\<open>Scalar\<close>: the field of integers modulo the prime group order; \<open>subtle\<close>'s
  constant-time comparison is equality.\<close>

definition scalar_laws :: "('s, 'p, 't, 'h, 'r) env \<Rightarrow> bool" where
  "scalar_laws E \<longleftrightarrow>
     (\<forall>a b c. Scalar_add E (Scalar_add E a b) c = Scalar_add E a (Scalar_add E b c)) \<and>
     (\<forall>a b. Scalar_add E a b = Scalar_add E b a) \<and>
     (\<forall>a. Scalar_add E (Scalar_ZERO E) a = a) \<and>
     (\<forall>a b. Scalar_add E (Scalar_sub E a b) b = a) \<and>
     (\<forall>a b c. Scalar_mul E (Scalar_mul E a b) c = Scalar_mul E a (Scalar_mul E b c)) \<and>
     (\<forall>a b. Scalar_mul E a b = Scalar_mul E b a) \<and>
     (\<forall>a. Scalar_mul E (Scalar_ONE E) a = a) \<and>
     (\<forall>a b c. Scalar_mul E (Scalar_add E a b) c =
        Scalar_add E (Scalar_mul E a c) (Scalar_mul E b c)) \<and>
     (\<forall>a. a \<noteq> Scalar_ZERO E \<longrightarrow> Scalar_mul E (Scalar_invert E a) a = Scalar_ONE E) \<and>
     Scalar_ONE E \<noteq> Scalar_ZERO E \<and>
     (\<forall>a b. Scalar_ct_eq E a b \<longleftrightarrow> a = b)"

text \<open>\<open>RistrettoPoint\<close>: a group of prime order written additively, with the scalars acting
  on it; every element but the identity generates it.\<close>

definition point_laws :: "('s, 'p, 't, 'h, 'r) env \<Rightarrow> bool" where
  "point_laws E \<longleftrightarrow>
     (\<forall>P Q R. Point_add E (Point_add E P Q) R = Point_add E P (Point_add E Q R)) \<and>
     (\<forall>P Q. Point_add E P Q = Point_add E Q P) \<and>
     (\<forall>P. Point_add E (Point_identity E) P = P) \<and>
     (\<forall>a b P. Point_mul E (Scalar_add E a b) P = Point_add E (Point_mul E a P) (Point_mul E b P)) \<and>
     (\<forall>a P Q. Point_mul E a (Point_add E P Q) = Point_add E (Point_mul E a P) (Point_mul E a Q)) \<and>
     (\<forall>a b P. Point_mul E (Scalar_mul E a b) P = Point_mul E a (Point_mul E b P)) \<and>
     (\<forall>P. Point_mul E (Scalar_ONE E) P = P) \<and>
     (\<forall>P. Point_mul E (Scalar_ZERO E) P = Point_identity E) \<and>
     (\<forall>P Q. P \<noteq> Point_identity E \<longrightarrow> (\<exists>a. Q = Point_mul E a P)) \<and>
     RISTRETTO_BASEPOINT_POINT E \<noteq> Point_identity E \<and>
     (\<forall>P Q. Point_ct_eq E P Q \<longleftrightarrow> P = Q)"

text \<open>Canonical encodings of both (RFC 9496; \<open>from_canonical_bytes\<close> and \<open>decompress\<close>
  accept exactly the bytes that \<open>to_bytes\<close> and \<open>compress\<close> produce).\<close>

definition encoding_laws :: "('s, 'p, 't, 'h, 'r) env \<Rightarrow> bool" where
  "encoding_laws E \<longleftrightarrow>
     (\<forall>a. length (Scalar_to_bytes E a) = 32) \<and>
     (\<forall>a bs. Scalar_from_canonical_bytes E bs = Some a \<longleftrightarrow> bs = Scalar_to_bytes E a) \<and>
     (\<forall>P. length (Point_compress E P) = 32) \<and>
     (\<forall>P bs. Point_decompress E bs = Some P \<longleftrightarrow> bs = Point_compress E P)"

text \<open>SHA-512 absorbs its input in pieces of any size and yields 64 bytes;
  \<open>expand_message_xmd\<close> depends on the concatenation of its message parts, and for a
  non-empty domain separation tag of at most 255 bytes it yields the requested 64 bytes.\<close>

definition hash_laws :: "('s, 'p, 't, 'h, 'r) env \<Rightarrow> bool" where
  "hash_laws E \<longleftrightarrow>
     (\<forall>h x y. Sha512_update E (Sha512_update E h x) y = Sha512_update E h (x @ y)) \<and>
     (\<forall>h. length (Sha512_finalize E h) = 64) \<and>
     (\<forall>xs dst. expand_message_xmd E xs [dst] 64 = expand_message_xmd E [concat xs] [dst] 64) \<and>
     (\<forall>xs dst. 0 < length dst \<and> length dst \<le> 255 \<longrightarrow>
        (\<exists>u. expand_message_xmd E xs [dst] 64 = Some u \<and> length u = 64)) \<and>
     (\<forall>x y. slice_ct_eq E x y \<longleftrightarrow> x = y)"

text \<open>The accelerated routines compute what the plain ones do: the multiscalar product
  is the sum of the products, and a windowed table multiplies like its point.\<close>

definition accel_laws :: "('s, 'p, 't, 'h, 'r) env \<Rightarrow> bool" where
  "accel_laws E \<longleftrightarrow>
     (\<forall>as Ps. length as = length Ps \<longrightarrow>
        vartime_multiscalar_mul E as Ps =
          Some (foldr (\<lambda>(a, P) acc. Point_add E (Point_mul E a P) acc) (zip as Ps) (Point_identity E))) \<and>
     (\<forall>a P. Table_mul E a (Table_create E P) = Point_mul E a P)"

text \<open>What \<open>Zeroize\<close> leaves of the library's types: a zero and the identity. Only the properties
  of the memory a value leaves behind rely on it.\<close>

definition zeroize_laws :: "('s, 'p, 't, 'h, 'r) env \<Rightarrow> bool" where
  "zeroize_laws E \<longleftrightarrow>
     (\<forall>a. Scalar_zeroize E a = Scalar_ZERO E) \<and> (\<forall>P. Point_zeroize E P = Point_identity E)"

definition env_laws :: "('s, 'p, 't, 'h, 'r) env \<Rightarrow> bool" where
  "env_laws E \<longleftrightarrow>
     scalar_laws E \<and> point_laws E \<and> encoding_laws E \<and> hash_laws E \<and> accel_laws E"

text \<open>Another expansion of the hash with the same laws changes nothing else.\<close>

lemma expand_laws:
  assumes "env_laws E" and "hash_laws (E\<lparr>expand_message_xmd := X\<rparr>)"
  shows "env_laws (E\<lparr>expand_message_xmd := X\<rparr>)"
proof -
  let ?E = "E\<lparr>expand_message_xmd := X\<rparr>"
  have "scalar_laws ?E = scalar_laws E" "point_laws ?E = point_laws E" "encoding_laws ?E = encoding_laws E"
    "accel_laws ?E = accel_laws E"
    by (cases E, simp only: env.simps scalar_laws_def point_laws_def encoding_laws_def accel_laws_def)+
  then show ?thesis using assms by (simp add: env_laws_def)
qed

lemma env_lawsD:
  assumes "env_laws E"
  shows "scalar_laws E" and "point_laws E" and "encoding_laws E" and "hash_laws E" and "accel_laws E"
  using assms by (simp_all add: env_laws_def)

lemma scalar_facts:
  assumes "scalar_laws E"
  shows "Scalar_add E (Scalar_add E a b) c = Scalar_add E a (Scalar_add E b c)"
    and "Scalar_add E a b = Scalar_add E b a"
    and "Scalar_add E (Scalar_ZERO E) a = a"
    and "Scalar_add E (Scalar_sub E a b) b = a"
    and "Scalar_mul E a b = Scalar_mul E b a"
    and "a \<noteq> Scalar_ZERO E \<Longrightarrow> Scalar_mul E (Scalar_invert E a) a = Scalar_ONE E"
  using assms unfolding scalar_laws_def by blast+

lemma point_facts:
  assumes "point_laws E"
  shows "Point_add E (Point_add E P Q) R = Point_add E P (Point_add E Q R)"
    and "Point_add E P Q = Point_add E Q P"
    and "Point_add E (Point_identity E) P = P"
    and "Point_mul E (Scalar_add E a b) P = Point_add E (Point_mul E a P) (Point_mul E b P)"
    and "Point_mul E a (Point_add E P Q) = Point_add E (Point_mul E a P) (Point_mul E a Q)"
    and "Point_mul E (Scalar_mul E a b) P = Point_mul E a (Point_mul E b P)"
    and "Point_mul E (Scalar_ONE E) P = P"
    and "Point_mul E (Scalar_ZERO E) P = Point_identity E"
    and "P \<noteq> Point_identity E \<Longrightarrow> \<exists>a. Q = Point_mul E a P"
    and "RISTRETTO_BASEPOINT_POINT E \<noteq> Point_identity E"
  using assms unfolding point_laws_def by meson+

lemma scalar_ct_eq [simp]: "scalar_laws E \<Longrightarrow> Scalar_ct_eq E a b \<longleftrightarrow> a = b"
  by (simp add: scalar_laws_def)

lemma point_ct_eq [simp]: "point_laws E \<Longrightarrow> Point_ct_eq E P Q \<longleftrightarrow> P = Q"
  by (simp add: point_laws_def)

lemma slice_ct_eq_iff [simp]: "hash_laws E \<Longrightarrow> slice_ct_eq E x y \<longleftrightarrow> x = y"
  by (simp add: hash_laws_def)

lemma table_mul [simp]: "accel_laws E \<Longrightarrow> Table_mul E a (Table_create E P) = Point_mul E a P"
  by (simp add: accel_laws_def)

lemma sha_update_update: "hash_laws E \<Longrightarrow>
    Sha512_update E (Sha512_update E h x) y = Sha512_update E h (x @ y)"
  by (simp add: hash_laws_def)

lemma length_sha_finalize [simp]: "hash_laws E \<Longrightarrow> length (Sha512_finalize E h) = 64"
  by (simp add: hash_laws_def)

lemma encoding_simps [simp]:
  assumes "encoding_laws E"
  shows "length (Scalar_to_bytes E a) = 32"
    and "Scalar_from_canonical_bytes E bs = Some a \<longleftrightarrow> bs = Scalar_to_bytes E a"
    and "length (Point_compress E P) = 32"
    and "Point_decompress E bs = Some P \<longleftrightarrow> bs = Point_compress E P"
  using assms by (simp_all add: encoding_laws_def)

lemma decode_encode:
  assumes "encoding_laws E"
  shows "Scalar_from_canonical_bytes E (Scalar_to_bytes E a) = Some a"
    and "Point_decompress E (Point_compress E P) = Some P"
  using assms by (simp_all only: encoding_simps)

lemma scalar_to_bytes_inj: "encoding_laws E \<Longrightarrow> Scalar_to_bytes E a = Scalar_to_bytes E b \<longleftrightarrow> a = b"
  by (metis encoding_laws_def option.inject)

lemma point_compress_inj: "encoding_laws E \<Longrightarrow> Point_compress E P = Point_compress E Q \<longleftrightarrow> P = Q"
  by (metis encoding_laws_def option.inject)

end
