(* ===== verification/Util.thy ===== *)
theory Util
  imports Environment
begin

text \<open>
  \<open>poprf-ristretto/src/util.rs\<close>: the cap on length-prefixed values, \<open>I2OSP\<close>, the
  length-prefixed append, and the domain separation tags; from \<open>lib.rs\<close> the two public
  constants. The lemmas say when a length prefix is exact, what the release build computes
  when it is not, and that length-prefixed strings can be read back.
\<close>

section \<open>The length cap and I2OSP\<close>

definition MAX_LP_LEN :: nat where
  "MAX_LP_LEN = 2 ^ 16 - 2"

definition check_lp_len :: "bytes \<Rightarrow> unit res" where
  "check_lp_len buf = (if length buf > MAX_LP_LEN then Fail InputTooLong else Inr ())"

definition i2osp_1 :: "byte \<Rightarrow> bytes" where
  "i2osp_1 x = [x]"

text \<open>The assertion is compiled into debug builds only; \<open>as u16\<close> keeps the low 16 bits.\<close>

definition i2osp_2 :: "('s, 'p, 't, 'h, 'r) env \<Rightarrow> nat \<Rightarrow> bytes res" where
  "i2osp_2 E x =
     (if debug_assertions E \<and> \<not> x \<le> 65535 then panic
      else Inr (to_be_bytes (word_of_nat x)))"

definition append_lp :: "('s, 'p, 't, 'h, 'r) env \<Rightarrow> bytes \<Rightarrow> bytes \<Rightarrow> bytes res" where
  "append_lp E out buf = rbind (i2osp_2 E (length buf)) (\<lambda>len. Inr ((out @ len) @ buf))"

section \<open>Constants\<close>

definition MODE_POPRF :: byte where
  "MODE_POPRF = 0x02"

definition SUITE_ID :: bytes where
  "SUITE_ID = ascii ''ristretto255-SHA512''"

definition CONTEXT_STRING :: bytes where
  "CONTEXT_STRING = ascii ''OPRFV1-'' @ [0x02] @ ascii ''-ristretto255-SHA512''"

definition HASH_TO_GROUP_DST :: bytes where
  "HASH_TO_GROUP_DST = ascii ''HashToGroup-OPRFV1-'' @ [0x02] @ ascii ''-ristretto255-SHA512''"

definition HASH_TO_SCALAR_DST :: bytes where
  "HASH_TO_SCALAR_DST = ascii ''HashToScalar-OPRFV1-'' @ [0x02] @ ascii ''-ristretto255-SHA512''"

definition DERIVE_KEY_PAIR_DST :: bytes where
  "DERIVE_KEY_PAIR_DST = ascii ''DeriveKeyPairOPRFV1-'' @ [0x02] @ ascii ''-ristretto255-SHA512''"

definition SEED_DST :: bytes where
  "SEED_DST = ascii ''Seed-OPRFV1-'' @ [0x02] @ ascii ''-ristretto255-SHA512''"

lemma length_dsts [simp]:
  "length HASH_TO_GROUP_DST = 40"
  "length HASH_TO_SCALAR_DST = 41"
  "length DERIVE_KEY_PAIR_DST = 41"
  "length SEED_DST = 33"
  by (simp_all add: HASH_TO_GROUP_DST_def HASH_TO_SCALAR_DST_def DERIVE_KEY_PAIR_DST_def
      SEED_DST_def)

lemma dsts_nonempty [simp]:
  "HASH_TO_GROUP_DST \<noteq> []" "HASH_TO_SCALAR_DST \<noteq> []" "DERIVE_KEY_PAIR_DST \<noteq> []"
  by (auto simp flip: length_0_conv)

text \<open>The unit test of the module, which builds the constants by the formula of the RFC. \<open>concat\<close> joins
  the parts.\<close>

definition context_string_constants_match_formula :: "unit res" where
  "context_string_constants_match_formula =
     (let want_ctx = [] @ ascii ''OPRFV1-'';
          want_ctx = want_ctx @ [MODE_POPRF];
          want_ctx = want_ctx @ ascii ''-'';
          want_ctx = want_ctx @ SUITE_ID in
      rbind (assert_eq CONTEXT_STRING want_ctx) (\<lambda>_.
      let want_h2g = concat [ascii ''HashToGroup-'', want_ctx] in
      rbind (assert_eq HASH_TO_GROUP_DST want_h2g) (\<lambda>_.
      let want_h2s = concat [ascii ''HashToScalar-'', want_ctx] in
      rbind (assert_eq HASH_TO_SCALAR_DST want_h2s) (\<lambda>_.
      let want_dkp = concat [ascii ''DeriveKeyPair'', want_ctx] in
      rbind (assert_eq DERIVE_KEY_PAIR_DST want_dkp) (\<lambda>_.
      let want_seed = concat [ascii ''Seed-'', want_ctx] in
      assert_eq SEED_DST want_seed)))))"

lemma constants_match: "context_string_constants_match_formula = Inr ()"
  by (simp add: context_string_constants_match_formula_def assert_eq_def CONTEXT_STRING_def MODE_POPRF_def
      SUITE_ID_def HASH_TO_GROUP_DST_def HASH_TO_SCALAR_DST_def DERIVE_KEY_PAIR_DST_def SEED_DST_def ascii_simps)

section \<open>Length prefixes\<close>

text \<open>\<open>I2OSP(n, 2)\<close> and \<open>I2OSP(len(x), 2) || x\<close> as the RFC means them.\<close>

definition be16 :: "nat \<Rightarrow> bytes" where
  "be16 n = to_be_bytes (word_of_nat n)"

definition lp :: "bytes \<Rightarrow> bytes" where
  "lp x = be16 (length x) @ x"

lemma length_be16 [simp]: "length (be16 n) = 2"
  by (simp add: be16_def)

lemma length_lp [simp]: "length (lp x) = 2 + length x"
  by (simp add: lp_def)

lemma be16_inj: "m \<le> 65535 \<Longrightarrow> n \<le> 65535 \<Longrightarrow> be16 m = be16 n \<longleftrightarrow> m = n"
  by (auto simp: be16_def to_be_bytes_inj word_of_nat_eq_iff take_bit_eq_mod)

lemma be16_wrap: "be16 (n + 65536) = be16 n"
proof -
  have "(word_of_nat (n + 65536) :: 16 word) = word_of_nat n"
    by (simp only: word_of_nat_eq_iff take_bit_eq_mod) simp
  then show ?thesis by (simp only: be16_def)
qed

lemma be16_digits: "n \<le> 65535 \<Longrightarrow> map unat (be16 n) = [n div 256, n mod 256]"
  by (simp add: be16_def unat_to_be_bytes unsigned_of_nat take_bit_eq_mod)

lemma lp_split:
  assumes "length x \<le> 65535" and "length y \<le> 65535"
  shows "lp x @ u = lp y @ v \<longleftrightarrow> x = y \<and> u = v"
proof
  assume eq: "lp x @ u = lp y @ v"
  then have "be16 (length x) = be16 (length y)" and rest: "x @ u = y @ v"
    by (simp_all add: lp_def append_eq_append_same_length)
  then have "length x = length y" using assms by (simp add: be16_inj)
  with rest show "x = y \<and> u = v" by simp
qed simp

lemma lp_inj: "length x \<le> 65535 \<Longrightarrow> length y \<le> 65535 \<Longrightarrow> lp x = lp y \<longleftrightarrow> x = y"
  using lp_split [of x y "[]" "[]"] by simp

lemma i2osp_2_spec [spec_simps]: "x \<le> 65535 \<or> \<not> debug_assertions E \<Longrightarrow> i2osp_2 E x = Inr (be16 x)"
  by (auto simp: i2osp_2_def be16_def)

lemma append_lp_spec [spec_simps]:
  "length buf \<le> 65535 \<or> \<not> debug_assertions E \<Longrightarrow> append_lp E out buf = Inr (out @ lp buf)"
  by (simp add: append_lp_def spec_simps lp_def)

lemma check_lp_len_eq: "check_lp_len buf = (if length buf \<le> 65534 then Inr () else Fail InputTooLong)"
  by (simp add: check_lp_len_def MAX_LP_LEN_def)

lemma check_lp_len_ok [simp]: "length buf \<le> 65534 \<Longrightarrow> check_lp_len buf = Inr ()"
  by (simp add: check_lp_len_eq)

lemma check_lp_len_too_long [simp]: "65534 < length buf \<Longrightarrow> check_lp_len buf = Fail InputTooLong"
  by (simp add: check_lp_len_eq)

lemma check_lp_len_Inr_iff: "check_lp_len buf = Inr u \<longleftrightarrow> length buf \<le> 65534"
  by (simp add: check_lp_len_eq)

lemma no_abort_check [simp]: "no_abort (check_lp_len buf)"
  by (simp add: check_lp_len_eq)

text \<open>\<open>for input in inputs { check_lp_len(input)?; }\<close>\<close>

fun check_all_lp :: "bytes list \<Rightarrow> unit res" where
  "check_all_lp [] = Inr ()"
| "check_all_lp (x # xs) = rbind (check_lp_len x) (\<lambda>_. check_all_lp xs)"

lemma check_all_lp_eq:
  "check_all_lp xs = (if \<forall>x \<in> set xs. length x \<le> 65534 then Inr () else Fail InputTooLong)"
  by (induction xs) (auto simp: check_lp_len_eq)

end
