(* ===== verification/Toy.thy ===== *)
theory Toy
  imports Environment
begin

text \<open>
  A small concrete environment that satisfies every law of \<open>Environment\<close>, on which the
  witnesses of the development evaluate. The scalars are the field with three elements and
  the group is its additive group, so that the generator is \<open>T1\<close> and the multiple
  \<open>a \<cdot> P\<close> is the product. The hash functions keep enough of their input to tell short
  inputs apart; the random number generator is a counter.
\<close>

datatype tri = T0 | T1 | T2

lemma tri_ex: "(\<exists>x. P x) \<longleftrightarrow> P T0 \<or> P T1 \<or> P T2"
  by (metis tri.exhaust)

lemma tri_all: "(\<forall>x. P x) \<longleftrightarrow> P T0 \<and> P T1 \<and> P T2"
  by (metis tri.exhaust)

lemma univ_tri: "(UNIV :: tri set) = {T0, T1, T2}"
  using tri.exhaust by blast

instance tri :: finite
  by standard (simp add: univ_tri)

fun tri_add :: "tri \<Rightarrow> tri \<Rightarrow> tri" where
  "tri_add T0 b = b"
| "tri_add T1 T0 = T1"
| "tri_add T1 T1 = T2"
| "tri_add T1 T2 = T0"
| "tri_add T2 T0 = T2"
| "tri_add T2 T1 = T0"
| "tri_add T2 T2 = T1"

fun tri_neg :: "tri \<Rightarrow> tri" where
  "tri_neg T0 = T0"
| "tri_neg T1 = T2"
| "tri_neg T2 = T1"

fun tri_mul :: "tri \<Rightarrow> tri \<Rightarrow> tri" where
  "tri_mul T0 b = T0"
| "tri_mul T1 b = b"
| "tri_mul T2 b = tri_neg b"

fun tri_code :: "tri \<Rightarrow> byte" where
  "tri_code T0 = 0"
| "tri_code T1 = 1"
| "tri_code T2 = 2"

definition tri_of_byte :: "byte \<Rightarrow> tri" where
  "tri_of_byte b = (if b mod 3 = 0 then T0 else if b mod 3 = 1 then T1 else T2)"

definition tri_encode :: "tri \<Rightarrow> bytes" where
  "tri_encode x = tri_code x # replicate 31 0"

definition tri_decode :: "bytes \<Rightarrow> tri option" where
  "tri_decode bs =
     (if bs = tri_encode T0 then Some T0 else if bs = tri_encode T1 then Some T1
      else if bs = tri_encode T2 then Some T2 else None)"

definition pad64 :: "bytes \<Rightarrow> bytes" where
  "pad64 bs = take 64 (bs @ replicate 64 0)"

text \<open>The toy hash expansion sums the message bytes and the tag's length into one byte.\<close>

definition toy_expand :: "bytes list \<Rightarrow> bytes list \<Rightarrow> nat \<Rightarrow> bytes option" where
  "toy_expand msgs dsts n =
     Some (take n ((sum_list (concat msgs) + of_nat (length (concat dsts))) # replicate n 0))"

fun toy_msm :: "tri list \<Rightarrow> tri list \<Rightarrow> tri option" where
  "toy_msm [] [] = Some T0"
| "toy_msm (a # as) (P # Ps) =
     (case toy_msm as Ps of None \<Rightarrow> None | Some Q \<Rightarrow> Some (tri_add (tri_mul a P) Q))"
| "toy_msm _ _ = None"

definition toy_random :: "nat \<Rightarrow> tri \<times> nat" where
  "toy_random n = (if n mod 3 = 0 then T0 else if n mod 3 = 1 then T1 else T2, Suc n)"

definition toy :: "bool \<Rightarrow> bool \<Rightarrow> bool \<Rightarrow> (tri, tri, tri, bytes, nat) env" where
  "toy fast tables debug =
     \<lparr> Scalar_ZERO = T0, Scalar_ONE = T1,
       Scalar_add = tri_add, Scalar_sub = (\<lambda>a b. tri_add a (tri_neg b)), Scalar_mul = tri_mul,
       Scalar_invert = (\<lambda>a. a), Scalar_ct_eq = (=), Scalar_random = toy_random,
       Scalar_to_bytes = tri_encode, Scalar_from_canonical_bytes = tri_decode,
       Scalar_from_bytes_mod_order_wide = (\<lambda>bs. tri_of_byte (hd bs)),
       Point_identity = T0, RISTRETTO_BASEPOINT_POINT = T1,
       Point_add = tri_add, Point_mul = tri_mul, Point_ct_eq = (=),
       Point_compress = tri_encode, Point_decompress = tri_decode,
       Point_from_uniform_bytes = (\<lambda>bs. tri_of_byte (hd bs)),
       vartime_multiscalar_mul = toy_msm,
       Table_create = (\<lambda>P. P), Table_mul = tri_mul,
       Sha512_default = [], Sha512_update = (@), Sha512_finalize = pad64,
       expand_message_xmd = toy_expand, slice_ct_eq = (=),
       Scalar_zeroize = (\<lambda>_. T0), Point_zeroize = (\<lambda>_. T0),
       fast_dleq = fast, precomputed_tables = tables, debug_assertions = debug \<rparr>"


lemma tri_encode_inj: "tri_encode x = tri_encode y \<longleftrightarrow> x = y"
  by (cases x; cases y) (simp_all add: tri_encode_def)

lemma tri_decode_iff: "tri_decode bs = Some x \<longleftrightarrow> bs = tri_encode x"
  by (cases x) (auto simp: tri_decode_def tri_encode_inj)

lemma tri_decode_encode [simp]: "tri_decode (tri_encode x) = Some x"
  by (simp add: tri_decode_iff)

lemma toy_msm_eq:
  "length as = length Ps \<Longrightarrow>
     toy_msm as Ps = Some (foldr (\<lambda>(a, P) acc. tri_add (tri_mul a P) acc) (zip as Ps) T0)"
  by (induction as Ps rule: toy_msm.induct) auto

lemma tri_add_laws:
  "tri_add (tri_add a b) c = tri_add a (tri_add b c)"
  "tri_add a b = tri_add b a"
  "tri_add (tri_add a (tri_neg b)) b = a"
  "tri_add a (tri_add (tri_neg b) b) = a"
  by (cases a; cases b; cases c; simp)+

lemma tri_mul_laws:
  "tri_mul (tri_mul a b) c = tri_mul a (tri_mul b c)"
  "tri_mul a b = tri_mul b a"
  "tri_mul (tri_add a b) c = tri_add (tri_mul a c) (tri_mul b c)"
  "tri_mul c (tri_add a b) = tri_add (tri_mul c a) (tri_mul c b)"
  "a \<noteq> T0 \<Longrightarrow> tri_mul a a = T1"
  by (cases a; cases b; cases c; simp)+

lemma tri_generated: "P \<noteq> T0 \<Longrightarrow> \<exists>a. Q = tri_mul a P"
  by (cases P; cases Q) (simp_all, (metis tri_mul.simps(1,2,3) tri_neg.simps)+)

lemma toy_scalar_laws: "scalar_laws (toy f t d)"
  unfolding scalar_laws_def toy_def
  by (auto simp: tri_add_laws(1,3,4) tri_mul_laws(1,3,5) intro: tri_add_laws(2) tri_mul_laws(2))

lemma toy_point_laws: "point_laws (toy f t d)"
  unfolding point_laws_def toy_def
  by (auto simp: tri_add_laws(1) tri_mul_laws(1,3,4) tri_generated intro: tri_add_laws(2))

lemma toy_encoding_laws: "encoding_laws (toy f t d)"
  unfolding encoding_laws_def toy_def by (auto simp: tri_decode_iff tri_encode_def)

lemma toy_hash_laws: "hash_laws (toy f t d)"
  unfolding hash_laws_def toy_def by (auto simp: pad64_def toy_expand_def)

lemma toy_accel_laws: "accel_laws (toy f t d)"
  unfolding accel_laws_def toy_def by (simp add: toy_msm_eq)

lemma toy_zeroize_laws [simp]: "zeroize_laws (toy f t d)"
  by (simp add: zeroize_laws_def toy_def)

lemma toy_laws [simp]: "env_laws (toy f t d)"
  by (simp add: env_laws_def toy_scalar_laws toy_point_laws toy_encoding_laws toy_hash_laws
      toy_accel_laws)

lemmas toy_eval = toy_def tri_of_byte_def tri_encode_def tri_decode_def pad64_def toy_expand_def
  toy_random_def

end
