(* ===== verification/Group_Ops.thy ===== *)
theory Group_Ops
  imports Util Toy
begin

text \<open>
  \<open>poprf-ristretto/src/group.rs\<close>: the crate's own layer over the curve library, one
  definition per function, and the interface \<open>prime_group\<close> through which the proof
  system and the protocol use it. The interface holds the algebra of the protocol, proved
  once: unblinding, completeness and special soundness of the proof equations, linearity
  of the composites. It is interpreted at the end on the functions of \<open>group.rs\<close>.
\<close>

section \<open>Operations\<close>

definition ELEMENT_LEN :: nat where
  "ELEMENT_LEN = 32"

definition SCALAR_LEN :: nat where
  "SCALAR_LEN = 32"

definition identity :: "('s, 'p, 't, 'h, 'r) env \<Rightarrow> 'p" where
  "identity E = Point_identity E"

definition generator :: "('s, 'p, 't, 'h, 'r) env \<Rightarrow> 'p" where
  "generator E = RISTRETTO_BASEPOINT_POINT E"

definition scalar_mul :: "('s, 'p, 't, 'h, 'r) env \<Rightarrow> 's \<Rightarrow> 'p \<Rightarrow> 'p" where
  "scalar_mul E scalar element = Point_mul E scalar element"

definition scalar_mul_gen :: "('s, 'p, 't, 'h, 'r) env \<Rightarrow> 's \<Rightarrow> 'p" where
  "scalar_mul_gen E scalar = Point_mul E scalar (RISTRETTO_BASEPOINT_POINT E)"

text \<open>\<open>FixedBase\<close> is a windowed table under \<open>precomputed-tables\<close>, else the bare point.\<close>

datatype ('p, 't) FixedBase = BarePoint 'p | WindowTable 't

definition fixed_base :: "('s, 'p, 't, 'h, 'r) env \<Rightarrow> 'p \<Rightarrow> ('p, 't) FixedBase" where
  "fixed_base E p = (if precomputed_tables E then WindowTable (Table_create E p) else BarePoint p)"

fun scalar_mul_fixed :: "('s, 'p, 't, 'h, 'r) env \<Rightarrow> 's \<Rightarrow> ('p, 't) FixedBase \<Rightarrow> 'p" where
  "scalar_mul_fixed E scalar (WindowTable t) = Table_mul E scalar t"
| "scalar_mul_fixed E scalar (BarePoint p) = Point_mul E scalar p"

definition element_add :: "('s, 'p, 't, 'h, 'r) env \<Rightarrow> 'p \<Rightarrow> 'p \<Rightarrow> 'p" where
  "element_add E a b = Point_add E a b"

definition scalar_add :: "('s, 'p, 't, 'h, 'r) env \<Rightarrow> 's \<Rightarrow> 's \<Rightarrow> 's" where
  "scalar_add E a b = Scalar_add E a b"

definition scalar_sub :: "('s, 'p, 't, 'h, 'r) env \<Rightarrow> 's \<Rightarrow> 's \<Rightarrow> 's" where
  "scalar_sub E a b = Scalar_sub E a b"

definition scalar_mul_scalar :: "('s, 'p, 't, 'h, 'r) env \<Rightarrow> 's \<Rightarrow> 's \<Rightarrow> 's" where
  "scalar_mul_scalar E a b = Scalar_mul E a b"

definition scalar_invert :: "('s, 'p, 't, 'h, 'r) env \<Rightarrow> 's \<Rightarrow> 's" where
  "scalar_invert E scalar = Scalar_invert E scalar"

definition scalar_is_zero :: "('s, 'p, 't, 'h, 'r) env \<Rightarrow> 's \<Rightarrow> bool" where
  "scalar_is_zero E scalar = Scalar_ct_eq E scalar (Scalar_ZERO E)"

definition is_identity :: "('s, 'p, 't, 'h, 'r) env \<Rightarrow> 'p \<Rightarrow> bool" where
  "is_identity E element = Point_ct_eq E element (Point_identity E)"

text \<open>\<open>.expect(...)\<close> on the expansion is the panic branch.\<close>

definition hash_to_group :: "('s, 'p, 't, 'h, 'r) env \<Rightarrow> bytes list \<Rightarrow> bytes \<Rightarrow> 'p res" where
  "hash_to_group E inputs dst =
     (case expand_message_xmd E inputs [dst] 64 of
        None \<Rightarrow> panic
      | Some uniform_bytes \<Rightarrow> Inr (Point_from_uniform_bytes E uniform_bytes))"

definition hash_to_scalar :: "('s, 'p, 't, 'h, 'r) env \<Rightarrow> bytes list \<Rightarrow> bytes \<Rightarrow> 's res" where
  "hash_to_scalar E inputs dst =
     (case expand_message_xmd E inputs [dst] 64 of
        None \<Rightarrow> panic
      | Some uniform_bytes \<Rightarrow> Inr (Scalar_from_bytes_mod_order_wide E uniform_bytes))"

text \<open>The sampling loop; \<open>None\<close> is a generator that never leaves it.\<close>

partial_function (option) random_scalar :: "('s, 'p, 't, 'h, 'r) env \<Rightarrow> 'r \<Rightarrow> ('s \<times> 'r) option" where
  "random_scalar E rng =
     (case Scalar_random E rng of (s, rng') \<Rightarrow>
        if \<not> Scalar_ct_eq E s (Scalar_ZERO E) then Some (s, rng')
        else random_scalar E rng')"

declare random_scalar.simps [code]

definition serialize_element :: "('s, 'p, 't, 'h, 'r) env \<Rightarrow> 'p \<Rightarrow> bytes" where
  "serialize_element E element = Point_compress E element"

definition serialize_element_array :: "('s, 'p, 't, 'h, 'r) env \<Rightarrow> 'p \<Rightarrow> bytes" where
  "serialize_element_array E element = Point_compress E element"

definition deserialize_element :: "('s, 'p, 't, 'h, 'r) env \<Rightarrow> bytes \<Rightarrow> 'p res" where
  "deserialize_element E buf =
     (if length buf \<noteq> ELEMENT_LEN then Fail Deserialize
      else
        let arr = write_slice (replicate ELEMENT_LEN 0) 0 buf in
        case Point_decompress E arr of
          None \<Rightarrow> Fail Deserialize
        | Some point \<Rightarrow>
            if Point_ct_eq E point (Point_identity E) then Fail InputValidation
            else Inr point)"

definition serialize_scalar_array :: "('s, 'p, 't, 'h, 'r) env \<Rightarrow> 's \<Rightarrow> bytes" where
  "serialize_scalar_array E scalar = Scalar_to_bytes E scalar"

definition deserialize_scalar :: "('s, 'p, 't, 'h, 'r) env \<Rightarrow> bytes \<Rightarrow> 's res" where
  "deserialize_scalar E buf =
     (if length buf \<noteq> SCALAR_LEN then Fail Deserialize
      else
        let arr = write_slice (replicate SCALAR_LEN 0) 0 buf in
        case Scalar_from_canonical_bytes E arr of
          None \<Rightarrow> Fail Deserialize
        | Some s \<Rightarrow> Inr s)"

text \<open>The multiscalar product rejects sequences of different lengths by panicking.\<close>

definition msm :: "('s, 'p, 't, 'h, 'r) env \<Rightarrow> 's list \<Rightarrow> 'p list \<Rightarrow> 'p res" where
  "msm E scalars points =
     (case vartime_multiscalar_mul E scalars points of None \<Rightarrow> panic | Some P \<Rightarrow> Inr P)"

section \<open>The group interface\<close>

text \<open>
  What the proof system and the protocol rely on. Each operation takes the environment
  \<open>e\<close> first; the laws hold where \<open>ok e\<close> does. \<open>wsum\<close> is the weighted sum of a list of
  scalar and element pairs.
\<close>

locale prime_group =
  fixes ok :: "'e \<Rightarrow> bool"
    and sadd ssub smul :: "'e \<Rightarrow> 's \<Rightarrow> 's \<Rightarrow> 's"
    and sinv :: "'e \<Rightarrow> 's \<Rightarrow> 's"
    and is_zero :: "'e \<Rightarrow> 's \<Rightarrow> bool"
    and padd :: "'e \<Rightarrow> 'p \<Rightarrow> 'p \<Rightarrow> 'p"
    and pmul :: "'e \<Rightarrow> 's \<Rightarrow> 'p \<Rightarrow> 'p"
    and pid gen :: "'e \<Rightarrow> 'p"
    and is_id :: "'e \<Rightarrow> 'p \<Rightarrow> bool"
  assumes padd_assoc: "ok e \<Longrightarrow> padd e (padd e P Q) R = padd e P (padd e Q R)"
    and padd_comm: "ok e \<Longrightarrow> padd e P Q = padd e Q P"
    and padd_id: "ok e \<Longrightarrow> padd e (pid e) P = P"
    and padd_cancel: "ok e \<Longrightarrow> padd e P R = padd e Q R \<longleftrightarrow> P = Q"
    and pmul_sadd: "ok e \<Longrightarrow> pmul e (sadd e a b) P = padd e (pmul e a P) (pmul e b P)"
    and pmul_padd: "ok e \<Longrightarrow> pmul e a (padd e P Q) = padd e (pmul e a P) (pmul e a Q)"
    and pmul_smul: "ok e \<Longrightarrow> pmul e (smul e a b) P = pmul e a (pmul e b P)"
    and smul_comm: "ok e \<Longrightarrow> smul e a b = smul e b a"
    and ssub_add: "ok e \<Longrightarrow> sadd e (ssub e a b) b = a"
    and ssub_zero: "ok e \<Longrightarrow> is_zero e (ssub e a b) \<longleftrightarrow> a = b"
    and pmul_zero: "ok e \<Longrightarrow> is_zero e a \<Longrightarrow> pmul e a P = pid e"
    and pmul_inv: "ok e \<Longrightarrow> \<not> is_zero e a \<Longrightarrow> pmul e (sinv e a) (pmul e a P) = P"
    and is_id_iff: "ok e \<Longrightarrow> is_id e P \<longleftrightarrow> P = pid e"
    and gen_not_id: "ok e \<Longrightarrow> \<not> is_id e (gen e)"
    and generated: "ok e \<Longrightarrow> \<not> is_id e P \<Longrightarrow> \<exists>a. Q = pmul e a P"
begin

definition wsum :: "'e \<Rightarrow> ('s \<times> 'p) list \<Rightarrow> 'p" where
  "wsum e xs = foldr (\<lambda>(w, P) acc. padd e (pmul e w P) acc) xs (pid e)"

lemma wsum_simps [simp]:
  "wsum e [] = pid e"
  "wsum e ((w, P) # xs) = padd e (pmul e w P) (wsum e xs)"
  by (simp_all add: wsum_def)

lemma padd_left_comm: "ok e \<Longrightarrow> padd e P (padd e Q R) = padd e Q (padd e P R)"
  by (metis padd_assoc padd_comm)

lemma padd_id_right: "ok e \<Longrightarrow> padd e P (pid e) = P"
  by (metis padd_comm padd_id)

lemma pmul_comm: "ok e \<Longrightarrow> pmul e a (pmul e b P) = pmul e b (pmul e a P)"
  by (metis pmul_smul smul_comm)

lemma pmul_id: "ok e \<Longrightarrow> pmul e a (pid e) = pid e"
  by (metis padd_cancel padd_id pmul_padd)

lemmas group_ac = padd_assoc padd_comm padd_left_comm

lemma swap_cancel:
  assumes "ok e"
  shows "padd e (padd e A B) R = padd e B (padd e Q R) \<longleftrightarrow> Q = A"
proof -
  have "padd e B (padd e Q R) = padd e (padd e Q B) R"
    using assms by (metis padd_assoc padd_comm)
  then show ?thesis using assms by (auto simp: padd_cancel)
qed

text \<open>A non-zero scalar moves no element but the identity to the identity.\<close>

lemma pmul_eq_id: "ok e \<Longrightarrow> \<not> is_zero e a \<Longrightarrow> pmul e a P = pid e \<longleftrightarrow> P = pid e"
  by (metis pmul_id pmul_inv)

lemma pmul_ssub: "ok e \<Longrightarrow> padd e (pmul e (ssub e a b) P) (pmul e b P) = pmul e a P"
  by (metis pmul_sadd ssub_add)

lemma pmul_inj: "ok e \<Longrightarrow> P \<noteq> pid e \<Longrightarrow> pmul e a P = pmul e b P \<longleftrightarrow> a = b"
  by (metis padd_cancel padd_id pmul_eq_id pmul_ssub ssub_zero)

text \<open>Unblinding: the client's inverse cancels its blinding factor inside the server's multiple.\<close>

lemma unblind:
  assumes "ok e" and "\<not> is_zero e r"
  shows "pmul e (sinv e r) (pmul e x (pmul e r P)) = pmul e x P"
  using assms by (metis pmul_comm pmul_inv)

text \<open>The equations a verifier recomputes hold for an honest response.\<close>

lemma dleq_complete:
  assumes "ok e"
  shows "padd e (pmul e (ssub e r (smul e c k)) A) (pmul e c (pmul e k A)) = pmul e r A"
  using assms by (metis pmul_smul pmul_ssub)

text \<open>
  Special soundness: two responses to different challenges for the same commitment make
  the public value a known multiple of the base, with the same factor for every base.
\<close>

lemma dleq_extract:
  assumes e: "ok e" and ne: "c \<noteq> c'"
    and eq: "padd e (pmul e s A) (pmul e c B) = padd e (pmul e s' A) (pmul e c' B)"
  shows "B = pmul e (smul e (sinv e (ssub e c c')) (ssub e s' s)) A"
proof -
  let ?d = "ssub e c c'"
  have nz: "\<not> is_zero e ?d" using e ne by (simp add: ssub_zero)
  have "padd e (padd e (pmul e s A) (pmul e ?d B)) (pmul e c' B)
      = padd e (padd e (pmul e s' A) (pmul e c' B)) (pid e)"
    using e eq by (simp add: padd_assoc pmul_ssub padd_id_right)
  then have "padd e (pmul e ?d B) (pmul e s A) = pmul e s' A"
    using e by (metis padd_cancel padd_comm padd_id_right)
  then have "pmul e ?d B = pmul e (ssub e s' s) A"
    using e by (metis padd_cancel pmul_ssub)
  then have "pmul e (sinv e ?d) (pmul e ?d B) = pmul e (sinv e ?d) (pmul e (ssub e s' s) A)"
    by simp
  then show ?thesis using e nz by (simp add: pmul_inv pmul_smul)
qed

text \<open>Composites: scaling every element of a weighted sum scales the sum.\<close>

lemma wsum_scale:
  assumes "ok e" and "length ws = length Ps"
  shows "wsum e (zip ws (map (pmul e k) Ps)) = pmul e k (wsum e (zip ws Ps))"
  using assms(2)
  by (induction ws Ps rule: list_induct2)
     (simp_all add: assms(1) pmul_id pmul_padd pmul_comm [OF assms(1), of k])

text \<open>The accumulating loop of the source computes the same sum.\<close>

lemma wsum_foldl:
  assumes "ok e"
  shows "foldl (\<lambda>acc (w, P). padd e (pmul e w P) acc) Q xs = padd e (wsum e xs) Q"
  by (induction xs arbitrary: Q)
     (auto simp: assms padd_id padd_id_right [OF assms] group_ac)

lemma gen_not_pid: "ok e \<Longrightarrow> gen e \<noteq> pid e"
  using gen_not_id is_id_iff by blast

lemma ssub_sadd:
  assumes "ok e"
  shows "ssub e (sadd e a b) b = a"
proof -
  have "pmul e (ssub e (sadd e a b) b) (gen e) = pmul e a (gen e)"
    using pmul_ssub [OF assms, of "sadd e a b" b "gen e"] by (simp add: assms pmul_sadd padd_cancel)
  then show ?thesis by (simp add: assms pmul_inj gen_not_pid)
qed

text \<open>The interface holds on every smaller domain.\<close>

lemma restrict_ok:
  "(\<And>e. ok' e \<Longrightarrow> ok e) \<Longrightarrow>
     prime_group ok' sadd ssub smul sinv is_zero padd pmul pid gen is_id"
  by unfold_locales
    (auto simp: padd_assoc padd_id padd_cancel pmul_sadd pmul_padd pmul_smul ssub_add ssub_zero
      pmul_zero pmul_inv is_id_iff gen_not_pid generated
      intro: padd_comm smul_comm)

text \<open>Elements can be subtracted.\<close>

lemma difference:
  assumes "ok e"
  obtains R where "Q = padd e R P"
proof (cases "P = pid e")
  case True
  then have "Q = padd e Q P" using assms by (simp add: padd_id_right)
  then show ?thesis by (rule that)
next
  case False
  then obtain a where a: "P = pmul e a P" using assms generated is_id_iff by metis
  let ?R = "padd e Q (pmul e (ssub e (ssub e a a) a) P)"
  have "padd e (pmul e (ssub e (ssub e a a) a) P) P = pid e"
    using assms a pmul_ssub pmul_zero ssub_zero by metis
  then have "Q = padd e ?R P" using assms by (simp add: padd_assoc padd_id_right)
  then show ?thesis by (rule that)
qed

text \<open>Perfect blinding: every non-identity image is reached by exactly one scalar.\<close>

lemma unique_blind:
  assumes "ok e" and "P \<noteq> pid e"
  shows "\<exists>!a. Q = pmul e a P"
  using assms generated [of e P Q] pmul_inj [of e P] is_id_iff [of e P] by metis

end

section \<open>The functions of group.rs provide the interface\<close>

definition group_ok :: "('s, 'p, 't, 'h, 'r) env \<Rightarrow> bool" where
  "group_ok E \<longleftrightarrow> scalar_laws E \<and> point_laws E"

lemma group_okI [simp]: "env_laws E \<Longrightarrow> group_ok E"
  by (simp add: group_ok_def env_lawsD)

lemmas group_defs = identity_def generator_def scalar_mul_def element_add_def scalar_add_def
  scalar_sub_def scalar_mul_scalar_def scalar_invert_def scalar_is_zero_def is_identity_def

lemma scalar_sub_zero:
  assumes "scalar_laws E"
  shows "Scalar_sub E a b = Scalar_ZERO E \<longleftrightarrow> a = b"
proof
  note laws = scalar_facts [OF assms]
  show "Scalar_sub E a b = Scalar_ZERO E \<Longrightarrow> a = b"
    using laws(3,4) by metis
  let ?n = "Scalar_sub E (Scalar_ZERO E) b"
  assume "a = b"
  have "Scalar_add E (Scalar_add E (Scalar_sub E b b) b) ?n = Scalar_ZERO E"
    using laws(2,4) by metis
  then show "Scalar_sub E a b = Scalar_ZERO E"
    using laws(1,2,3,4) \<open>a = b\<close> by metis
qed

lemma point_cancel:
  assumes "group_ok E"
  shows "Point_add E P R = Point_add E Q R \<longleftrightarrow> P = Q"
proof
  note laws = point_facts [OF assms [unfolded group_ok_def, THEN conjunct2]]
  note slaws = scalar_facts [OF assms [unfolded group_ok_def, THEN conjunct1]]
  let ?R' = "Point_mul E (Scalar_sub E (Scalar_ZERO E) (Scalar_ONE E)) R"
  have "Point_add E R ?R' = Point_identity E"
    using laws(2,4,7,8) slaws(4) by metis
  then have "Point_add E (Point_add E X R) ?R' = X" for X
    using laws(1,2,3) by metis
  then show "Point_add E P R = Point_add E Q R \<Longrightarrow> P = Q" by metis
qed simp

lemma point_mul_inverse:
  assumes "group_ok E" and "a \<noteq> Scalar_ZERO E"
  shows "Point_mul E (Scalar_invert E a) (Point_mul E a P) = P"
proof -
  have laws: "scalar_laws E" "point_laws E" using assms(1) by (simp_all add: group_ok_def)
  have "Point_mul E (Scalar_invert E a) (Point_mul E a P)
      = Point_mul E (Scalar_mul E (Scalar_invert E a) a) P"
    by (simp add: point_facts(6) laws)
  then show ?thesis by (simp add: scalar_facts(6) point_facts(7) laws assms(2))
qed

interpretation gp: prime_group group_ok scalar_add scalar_sub scalar_mul_scalar scalar_invert
  scalar_is_zero element_add scalar_mul identity generator is_identity
proof (unfold_locales, unfold group_defs group_ok_def, goal_cases)
  case 1
  then show ?case by (simp add: point_facts(1))
next
  case 2
  then show ?case by (blast intro: point_facts(2))
next
  case 3
  then show ?case by (simp add: point_facts(3))
next
  case 4
  then show ?case by (simp add: point_cancel group_ok_def)
next
  case 5
  then show ?case by (simp add: point_facts(4))
next
  case 6
  then show ?case by (simp add: point_facts(5))
next
  case 7
  then show ?case by (simp add: point_facts(6))
next
  case 8
  then show ?case by (blast intro: scalar_facts(5))
next
  case 9
  then show ?case by (simp add: scalar_facts(4))
next
  case 10
  then show ?case by (simp add: scalar_sub_zero)
next
  case 11
  then show ?case by (simp add: point_facts(8))
next
  case 12
  then show ?case by (simp add: point_mul_inverse group_ok_def)
next
  case 13
  then show ?case by simp
next
  case 14
  then show ?case by (simp add: point_facts(10))
next
  case 15
  then show ?case by (simp add: point_facts(9))
qed

section \<open>Specifications of the fallible operations\<close>

text \<open>What the two hashes return when the expansion succeeds.\<close>

definition hash_scalar :: "('s, 'p, 't, 'h, 'r) env \<Rightarrow> bytes \<Rightarrow> bytes \<Rightarrow> 's" where
  "hash_scalar E msg dst =
     Scalar_from_bytes_mod_order_wide E (the (expand_message_xmd E [msg] [dst] 64))"

definition hash_group :: "('s, 'p, 't, 'h, 'r) env \<Rightarrow> bytes \<Rightarrow> bytes \<Rightarrow> 'p" where
  "hash_group E msg dst =
     Point_from_uniform_bytes E (the (expand_message_xmd E [msg] [dst] 64))"

lemma expand_ok:
  assumes "hash_laws E" and "0 < length dst" and "length dst \<le> 255"
  shows "\<exists>u. expand_message_xmd E xs [dst] 64 = Some u \<and>
             expand_message_xmd E [concat xs] [dst] 64 = Some u"
  using assms unfolding hash_laws_def by metis

lemma hash_to_scalar_spec [spec_simps]:
  "hash_laws E \<Longrightarrow> 0 < length dst \<Longrightarrow> length dst \<le> 255 \<Longrightarrow>
     hash_to_scalar E xs dst = Inr (hash_scalar E (concat xs) dst)"
  using expand_ok [of E dst xs] by (auto simp: hash_to_scalar_def hash_scalar_def)

lemma hash_to_group_spec [spec_simps]:
  "hash_laws E \<Longrightarrow> 0 < length dst \<Longrightarrow> length dst \<le> 255 \<Longrightarrow>
     hash_to_group E xs dst = Inr (hash_group E (concat xs) dst)"
  using expand_ok [of E dst xs] by (auto simp: hash_to_group_def hash_group_def)

lemma msm_spec [spec_simps]:
  "accel_laws E \<Longrightarrow> length ws = length Ps \<Longrightarrow> msm E ws Ps = Inr (gp.wsum E (zip ws Ps))"
  by (simp add: msm_def accel_laws_def gp.wsum_def group_defs)

lemma no_abort_hash:
  "no_abort (hash_to_scalar E xs dst) \<longleftrightarrow> hash_to_scalar E xs dst \<noteq> panic"
  "no_abort (hash_to_group E xs dst) \<longleftrightarrow> hash_to_group E xs dst \<noteq> panic"
  by (auto simp: hash_to_scalar_def hash_to_group_def split: option.splits)

lemma write_whole: "length buf = n \<Longrightarrow> write_slice (replicate n z) 0 buf = buf"
  by (simp add: write_slice_def)

lemma deserialize_element_spec:
  "deserialize_element E buf =
     (if length buf \<noteq> 32 then Fail Deserialize
      else case Point_decompress E buf of
          None \<Rightarrow> Fail Deserialize
        | Some P \<Rightarrow> if is_identity E P then Fail InputValidation else Inr P)"
  by (simp add: deserialize_element_def ELEMENT_LEN_def write_whole is_identity_def
      cong: option.case_cong)

lemma deserialize_scalar_spec:
  "deserialize_scalar E buf =
     (if length buf \<noteq> 32 then Fail Deserialize
      else case Scalar_from_canonical_bytes E buf of
          None \<Rightarrow> Fail Deserialize
        | Some s \<Rightarrow> Inr s)"
  by (simp add: deserialize_scalar_def SCALAR_LEN_def write_whole)

section \<open>The sampling loop\<close>

text \<open>The scalar of the \<open>n\<close>-th draw, counted from 0.\<close>

fun draw :: "('s, 'p, 't, 'h, 'r) env \<Rightarrow> 'r \<Rightarrow> nat \<Rightarrow> 's \<times> 'r" where
  "draw E rng 0 = Scalar_random E rng"
| "draw E rng (Suc n) = draw E (snd (Scalar_random E rng)) n"

lemma random_scalar_step:
  "scalar_laws E \<Longrightarrow> random_scalar E rng =
     (if fst (Scalar_random E rng) \<noteq> Scalar_ZERO E then Some (Scalar_random E rng)
      else random_scalar E (snd (Scalar_random E rng)))"
  by (subst random_scalar.simps) (auto split: prod.splits)

lemma random_scalar_first:
  assumes "scalar_laws E" and "fst (draw E rng n) \<noteq> Scalar_ZERO E"
    and "\<forall>m < n. fst (draw E rng m) = Scalar_ZERO E"
  shows "random_scalar E rng = Some (draw E rng n)"
  using assms(2,3)
proof (induction n arbitrary: rng)
  case 0
  then show ?case by (simp add: random_scalar_step [OF assms(1)])
next
  case (Suc n)
  have "fst (Scalar_random E rng) = Scalar_ZERO E" using Suc.prems(2) by force
  moreover have "\<forall>m < n. fst (draw E (snd (Scalar_random E rng)) m) = Scalar_ZERO E"
    using Suc.prems(2) by (metis Suc_less_eq draw.simps(2))
  ultimately show ?case using Suc by (simp add: random_scalar_step [OF assms(1)])
qed

lemma random_scalar_Some:
  fixes E :: "('s, 'p, 't, 'h, 'r) env"
  assumes "random_scalar E rng = Some (s, rng')"
  shows "\<not> Scalar_ct_eq E s (Scalar_ZERO E) \<and> (\<exists>n. draw E rng n = (s, rng'))"
proof -
  have "\<not> Scalar_ct_eq E (fst r) (Scalar_ZERO E) \<and> (\<exists>n. draw E rng n = r)"
    if "random_scalar E rng = Some r" for r
  proof (rule random_scalar.raw_induct [where P = "\<lambda>E rng r. \<not> Scalar_ct_eq E (fst r) (Scalar_ZERO E)
        \<and> (\<exists>n. draw E rng n = r)", OF _ that])
    fix f :: "('s, 'p, 't, 'h, 'r) env \<Rightarrow> 'r \<Rightarrow> ('s \<times> 'r) option" and E rng r
    assume IH: "\<And>E rng r. f E rng = Some r \<Longrightarrow>
        \<not> Scalar_ct_eq E (fst r) (Scalar_ZERO E) \<and> (\<exists>n. draw E rng n = r)"
      and eq: "(case Scalar_random E rng of (s, rng') \<Rightarrow>
        if \<not> Scalar_ct_eq E s (Scalar_ZERO E) then Some (s, rng') else f E rng') = Some r"
    obtain s rng1 where d: "Scalar_random E rng = (s, rng1)" by fastforce
    show "\<not> Scalar_ct_eq E (fst r) (Scalar_ZERO E) \<and> (\<exists>n. draw E rng n = r)"
    proof (cases "Scalar_ct_eq E s (Scalar_ZERO E)")
      case True
      with eq d have "f E rng1 = Some r" by simp
      from IH [OF this] d show ?thesis by (metis draw.simps(2) snd_conv)
    next
      case False
      with eq d have "r = (s, rng1)" by simp
      with False d show ?thesis by (metis draw.simps(1) fst_conv)
    qed
  qed
  from this [OF assms] show ?thesis by simp
qed

lemma random_scalar_nonzero:
  "random_scalar E rng = Some (s, rng') \<Longrightarrow> \<not> scalar_is_zero E s"
  using random_scalar_Some by (fastforce simp: scalar_is_zero_def)

lemma random_scalar_returns_iff:
  assumes "scalar_laws E"
  shows "(\<exists>s rng'. random_scalar E rng = Some (s, rng')) \<longleftrightarrow>
         (\<exists>n. fst (draw E rng n) \<noteq> Scalar_ZERO E)"
proof
  assume "\<exists>s rng'. random_scalar E rng = Some (s, rng')"
  then show "\<exists>n. fst (draw E rng n) \<noteq> Scalar_ZERO E"
    using random_scalar_Some assms by (metis fst_conv scalar_ct_eq)
next
  assume ex: "\<exists>n. fst (draw E rng n) \<noteq> Scalar_ZERO E"
  define n where "n = (LEAST n. fst (draw E rng n) \<noteq> Scalar_ZERO E)"
  have "fst (draw E rng n) \<noteq> Scalar_ZERO E" and "\<forall>m < n. fst (draw E rng m) = Scalar_ZERO E"
    using ex unfolding n_def by (metis (mono_tags, lifting) LeastI_ex, metis (mono_tags) not_less_Least)
  from random_scalar_first [OF assms this] show "\<exists>s rng'. random_scalar E rng = Some (s, rng')"
    by (metis prod.exhaust)
qed

end
