(* ===== verification/Codec.thy ===== *)
theory Codec
  imports Group_Ops
begin

text \<open>
  The interface of a fixed-length wire encoding, which every type that crosses the wire
  provides (\<open>to_bytes\<close> and \<open>from_bytes\<close>) and which the serde layer, the C ABI and the
  browser bindings build on: \<open>wire_codec\<close>. Two codecs placed one after the other give a
  codec (\<open>codec_pair\<close>), the shape of \<open>Proof\<close> and \<open>PoprfBlindState\<close>. The functions of
  \<open>group.rs\<close> for scalars and elements are the first two providers.
\<close>

locale wire_codec =
  fixes ok :: "'e \<Rightarrow> bool"
    and len :: nat
    and valid :: "'e \<Rightarrow> 'a \<Rightarrow> bool"
    and enc :: "'e \<Rightarrow> 'a \<Rightarrow> bytes"
    and dec :: "'e \<Rightarrow> bytes \<Rightarrow> 'a res"
  assumes enc_length: "ok e \<Longrightarrow> valid e x \<Longrightarrow> length (enc e x) = len"
    and dec_enc: "ok e \<Longrightarrow> valid e x \<Longrightarrow> dec e (enc e x) = Inr x"
    and dec_Inr: "ok e \<Longrightarrow> dec e bs = Inr x \<Longrightarrow> enc e x = bs \<and> valid e x"
    and dec_length: "length bs \<noteq> len \<Longrightarrow> dec e bs = Fail Deserialize"
    and dec_fault: "dec e bs = Inl f \<Longrightarrow> f = Err Deserialize \<or> f = Err InputValidation"
begin

lemma dec_iff: "ok e \<Longrightarrow> dec e bs = Inr x \<longleftrightarrow> valid e x \<and> enc e x = bs"
  using dec_enc dec_Inr by blast

lemma enc_inj: "ok e \<Longrightarrow> valid e x \<Longrightarrow> valid e y \<Longrightarrow> enc e x = enc e y \<longleftrightarrow> x = y"
  by (metis dec_enc sum.inject(2))

lemma dec_unique: "ok e \<Longrightarrow> dec e bs = Inr x \<Longrightarrow> dec e cs = Inr x \<Longrightarrow> bs = cs"
  using dec_Inr by blast

lemma dec_no_abort: "no_abort (dec e bs)"
  using dec_fault [of e bs] by (cases "dec e bs") auto

end

locale codec_pair =
  l: wire_codec ok len1 valid1 enc1 dec1 + r: wire_codec ok len2 valid2 enc2 dec2
  for ok :: "'e \<Rightarrow> bool"
    and len1 :: nat and valid1 :: "'e \<Rightarrow> 'a \<Rightarrow> bool" and enc1 dec1
    and len2 :: nat and valid2 :: "'e \<Rightarrow> 'b \<Rightarrow> bool" and enc2 dec2 +
  fixes mk :: "'a \<Rightarrow> 'b \<Rightarrow> 'c"
    and p1 :: "'c \<Rightarrow> 'a" and p2 :: "'c \<Rightarrow> 'b"
    and enc :: "'e \<Rightarrow> 'c \<Rightarrow> bytes"
    and dec :: "'e \<Rightarrow> bytes \<Rightarrow> 'c res"
  assumes p1_mk: "p1 (mk x y) = x"
    and p2_mk: "p2 (mk x y) = y"
    and mk_p: "mk (p1 z) (p2 z) = z"
    and enc_eq: "ok e \<Longrightarrow> enc e z = enc1 e (p1 z) @ enc2 e (p2 z)"
    and dec_eq: "dec e bs =
      (if length bs \<noteq> len1 + len2 then Fail Deserialize
       else rbind (dec1 e (take len1 bs)) (\<lambda>x. rbind (dec2 e (drop len1 bs)) (\<lambda>y. Inr (mk x y))))"

sublocale codec_pair < whole: wire_codec ok "len1 + len2" "\<lambda>e z. valid1 e (p1 z) \<and> valid2 e (p2 z)" enc dec
proof (unfold_locales, goal_cases)
  case (1 e x)
  then show ?case by (simp add: enc_eq l.enc_length r.enc_length)
next
  case (2 e x)
  then show ?case
    by (simp add: dec_eq enc_eq l.enc_length r.enc_length l.dec_enc r.dec_enc mk_p)
next
  case (3 e bs x)
  then obtain u v where "dec1 e (take len1 bs) = Inr u" "dec2 e (drop len1 bs) = Inr v"
    and x: "x = mk u v"
    by (auto simp: dec_eq rbind_eq_Inr_iff split: if_splits)
  then have "enc1 e u = take len1 bs \<and> valid1 e u" and "enc2 e v = drop len1 bs \<and> valid2 e v"
    using 3(1) l.dec_Inr r.dec_Inr by blast+
  then show ?case using 3(1) by (simp add: x enc_eq p1_mk p2_mk)
next
  case (4 bs e)
  then show ?case by (simp add: dec_eq)
next
  case (5 e bs f)
  then show ?case
    using l.dec_fault [of e "take len1 bs" f] r.dec_fault [of e "drop len1 bs" f]
    by (auto simp: dec_eq rbind_eq_Inl_iff split: if_splits)
qed

section \<open>Scalars and group elements\<close>

interpretation sc: wire_codec encoding_laws SCALAR_LEN "\<lambda>_ _. True" serialize_scalar_array
  deserialize_scalar
  by unfold_locales
    (auto simp: SCALAR_LEN_def serialize_scalar_array_def deserialize_scalar_spec
      scalar_to_bytes_inj
      split: if_splits option.splits)

interpretation el: wire_codec encoding_laws ELEMENT_LEN "\<lambda>E P. \<not> is_identity E P"
  serialize_element_array deserialize_element
  by unfold_locales
    (auto simp: ELEMENT_LEN_def serialize_element_array_def deserialize_element_spec
      point_compress_inj
      split: if_splits option.splits)

text \<open>The encoding of the identity exists, and the decoder tells it from malformed bytes.\<close>

lemma decode_identity:
  assumes "encoding_laws E" and "is_identity E P"
  shows "deserialize_element E (serialize_element_array E P) = Fail InputValidation"
proof -
  have "Point_decompress E (Point_compress E P) = Some P" using assms(1) by simp
  then show ?thesis
    unfolding deserialize_element_spec serialize_element_array_def \<open>Point_decompress _ _ = _\<close>
    using assms by simp
qed

end
