(* ===== verification/Key.thy ===== *)
theory Key
  imports Codec
begin

text \<open>
  \<open>poprf-ristretto/src/key.rs\<close>: secret and public keys, their wire formats, key generation
  from a random number generator and derivation from a seed. The lemmas give the codecs,
  the key the derivation loop finds, and that no constructor yields a zero secret key.
\<close>

section \<open>Keys and their wire formats\<close>

datatype 's SecretKey = SecretKey (secret_scalar: 's)

datatype 'p PublicKey = PublicKey (public_point: 'p)

definition SecretKey_LEN :: nat where
  "SecretKey_LEN = SCALAR_LEN"

definition PublicKey_LEN :: nat where
  "PublicKey_LEN = ELEMENT_LEN"

definition SecretKey_to_bytes :: "('s, 'p, 't, 'h, 'r) env \<Rightarrow> 's SecretKey \<Rightarrow> bytes" where
  "SecretKey_to_bytes E sk = serialize_scalar_array E (secret_scalar sk)"

definition SecretKey_from_bytes :: "('s, 'p, 't, 'h, 'r) env \<Rightarrow> bytes \<Rightarrow> 's SecretKey res" where
  "SecretKey_from_bytes E buf =
     rbind (deserialize_scalar E buf) (\<lambda>s.
     if Scalar_ct_eq E s (Scalar_ZERO E) then Fail InputValidation
     else Inr (SecretKey s))"

definition SecretKey_public_key :: "('s, 'p, 't, 'h, 'r) env \<Rightarrow> 's SecretKey \<Rightarrow> 'p PublicKey" where
  "SecretKey_public_key E sk = PublicKey (scalar_mul_gen E (secret_scalar sk))"

definition SecretKey_fmt :: "'s SecretKey \<Rightarrow> string" where
  "SecretKey_fmt sk = ''SecretKey(<redacted>)''"

definition PublicKey_to_bytes :: "('s, 'p, 't, 'h, 'r) env \<Rightarrow> 'p PublicKey \<Rightarrow> bytes" where
  "PublicKey_to_bytes E pk = serialize_element_array E (public_point pk)"

definition PublicKey_from_bytes :: "('s, 'p, 't, 'h, 'r) env \<Rightarrow> bytes \<Rightarrow> 'p PublicKey res" where
  "PublicKey_from_bytes E buf = rbind (deserialize_element E buf) (\<lambda>P. Inr (PublicKey P))"

definition PublicKey_fmt :: "('s, 'p, 't, 'h, 'r) env \<Rightarrow> 'p PublicKey \<Rightarrow> string" where
  "PublicKey_fmt E pk = ''PublicKey('' @ fmt_hex (PublicKey_to_bytes E pk) @ '')''"

section \<open>Generation\<close>

definition generate_key_pair ::
  "('s, 'p, 't, 'h, 'r) env \<Rightarrow> 'r \<Rightarrow> ('s SecretKey \<times> 'p PublicKey) res \<times> 'r" where
  "generate_key_pair E rng =
     (case random_scalar E rng of
        None \<Rightarrow> (Inl Diverge, rng)
      | Some (s, rng') \<Rightarrow>
          let sk = SecretKey s; pk = SecretKey_public_key E sk in (Inr (sk, pk), rng'))"

text \<open>The body of \<open>for counter in 0u16..=255\<close>, over the counters still to come.\<close>

fun derive_loop :: "('s, 'p, 't, 'h, 'r) env \<Rightarrow> bytes \<Rightarrow> 16 word list \<Rightarrow>
    ('s SecretKey \<times> 'p PublicKey) res" where
  "derive_loop E derive_input [] = Fail DeriveKeyPair"
| "derive_loop E derive_input (counter # cs) =
     (let counter_byte = i2osp_1 (ucast counter) in
      rbind (hash_to_scalar E [derive_input, counter_byte] DERIVE_KEY_PAIR_DST) (\<lambda>s.
      if \<not> scalar_is_zero E s then
        let sk = SecretKey s; pk = SecretKey_public_key E sk in Inr (sk, pk)
      else derive_loop E derive_input cs))"

definition derive_key_pair :: "('s, 'p, 't, 'h, 'r) env \<Rightarrow> bytes \<Rightarrow> bytes \<Rightarrow>
    ('s SecretKey \<times> 'p PublicKey) res" where
  "derive_key_pair E seed info =
     rbind (check_lp_len info) (\<lambda>_.
     rbind (i2osp_2 E (length info)) (\<lambda>l.
     let derive_input = (seed @ l) @ info in
     derive_loop E derive_input (map word_of_nat [0..<256])))"

section \<open>Codecs\<close>

lemma scalar_zero_iff: "scalar_laws E \<Longrightarrow> scalar_is_zero E a \<longleftrightarrow> a = Scalar_ZERO E"
  by (simp add: scalar_is_zero_def)

lemma identity_iff: "point_laws E \<Longrightarrow> is_identity E P \<longleftrightarrow> P = identity E"
  by (simp add: is_identity_def identity_def)

definition valid_secret :: "('s, 'p, 't, 'h, 'r) env \<Rightarrow> 's SecretKey \<Rightarrow> bool" where
  "valid_secret E sk \<longleftrightarrow> \<not> scalar_is_zero E (secret_scalar sk)"

definition valid_public :: "('s, 'p, 't, 'h, 'r) env \<Rightarrow> 'p PublicKey \<Rightarrow> bool" where
  "valid_public E pk \<longleftrightarrow> \<not> is_identity E (public_point pk)"

interpretation sk_codec: wire_codec encoding_laws SCALAR_LEN valid_secret SecretKey_to_bytes
  SecretKey_from_bytes
proof (unfold_locales, goal_cases)
  case (3 e bs x)
  then show ?case
    by (auto simp: SecretKey_to_bytes_def SecretKey_from_bytes_def valid_secret_def
        rbind_eq_Inr_iff scalar_is_zero_def sc.dec_iff split: if_splits)
next
  case (5 e bs f)
  then show ?case
    using sc.dec_fault by (auto simp: SecretKey_from_bytes_def rbind_eq_Inl_iff split: if_splits)
qed (simp_all add: SecretKey_to_bytes_def SecretKey_from_bytes_def valid_secret_def
    scalar_is_zero_def sc.enc_length sc.dec_enc sc.dec_length)

interpretation pk_codec: wire_codec encoding_laws ELEMENT_LEN valid_public PublicKey_to_bytes
  PublicKey_from_bytes
proof (unfold_locales, goal_cases)
  case (3 e bs x)
  then show ?case
    by (auto simp: PublicKey_to_bytes_def PublicKey_from_bytes_def valid_public_def
        rbind_eq_Inr_iff el.dec_iff)
next
  case (5 e bs f)
  then show ?case using el.dec_fault by (auto simp: PublicKey_from_bytes_def rbind_eq_Inl_iff)
qed (simp_all add: PublicKey_to_bytes_def PublicKey_from_bytes_def valid_public_def
    el.enc_length el.dec_enc el.dec_length)

lemma scalar_mul_gen_eq: "scalar_mul_gen E s = scalar_mul E s (generator E)"
  by (simp add: scalar_mul_gen_def scalar_mul_def generator_def)

lemma public_key_valid:
  assumes "group_ok E" and "valid_secret E sk"
  shows "valid_public E (SecretKey_public_key E sk)"
  using assms gp.pmul_eq_id [of E "secret_scalar sk" "generator E"] gp.gen_not_id [of E]
  by (simp add: valid_secret_def valid_public_def SecretKey_public_key_def scalar_mul_gen_eq
      gp.is_id_iff)

section \<open>Derivation finds the first non-zero candidate\<close>

text \<open>The scalar the RFC derives from the seed at a counter value.\<close>

definition derive_candidate :: "('s, 'p, 't, 'h, 'r) env \<Rightarrow> bytes \<Rightarrow> bytes \<Rightarrow> nat \<Rightarrow> 's" where
  "derive_candidate E seed info n =
     hash_scalar E (seed @ lp info @ [word_of_nat n]) DERIVE_KEY_PAIR_DST"

lemma derive_loop_spec:
  assumes "hash_laws E" and "\<forall>n \<in> set ns. n < 256"
  shows "derive_loop E (seed @ lp info) (map word_of_nat ns) =
     (case find (\<lambda>n. \<not> scalar_is_zero E (derive_candidate E seed info n)) ns of
        None \<Rightarrow> Fail DeriveKeyPair
      | Some n \<Rightarrow> let sk = SecretKey (derive_candidate E seed info n) in
          Inr (sk, SecretKey_public_key E sk))"
  using assms(2)
proof (induction ns)
  case (Cons n ns)
  have "ucast (word_of_nat n :: 16 word) = (word_of_nat n :: byte)"
    using Cons.prems by (simp add: word_eq_iff_unsigned unsigned_ucast_eq unsigned_of_nat take_bit_eq_mod)
  with Cons show ?case
    by (simp add: spec_simps assms(1) i2osp_1_def derive_candidate_def Let_def)
qed simp

lemma derive_key_pair_eq:
  assumes "hash_laws E"
  shows "derive_key_pair E seed info =
     (if 65534 < length info then Fail InputTooLong
      else case find (\<lambda>n. \<not> scalar_is_zero E (derive_candidate E seed info n)) [0..<256] of
        None \<Rightarrow> Fail DeriveKeyPair
      | Some n \<Rightarrow> let sk = SecretKey (derive_candidate E seed info n) in
          Inr (sk, SecretKey_public_key E sk))"
  using derive_loop_spec [OF assms, of "[0..<256]" seed info]
  by (simp add: derive_key_pair_def spec_simps lp_def check_lp_len_eq Let_def del: upt_rec_numeral)

lemma generate_key_pair_valid:
  "generate_key_pair E rng = (Inr (sk, pk), rng') \<Longrightarrow>
     valid_secret E sk \<and> pk = SecretKey_public_key E sk"
  using random_scalar_nonzero
  by (fastforce simp: generate_key_pair_def valid_secret_def Let_def split: option.splits)

lemma derive_loop_valid:
  "derive_loop E di cs = Inr (sk, pk) \<Longrightarrow> valid_secret E sk \<and> pk = SecretKey_public_key E sk"
  by (induction cs) (auto simp: valid_secret_def Let_def rbind_eq_Inr_iff split: if_splits)

lemma derive_key_pair_valid:
  "derive_key_pair E seed info = Inr (sk, pk) \<Longrightarrow>
     valid_secret E sk \<and> pk = SecretKey_public_key E sk"
  using derive_loop_valid by (fastforce simp: derive_key_pair_def Let_def rbind_eq_Inr_iff)

end
