(* ===== verification/Dleq.thy ===== *)
theory Dleq
  imports Key
begin

text \<open>
  \<open>poprf-ristretto/src/dleq.rs\<close>: proofs that two lists of group elements share one discrete
  logarithm. First the code (the wire format of \<open>Proof\<close>, the composites in both builds,
  generation, verification), then its specification on byte strings and group elements,
  then completeness, the exact acceptance condition, and the interface \<open>dleq_system\<close> that
  the protocol uses.
\<close>

section \<open>The proof and its wire format\<close>

record 's Proof =
  proof_c :: 's
  proof_s :: 's

definition Proof_LEN :: nat where
  "Proof_LEN = 2 * SCALAR_LEN"

definition Proof_to_bytes :: "('s, 'p, 't, 'h, 'r) env \<Rightarrow> 's Proof \<Rightarrow> bytes" where
  "Proof_to_bytes E pf =
     (let out = replicate Proof_LEN 0;
          out = write_slice out 0 (serialize_scalar_array E (proof_c pf));
          out = write_slice out SCALAR_LEN (serialize_scalar_array E (proof_s pf))
      in out)"

definition Proof_from_bytes :: "('s, 'p, 't, 'h, 'r) env \<Rightarrow> bytes \<Rightarrow> 's Proof res" where
  "Proof_from_bytes E buf =
     (if length buf \<noteq> Proof_LEN then Fail Deserialize
      else
        rbind (slice_to Panic buf SCALAR_LEN) (\<lambda>b1.
        rbind (deserialize_scalar E b1) (\<lambda>c.
        rbind (slice_from Panic buf SCALAR_LEN) (\<lambda>b2.
        rbind (deserialize_scalar E b2) (\<lambda>s.
        Inr \<lparr>proof_c = c, proof_s = s\<rparr>)))))"

definition Proof_fmt :: "('s, 'p, 't, 'h, 'r) env \<Rightarrow> 's Proof \<Rightarrow> string" where
  "Proof_fmt E pf = ''Proof('' @ fmt_hex (Proof_to_bytes E pf) @ '')''"

section \<open>Composites\<close>

definition composite_seed :: "('s, 'p, 't, 'h, 'r) env \<Rightarrow> 'p \<Rightarrow> bytes res" where
  "composite_seed E b =
     (let bm = serialize_element E b in
      rbind (append_lp E [] bm) (\<lambda>transcript.
      rbind (append_lp E transcript SEED_DST) (\<lambda>transcript.
      let hasher = Sha512_update E (Sha512_default E) transcript in
      Inr (Sha512_finalize E hasher))))"

definition composite_di ::
  "('s, 'p, 't, 'h, 'r) env \<Rightarrow> bytes \<Rightarrow> bytes \<Rightarrow> nat \<Rightarrow> bytes \<Rightarrow> 'p \<Rightarrow> 'p \<Rightarrow> 's res" where
  "composite_di E seed_len seed i elem_len ci di_pt =
     (let ci_bytes = serialize_element E ci;
          di_bytes = serialize_element E di_pt in
      rbind (i2osp_2 E i) (\<lambda>i_bytes.
      hash_to_scalar E
        [seed_len, seed, i_bytes, elem_len, ci_bytes, elem_len, di_bytes, ascii ''Composite'']
        HASH_TO_SCALAR_DST))"

text \<open>The loops of the build without \<open>fast-dleq\<close>, over the enumerated pairs.\<close>

fun composite_loop_m :: "('s, 'p, 't, 'h, 'r) env \<Rightarrow> bytes \<Rightarrow> bytes \<Rightarrow> bytes \<Rightarrow> 'p \<Rightarrow>
    (nat \<times> 'p \<times> 'p) list \<Rightarrow> 'p res" where
  "composite_loop_m E seed_len seed elem_len acc [] = Inr acc"
| "composite_loop_m E seed_len seed elem_len acc ((i, ci, di_pt) # xs) =
     rbind (composite_di E seed_len seed i elem_len ci di_pt) (\<lambda>di.
     let trm = scalar_mul E di ci in
     composite_loop_m E seed_len seed elem_len (element_add E trm acc) xs)"

fun composite_loop_mz :: "('s, 'p, 't, 'h, 'r) env \<Rightarrow> bytes \<Rightarrow> bytes \<Rightarrow> bytes \<Rightarrow> 'p \<Rightarrow> 'p \<Rightarrow>
    (nat \<times> 'p \<times> 'p) list \<Rightarrow> ('p \<times> 'p) res" where
  "composite_loop_mz E seed_len seed elem_len m z [] = Inr (m, z)"
| "composite_loop_mz E seed_len seed elem_len m z ((i, ci, di_pt) # xs) =
     rbind (composite_di E seed_len seed i elem_len ci di_pt) (\<lambda>di.
     let term_m = scalar_mul E di ci;
         term_z = scalar_mul E di di_pt in
     composite_loop_mz E seed_len seed elem_len (element_add E term_m m) (element_add E term_z z) xs)"

definition compute_composites_fast ::
  "('s, 'p, 't, 'h, 'r) env \<Rightarrow> 's \<Rightarrow> 'p \<Rightarrow> 'p list \<Rightarrow> 'p list \<Rightarrow> ('p \<times> 'p) res" where
  "compute_composites_fast E k b c_list d_list =
     rbind (composite_seed E b) (\<lambda>seed.
     rbind (i2osp_2 E (length seed)) (\<lambda>seed_len.
     rbind (i2osp_2 E ELEMENT_LEN) (\<lambda>elem_len.
     rbind
       (if fast_dleq E then
          rbind (rmap (\<lambda>(i, ci, di_pt). composite_di E seed_len seed i elem_len ci di_pt)
                   (zip_enumerate c_list d_list)) (\<lambda>ds.
          msm E ds c_list)
        else composite_loop_m E seed_len seed elem_len (identity E) (zip_enumerate c_list d_list))
       (\<lambda>m.
        let z = scalar_mul E k m in
        Inr (m, z)))))"

definition compute_composites ::
  "('s, 'p, 't, 'h, 'r) env \<Rightarrow> 'p \<Rightarrow> 'p list \<Rightarrow> 'p list \<Rightarrow> ('p \<times> 'p) res" where
  "compute_composites E b c_list d_list =
     rbind (composite_seed E b) (\<lambda>seed.
     rbind (i2osp_2 E (length seed)) (\<lambda>seed_len.
     rbind (i2osp_2 E ELEMENT_LEN) (\<lambda>elem_len.
     if fast_dleq E then
       rbind (rmap (\<lambda>(i, ci, di_pt). composite_di E seed_len seed i elem_len ci di_pt)
                (zip_enumerate c_list d_list)) (\<lambda>ds.
       rbind (msm E ds c_list) (\<lambda>m.
       rbind (msm E ds d_list) (\<lambda>z.
       Inr (m, z))))
     else
       composite_loop_mz E seed_len seed elem_len (identity E) (identity E)
         (zip_enumerate c_list d_list))))"

section \<open>Generation and verification\<close>

text \<open>The Fiat-Shamir transcript, built by the same lines in both functions.\<close>

definition challenge_transcript ::
  "('s, 'p, 't, 'h, 'r) env \<Rightarrow> 'p \<Rightarrow> 'p \<Rightarrow> 'p \<Rightarrow> 'p \<Rightarrow> 'p \<Rightarrow> bytes res" where
  "challenge_transcript E b m_elt z_elt t2 t3 =
     (let bm = serialize_element E b;
          a0 = serialize_element E m_elt;
          a1 = serialize_element E z_elt;
          a2 = serialize_element E t2;
          a3 = serialize_element E t3 in
      rbind (append_lp E [] bm) (\<lambda>transcript.
      rbind (append_lp E transcript a0) (\<lambda>transcript.
      rbind (append_lp E transcript a1) (\<lambda>transcript.
      rbind (append_lp E transcript a2) (\<lambda>transcript.
      rbind (append_lp E transcript a3) (\<lambda>transcript.
      Inr (transcript @ ascii ''Challenge'')))))))"

definition generate_proof_with_r ::
  "('s, 'p, 't, 'h, 'r) env \<Rightarrow> 's \<Rightarrow> 'p \<Rightarrow> 'p \<Rightarrow> 'p list \<Rightarrow> 'p list \<Rightarrow> 's \<Rightarrow> 's Proof res" where
  "generate_proof_with_r E k a b c_list d_list r =
     rbind (compute_composites_fast E k b c_list d_list) (\<lambda>(m_elt, z_elt).
     let t2 = scalar_mul E r a;
         t3 = scalar_mul E r m_elt in
     rbind (challenge_transcript E b m_elt z_elt t2 t3) (\<lambda>transcript.
     rbind (hash_to_scalar E [transcript] HASH_TO_SCALAR_DST) (\<lambda>c_chal.
     let ck = scalar_mul_scalar E c_chal k;
         s = scalar_sub E r ck in
     Inr \<lparr>proof_c = c_chal, proof_s = s\<rparr>)))"

definition generate_proof ::
  "('s, 'p, 't, 'h, 'r) env \<Rightarrow> 'r \<Rightarrow> 's \<Rightarrow> 'p \<Rightarrow> 'p \<Rightarrow> 'p list \<Rightarrow> 'p list \<Rightarrow> 's Proof res \<times> 'r" where
  "generate_proof E rng k a b c_list d_list =
     (case random_scalar E rng of
        None \<Rightarrow> (Inl Diverge, rng)
      | Some (r, rng') \<Rightarrow> (generate_proof_with_r E k a b c_list d_list r, rng'))"

text \<open>The two group elements a verifier recomputes from the response.\<close>

definition verify_commitments ::
  "('s, 'p, 't, 'h, 'r) env \<Rightarrow> 'p \<Rightarrow> 'p \<Rightarrow> 'p \<Rightarrow> 'p \<Rightarrow> 's Proof \<Rightarrow> 'p \<times> 'p" where
  "verify_commitments E a b m_elt z_elt pf =
     (let s_a = scalar_mul E (proof_s pf) a;
          c_b = scalar_mul E (proof_c pf) b;
          t2 = element_add E s_a c_b;
          s_m = scalar_mul E (proof_s pf) m_elt;
          c_z = scalar_mul E (proof_c pf) z_elt;
          t3 = element_add E s_m c_z
      in (t2, t3))"

definition verify_proof ::
  "('s, 'p, 't, 'h, 'r) env \<Rightarrow> 'p \<Rightarrow> 'p \<Rightarrow> 'p list \<Rightarrow> 'p list \<Rightarrow> 's Proof \<Rightarrow> unit res" where
  "verify_proof E a b c_list d_list pf =
     rbind (compute_composites E b c_list d_list) (\<lambda>(m_elt, z_elt).
     let (t2, t3) = verify_commitments E a b m_elt z_elt pf in
     rbind (challenge_transcript E b m_elt z_elt t2 t3) (\<lambda>transcript.
     rbind (hash_to_scalar E [transcript] HASH_TO_SCALAR_DST) (\<lambda>expected_c.
     if Scalar_ct_eq E expected_c (proof_c pf) then Inr ()
     else Fail Verify)))"

section \<open>Specification\<close>

text \<open>
  What the RFC says the code computes, on byte strings without failures: the seed, the
  weight of a pair, the transcript and the challenge. \<open>batch_fits\<close> is the size up to which
  the two-byte index of a pair passes the assertion of a debug build.
\<close>

definition dleq_seed :: "('s, 'p, 't, 'h, 'r) env \<Rightarrow> 'p \<Rightarrow> bytes" where
  "dleq_seed E b = Sha512_finalize E (Sha512_update E (Sha512_default E)
     (lp (serialize_element E b) @ lp SEED_DST))"

definition dleq_weight :: "('s, 'p, 't, 'h, 'r) env \<Rightarrow> 'p \<Rightarrow> nat \<Rightarrow> 'p \<Rightarrow> 'p \<Rightarrow> 's" where
  "dleq_weight E b i ci di = hash_scalar E
     (lp (dleq_seed E b) @ be16 i @ lp (serialize_element E ci) @ lp (serialize_element E di)
       @ ascii ''Composite'') HASH_TO_SCALAR_DST"

definition dleq_weights :: "('s, 'p, 't, 'h, 'r) env \<Rightarrow> 'p \<Rightarrow> 'p list \<Rightarrow> 'p list \<Rightarrow> 's list" where
  "dleq_weights E b cs ds = map (\<lambda>(i, ci, di). dleq_weight E b i ci di) (zip_enumerate cs ds)"

definition dleq_transcript ::
  "('s, 'p, 't, 'h, 'r) env \<Rightarrow> 'p \<Rightarrow> 'p \<Rightarrow> 'p \<Rightarrow> 'p \<Rightarrow> 'p \<Rightarrow> bytes" where
  "dleq_transcript E b m z t2 t3 =
     lp (serialize_element E b) @ lp (serialize_element E m) @ lp (serialize_element E z) @
     lp (serialize_element E t2) @ lp (serialize_element E t3) @ ascii ''Challenge''"

definition dleq_challenge ::
  "('s, 'p, 't, 'h, 'r) env \<Rightarrow> 'p \<Rightarrow> 'p \<Rightarrow> 'p \<Rightarrow> 'p \<Rightarrow> 'p \<Rightarrow> 's" where
  "dleq_challenge E b m z t2 t3 = hash_scalar E (dleq_transcript E b m z t2 t3) HASH_TO_SCALAR_DST"

definition batch_fits :: "('s, 'p, 't, 'h, 'r) env \<Rightarrow> nat \<Rightarrow> bool" where
  "batch_fits E n \<longleftrightarrow> n \<le> 65536 \<or> \<not> debug_assertions E"

lemma length_serialize_element [simp]: "env_laws E \<Longrightarrow> length (serialize_element E P) = 32"
  by (simp add: serialize_element_def env_lawsD)

lemma length_dleq_seed [simp]: "env_laws E \<Longrightarrow> length (dleq_seed E b) = 64"
  by (simp add: dleq_seed_def env_lawsD)

lemma length_dleq_weights [simp]: "length (dleq_weights E b cs ds) = min (length cs) (length ds)"
  by (simp add: dleq_weights_def)

lemma serialize_element_inj:
  "env_laws E \<Longrightarrow> serialize_element E P = serialize_element E Q \<longleftrightarrow> P = Q"
  by (simp add: serialize_element_def point_compress_inj env_lawsD)

text \<open>The transcript determines the five group elements that went into it.\<close>

lemma dleq_transcript_inj:
  assumes "env_laws E"
  shows "dleq_transcript E b m z t2 t3 = dleq_transcript E b' m' z' t2' t3' \<longleftrightarrow>
     b = b' \<and> m = m' \<and> z = z' \<and> t2 = t2' \<and> t3 = t3'"
  unfolding dleq_transcript_def
  by (simp add: lp_split lp_inj assms serialize_element_inj)

lemma composite_seed_spec [spec_simps]:
  "env_laws E \<Longrightarrow> composite_seed E b = Inr (dleq_seed E b)"
  by (simp add: composite_seed_def dleq_seed_def spec_simps)

lemma composite_di_spec [spec_simps]:
  assumes "env_laws E" and "i \<le> 65535 \<or> \<not> debug_assertions E"
  shows "composite_di E (be16 64) (dleq_seed E b) i (be16 32) ci di = Inr (dleq_weight E b i ci di)"
  using assms by (simp add: composite_di_def dleq_weight_def spec_simps env_lawsD lp_def)

lemma challenge_transcript_spec [spec_simps]:
  "env_laws E \<Longrightarrow> challenge_transcript E b m z t2 t3 = Inr (dleq_transcript E b m z t2 t3)"
  by (simp add: challenge_transcript_def dleq_transcript_def spec_simps Let_def)

lemma hash_transcript:
  "env_laws E \<Longrightarrow> hash_to_scalar E [dleq_transcript E b m z t2 t3] HASH_TO_SCALAR_DST =
     Inr (dleq_challenge E b m z t2 t3)"
  by (simp add: hash_to_scalar_spec env_lawsD dleq_challenge_def)

lemma composite_loop_m_spec:
  assumes "env_laws E" and "\<forall>(i, c, d) \<in> set xs. i \<le> 65535 \<or> \<not> debug_assertions E"
  shows "composite_loop_m E (be16 64) (dleq_seed E b) (be16 32) acc xs =
     Inr (foldl (\<lambda>acc (w, P). element_add E (scalar_mul E w P) acc) acc
           (map (\<lambda>(i, c, d). (dleq_weight E b i c d, c)) xs))"
  using assms(2) by (induction xs arbitrary: acc) (auto simp: spec_simps assms(1) Let_def)

lemma composite_loop_mz_spec:
  assumes "env_laws E" and "\<forall>(i, c, d) \<in> set xs. i \<le> 65535 \<or> \<not> debug_assertions E"
  shows "composite_loop_mz E (be16 64) (dleq_seed E b) (be16 32) m z xs =
     Inr (foldl (\<lambda>acc (w, P). element_add E (scalar_mul E w P) acc) m
           (map (\<lambda>(i, c, d). (dleq_weight E b i c d, c)) xs),
          foldl (\<lambda>acc (w, P). element_add E (scalar_mul E w P) acc) z
           (map (\<lambda>(i, c, d). (dleq_weight E b i c d, d)) xs))"
  using assms(2) by (induction xs arbitrary: m z) (auto simp: spec_simps assms(1) Let_def)

lemma zip_weights:
  assumes "length cs = length ds"
  shows "zip (dleq_weights E b cs ds) cs = map (\<lambda>(i, c, d). (dleq_weight E b i c d, c)) (zip_enumerate cs ds)"
    and "zip (dleq_weights E b cs ds) ds = map (\<lambda>(i, c, d). (dleq_weight E b i c d, d)) (zip_enumerate cs ds)"
  unfolding dleq_weights_def zip_map_zip_enumerate [OF assms] by (simp_all add: case_prod_beta')

lemma fits_index:
  assumes "batch_fits E (length cs)"
  shows "\<forall>(i, c, d) \<in> set (zip_enumerate cs ds). i \<le> 65535 \<or> \<not> debug_assertions E"
  using assms by (auto simp: batch_fits_def dest!: zip_enumerate_index)

lemma weights_spec:
  assumes "env_laws E" and "batch_fits E (length cs)"
  shows "rmap (\<lambda>(i, c, d). composite_di E (be16 64) (dleq_seed E b) i (be16 32) c d)
           (zip_enumerate cs ds) = Inr (dleq_weights E b cs ds)"
  unfolding dleq_weights_def
  using fits_index [OF assms(2), of ds]
  by (intro rmap_Inr) (auto simp: spec_simps assms(1))

text \<open>Both builds compute the weighted sums, the server from its key, the client from both lists.\<close>

lemma composites_fast_spec [spec_simps]:
  assumes "env_laws E" and "batch_fits E (length cs)" and "length cs = length ds"
  shows "compute_composites_fast E k b cs ds =
     (let m = gp.wsum E (zip (dleq_weights E b cs ds) cs) in Inr (m, scalar_mul E k m))"
  using assms fits_index [OF assms(2), of ds]
  by (simp add: compute_composites_fast_def spec_simps weights_spec ELEMENT_LEN_def env_lawsD
      composite_loop_m_spec gp.wsum_foldl gp.padd_id_right zip_weights Let_def)

lemma composites_spec [spec_simps]:
  assumes "env_laws E" and "batch_fits E (length cs)" and "length cs = length ds"
  shows "compute_composites E b cs ds =
     Inr (gp.wsum E (zip (dleq_weights E b cs ds) cs), gp.wsum E (zip (dleq_weights E b cs ds) ds))"
  using assms fits_index [OF assms(2), of ds]
  by (simp add: compute_composites_def spec_simps weights_spec ELEMENT_LEN_def env_lawsD
      composite_loop_mz_spec gp.wsum_foldl gp.padd_id_right zip_weights Let_def)

text \<open>
  A batch beyond the two-byte index: the assertion of a debug build stops every path.
\<close>

lemma composite_di_panics:
  "debug_assertions E \<Longrightarrow> 65535 < i \<Longrightarrow> composite_di E sl sd i el c d = panic"
  by (simp add: composite_di_def i2osp_2_def Let_def)

lemma composite_loop_m_panics:
  assumes "env_laws E" and "debug_assertions E" and "\<exists>(i, c, d) \<in> set xs. 65535 < i"
  shows "composite_loop_m E (be16 64) (dleq_seed E b) (be16 32) acc xs = panic"
  using assms(3)
proof (induction xs arbitrary: acc)
  case (Cons x xs)
  obtain i c d where x: "x = (i, c, d)" by (cases x)
  show ?case
  proof (cases "65535 < i")
    case True
    then show ?thesis by (simp add: x composite_di_panics assms(2))
  next
    case False
    then show ?thesis using Cons by (auto simp: x spec_simps assms(1) Let_def)
  qed
qed simp

lemma composite_loop_mz_panics:
  assumes "env_laws E" and "debug_assertions E" and "\<exists>(i, c, d) \<in> set xs. 65535 < i"
  shows "composite_loop_mz E (be16 64) (dleq_seed E b) (be16 32) m z xs = panic"
  using assms(3)
proof (induction xs arbitrary: m z)
  case (Cons x xs)
  obtain i c d where x: "x = (i, c, d)" by (cases x)
  show ?case
  proof (cases "65535 < i")
    case True
    then show ?thesis by (simp add: x composite_di_panics assms(2))
  next
    case False
    then show ?thesis using Cons by (auto simp: x spec_simps assms(1) Let_def)
  qed
qed simp

lemma weights_panic:
  assumes "env_laws E" and "debug_assertions E" and "\<exists>(i, c, d) \<in> set xs. 65535 < i"
  shows "rmap (\<lambda>(i, c, d). composite_di E (be16 64) (dleq_seed E b) i (be16 32) c d) xs = panic"
proof (rule rmap_uniform_Inl)
  show "\<exists>x \<in> set xs. (case x of (i, c, d) \<Rightarrow>
      composite_di E (be16 64) (dleq_seed E b) i (be16 32) c d) = panic"
    using assms(2,3) by (force simp: composite_di_panics)
next
  fix x e
  assume eq: "(case x of (i, c, d) \<Rightarrow> composite_di E (be16 64) (dleq_seed E b) i (be16 32) c d) = Inl e"
  obtain i c d where x: "x = (i, c, d)" by (cases x)
  show "e = Panic"
    using eq assms(1,2) by (cases "65535 < i") (simp_all add: x composite_di_panics spec_simps)
qed

lemma overflow_index:
  assumes "\<not> batch_fits E (length cs)" and "length cs = length ds"
  shows "debug_assertions E" and "\<exists>(i, c, d) \<in> set (zip_enumerate cs ds). 65535 < i"
proof -
  show "debug_assertions E" using assms by (simp add: batch_fits_def)
  have "65536 < length cs" using assms by (simp add: batch_fits_def)
  then have "(65536, cs ! 65536, ds ! 65536) \<in> set (zip_enumerate cs ds)"
    using assms(2) by (intro zip_enumerate_in_set) simp_all
  then show "\<exists>(i, c, d) \<in> set (zip_enumerate cs ds). 65535 < i" by force
qed

lemma composites_panic:
  assumes "env_laws E" and "\<not> batch_fits E (length cs)" and "length cs = length ds"
  shows "compute_composites_fast E k b cs ds = panic" and "compute_composites E b cs ds = panic"
  using assms(1) overflow_index [OF assms(2,3)]
  by (simp_all add: compute_composites_fast_def compute_composites_def spec_simps weights_panic
      ELEMENT_LEN_def composite_loop_m_panics composite_loop_mz_panics)

section \<open>Generation and verification, specified\<close>

lemma generate_spec [spec_simps]:
  assumes "env_laws E" and "length cs = length ds"
  shows "generate_proof_with_r E k a b cs ds r =
     (if batch_fits E (length cs) then
        let m = gp.wsum E (zip (dleq_weights E b cs ds) cs);
            c = dleq_challenge E b m (scalar_mul E k m) (scalar_mul E r a) (scalar_mul E r m)
        in Inr \<lparr>proof_c = c, proof_s = scalar_sub E r (scalar_mul_scalar E c k)\<rparr>
      else panic)"
  using assms
  by (simp add: generate_proof_with_r_def spec_simps composites_panic env_lawsD dleq_challenge_def
      Let_def)

lemma verify_spec [spec_simps]:
  assumes "env_laws E" and "length cs = length ds"
  shows "verify_proof E a b cs ds pf =
     (if batch_fits E (length cs) then
        let m = gp.wsum E (zip (dleq_weights E b cs ds) cs);
            z = gp.wsum E (zip (dleq_weights E b cs ds) ds);
            (t2, t3) = verify_commitments E a b m z pf
        in if dleq_challenge E b m z t2 t3 = proof_c pf then Inr () else Fail Verify
      else panic)"
  using assms
  by (simp add: verify_proof_def spec_simps composites_panic env_lawsD dleq_challenge_def
      Let_def case_prod_beta')

lemma commitments_of_response:
  assumes "env_laws E" and "b = scalar_mul E k a" and "z = scalar_mul E k m"
    and "proof_s pf = scalar_sub E r (scalar_mul_scalar E (proof_c pf) k)"
  shows "verify_commitments E a b m z pf = (scalar_mul E r a, scalar_mul E r m)"
  using assms by (simp add: verify_commitments_def Let_def gp.dleq_complete)

lemma honest_proof_verifies:
  assumes E: "env_laws E" and fits: "batch_fits E (length cs)"
    and gen: "generate_proof_with_r E k a (scalar_mul E k a) cs (map (scalar_mul E k) cs) r = Inr pf"
  shows "verify_proof E a (scalar_mul E k a) cs (map (scalar_mul E k) cs) pf = Inr ()"
proof -
  let ?ds = "map (scalar_mul E k) cs" and ?b = "scalar_mul E k a"
  let ?m = "gp.wsum E (zip (dleq_weights E ?b cs ?ds) cs)"
  have z: "gp.wsum E (zip (dleq_weights E ?b cs ?ds) ?ds) = scalar_mul E k ?m"
    using E by (simp add: gp.wsum_scale)
  have pf: "proof_c pf = dleq_challenge E ?b ?m (scalar_mul E k ?m) (scalar_mul E r a) (scalar_mul E r ?m)"
    "proof_s pf = scalar_sub E r (scalar_mul_scalar E (proof_c pf) k)"
    using gen E fits by (auto simp: spec_simps Let_def)
  have "verify_commitments E a ?b ?m (scalar_mul E k ?m) pf = (scalar_mul E r a, scalar_mul E r ?m)"
    using E pf(2) by (intro commitments_of_response) auto
  then show ?thesis using E fits pf(1) by (simp add: spec_simps z Let_def)
qed

lemma no_abort_verify:
  assumes "env_laws E" and "length cs = length ds" and "batch_fits E (length cs)"
  shows "no_abort (verify_proof E a b cs ds pf)"
  using assms by (auto simp: verify_spec Let_def split: prod.splits)

lemma no_abort_generate:
  assumes "env_laws E" and "length cs = length ds" and "batch_fits E (length cs)"
  shows "no_abort (generate_proof_with_r E k a b cs ds r)"
  using assms by (auto simp: generate_spec Let_def)

section \<open>The interface of the proof system\<close>

text \<open>
  What the protocol relies on: proving succeeds on lists of the same length that fit, and
  the proof of a true statement is accepted. The client's lemma is the situation of the
  server: it divides every blinded element by \<open>t\<close> and proves that it did.
\<close>

locale dleq_system = prime_group +
  fixes fits :: "'a \<Rightarrow> nat \<Rightarrow> bool"
    and prove :: "'a \<Rightarrow> 'b \<Rightarrow> 'c \<Rightarrow> 'c \<Rightarrow> 'c list \<Rightarrow> 'c list \<Rightarrow> 'b \<Rightarrow> 'pf res"
    and verify :: "'a \<Rightarrow> 'c \<Rightarrow> 'c \<Rightarrow> 'c list \<Rightarrow> 'c list \<Rightarrow> 'pf \<Rightarrow> unit res"
  assumes prove_total: "ok e \<Longrightarrow> fits e (length cs) \<Longrightarrow> length cs = length ds \<Longrightarrow>
      \<exists>pf. prove e k A B cs ds r = Inr pf"
    and prove_panics: "ok e \<Longrightarrow> \<not> fits e (length cs) \<Longrightarrow> length cs = length ds \<Longrightarrow>
      prove e k A B cs ds r = panic"
    and complete: "ok e \<Longrightarrow> fits e (length cs) \<Longrightarrow>
      prove e k A (pmul e k A) cs (map (pmul e k) cs) r = Inr pf \<Longrightarrow>
      verify e A (pmul e k A) cs (map (pmul e k) cs) pf = Inr ()"
begin

lemma divided_and_multiplied:
  assumes "ok e" and "\<not> is_zero e t"
  shows "map (pmul e t) (map (pmul e (sinv e t)) bs) = bs"
  using assms by (induction bs) (simp_all add: pmul_comm [of e t] pmul_inv)

lemma honest_evaluation:
  assumes "ok e" and "\<not> is_zero e t"
    and "prove e t (gen e) (pmul e t (gen e)) (map (pmul e (sinv e t)) bs) bs r = Inr pf"
  shows "verify e (gen e) (pmul e t (gen e)) (map (pmul e (sinv e t)) bs) bs pf = Inr ()"
proof -
  let ?es = "map (pmul e (sinv e t)) bs"
  have "fits e (length ?es)" using prove_panics [of e ?es bs] assms by fastforce
  then show ?thesis
    using complete [of e ?es t "gen e" r pf] assms divided_and_multiplied [OF assms(1,2), of bs]
    by simp
qed

lemma honest_evaluation_exists:
  assumes "ok e" and "\<not> is_zero e t" and "fits e (length bs)"
  shows "\<exists>pf. prove e t (gen e) (pmul e t (gen e)) (map (pmul e (sinv e t)) bs) bs r = Inr pf \<and>
    verify e (gen e) (pmul e t (gen e)) (map (pmul e (sinv e t)) bs) bs pf = Inr ()"
  using prove_total [of e "map (pmul e (sinv e t)) bs" bs] honest_evaluation assms
  by (metis length_map)

end

interpretation dl: dleq_system env_laws scalar_add scalar_sub scalar_mul_scalar scalar_invert
  scalar_is_zero element_add scalar_mul identity generator is_identity batch_fits
  generate_proof_with_r verify_proof
proof (rule dleq_system.intro [OF gp.restrict_ok dleq_system_axioms.intro], goal_cases)
  case (4 e cs k A r pf)
  then show ?case by (rule honest_proof_verifies)
qed (simp_all add: spec_simps Let_def)

interpretation proof_codec: codec_pair encoding_laws
  SCALAR_LEN "\<lambda>_ _. True" serialize_scalar_array deserialize_scalar
  SCALAR_LEN "\<lambda>_ _. True" serialize_scalar_array deserialize_scalar
  "\<lambda>c s. \<lparr>proof_c = c, proof_s = s\<rparr>" proof_c proof_s Proof_to_bytes Proof_from_bytes
  by unfold_locales
    (auto simp: Proof_to_bytes_def Proof_from_bytes_def Proof_LEN_def SCALAR_LEN_def Let_def
      slice_to_def slice_from_def serialize_scalar_array_def intro!: write_slice_halves)

end
