(* ===== verification/Poprf_Types.thy ===== *)
theory Poprf_Types
  imports Dleq
begin

text \<open>
  The first part of \<open>poprf-ristretto/src/poprf.rs\<close>: the wire types with their encodings,
  comparison and debug output, the hash inputs of the protocol (\<open>framed_info\<close>,
  \<open>finalize_hash\<close> and its two halves), and the pre-hashed input table. The lemmas give the
  codecs, the transcripts the hashes absorb, and that the final transcript determines what
  went into it.
\<close>

section \<open>Wire types\<close>

definition HASH_LEN :: nat where
  "HASH_LEN = 64"

datatype 'p BlindedElement = BlindedElement (blinded_point: 'p)

datatype 'p EvaluatedElement = EvaluatedElement (evaluated_point: 'p)

definition BlindedElement_LEN :: nat where
  "BlindedElement_LEN = ELEMENT_LEN"

definition EvaluatedElement_LEN :: nat where
  "EvaluatedElement_LEN = ELEMENT_LEN"

definition debug_hex :: "string \<Rightarrow> bytes \<Rightarrow> string" where
  "debug_hex name bs = name @ ''('' @ fmt_hex bs @ '')''"

definition BlindedElement_to_bytes :: "('s, 'p, 't, 'h, 'r) env \<Rightarrow> 'p BlindedElement \<Rightarrow> bytes" where
  "BlindedElement_to_bytes E b = serialize_element_array E (blinded_point b)"

definition BlindedElement_from_bytes :: "('s, 'p, 't, 'h, 'r) env \<Rightarrow> bytes \<Rightarrow> 'p BlindedElement res" where
  "BlindedElement_from_bytes E buf = rbind (deserialize_element E buf) (\<lambda>P. Inr (BlindedElement P))"

definition EvaluatedElement_to_bytes :: "('s, 'p, 't, 'h, 'r) env \<Rightarrow> 'p EvaluatedElement \<Rightarrow> bytes" where
  "EvaluatedElement_to_bytes E e = serialize_element_array E (evaluated_point e)"

definition EvaluatedElement_from_bytes ::
  "('s, 'p, 't, 'h, 'r) env \<Rightarrow> bytes \<Rightarrow> 'p EvaluatedElement res" where
  "EvaluatedElement_from_bytes E buf = rbind (deserialize_element E buf) (\<lambda>P. Inr (EvaluatedElement P))"

definition BlindedElement_fmt :: "('s, 'p, 't, 'h, 'r) env \<Rightarrow> 'p BlindedElement \<Rightarrow> string" where
  "BlindedElement_fmt E b = debug_hex ''BlindedElement'' (BlindedElement_to_bytes E b)"

definition EvaluatedElement_fmt :: "('s, 'p, 't, 'h, 'r) env \<Rightarrow> 'p EvaluatedElement \<Rightarrow> string" where
  "EvaluatedElement_fmt E e = debug_hex ''EvaluatedElement'' (EvaluatedElement_to_bytes E e)"

section \<open>The output\<close>

datatype PoprfOutput = PoprfOutput (output_bytes: bytes)

definition PoprfOutput_LEN :: nat where
  "PoprfOutput_LEN = HASH_LEN"

definition PoprfOutput_as_bytes :: "PoprfOutput \<Rightarrow> bytes" where
  "PoprfOutput_as_bytes out = output_bytes out"

definition PoprfOutput_from_bytes :: "bytes \<Rightarrow> PoprfOutput res" where
  "PoprfOutput_from_bytes buf =
     (if length buf \<noteq> PoprfOutput_LEN then Fail Deserialize
      else Inr (PoprfOutput (write_slice (replicate PoprfOutput_LEN 0) 0 buf)))"

definition PoprfOutput_as_ref :: "PoprfOutput \<Rightarrow> bytes" where
  "PoprfOutput_as_ref out = output_bytes out"

definition PoprfOutput_eq :: "('s, 'p, 't, 'h, 'r) env \<Rightarrow> PoprfOutput \<Rightarrow> PoprfOutput \<Rightarrow> bool" where
  "PoprfOutput_eq E a b = slice_ct_eq E (output_bytes a) (output_bytes b)"

definition PoprfOutput_fmt :: "PoprfOutput \<Rightarrow> string" where
  "PoprfOutput_fmt out = ''PoprfOutput(<redacted>)''"

section \<open>The client's state between its two calls\<close>

record ('s, 'p) PoprfBlindState =
  bs_blind :: 's
  bs_tweaked_key :: 'p

definition PoprfBlindState_LEN :: nat where
  "PoprfBlindState_LEN = SCALAR_LEN + ELEMENT_LEN"

definition PoprfBlindState_to_bytes ::
  "('s, 'p, 't, 'h, 'r) env \<Rightarrow> ('s, 'p) PoprfBlindState \<Rightarrow> bytes" where
  "PoprfBlindState_to_bytes E st =
     (let out = replicate PoprfBlindState_LEN 0;
          out = write_slice out 0 (serialize_scalar_array E (bs_blind st));
          out = write_slice out SCALAR_LEN (serialize_element_array E (bs_tweaked_key st))
      in out)"

definition PoprfBlindState_from_bytes ::
  "('s, 'p, 't, 'h, 'r) env \<Rightarrow> bytes \<Rightarrow> ('s, 'p) PoprfBlindState res" where
  "PoprfBlindState_from_bytes E buf =
     (if length buf \<noteq> PoprfBlindState_LEN then Fail Deserialize
      else
        rbind (slice_to Panic buf SCALAR_LEN) (\<lambda>b1.
        rbind (deserialize_scalar E b1) (\<lambda>blind.
        rbind (slice_from Panic buf SCALAR_LEN) (\<lambda>b2.
        rbind (deserialize_element E b2) (\<lambda>tweaked_key.
        Inr \<lparr>bs_blind = blind, bs_tweaked_key = tweaked_key\<rparr>)))))"

definition PoprfBlindState_fmt ::
  "('s, 'p, 't, 'h, 'r) env \<Rightarrow> ('s, 'p) PoprfBlindState \<Rightarrow> string" where
  "PoprfBlindState_fmt E st =
     (let tk = serialize_element_array E (bs_tweaked_key st) in
      ''PoprfBlindState { blind: <redacted>, tweaked_key: '' @ fmt_hex tk @ '' }'')"

section \<open>Hash inputs\<close>

definition framed_info :: "('s, 'p, 't, 'h, 'r) env \<Rightarrow> bytes \<Rightarrow> bytes res" where
  "framed_info E info =
     (let buf = ascii ''Info'' in
      rbind (i2osp_2 E (length info)) (\<lambda>l.
      Inr ((buf @ l) @ info)))"

definition lp_hasher :: "('s, 'p, 't, 'h, 'r) env \<Rightarrow> bytes \<Rightarrow> 'h res" where
  "lp_hasher E input =
     rbind (i2osp_2 E (length input)) (\<lambda>l.
     Inr (Sha512_update E (Sha512_update E (Sha512_default E) l) input))"

definition finalize_from ::
  "('s, 'p, 't, 'h, 'r) env \<Rightarrow> 'h \<Rightarrow> bytes \<Rightarrow> bytes \<Rightarrow> PoprfOutput res" where
  "finalize_from E prefix info unblinded =
     rbind (i2osp_2 E (length info)) (\<lambda>li.
     let h = Sha512_update E (Sha512_update E prefix li) info in
     rbind (i2osp_2 E (length unblinded)) (\<lambda>lu.
     let h = Sha512_update E (Sha512_update E (Sha512_update E h lu) unblinded) (ascii ''Finalize'') in
     Inr (PoprfOutput (Sha512_finalize E h))))"

definition finalize_hash ::
  "('s, 'p, 't, 'h, 'r) env \<Rightarrow> bytes \<Rightarrow> bytes \<Rightarrow> bytes \<Rightarrow> PoprfOutput res" where
  "finalize_hash E input info unblinded =
     rbind (lp_hasher E input) (\<lambda>prefix. finalize_from E prefix info unblinded)"

section \<open>Pre-hashed inputs\<close>

record ('p, 't, 'h) PoprfInputTable =
  it_prefix :: 'h
  it_input_len :: nat
  it_base :: "('p, 't) FixedBase"

definition PoprfInputTable_new ::
  "('s, 'p, 't, 'h, 'r) env \<Rightarrow> bytes \<Rightarrow> ('p, 't, 'h) PoprfInputTable res" where
  "PoprfInputTable_new E input =
     rbind (check_lp_len input) (\<lambda>_.
     rbind (hash_to_group E [input] HASH_TO_GROUP_DST) (\<lambda>p.
     if is_identity E p then Fail InvalidInput
     else
       rbind (lp_hasher E input) (\<lambda>prefix.
       Inr \<lparr>it_prefix = prefix, it_input_len = length input, it_base = fixed_base E p\<rparr>)))"

definition PoprfInputTable_fmt :: "('p, 't, 'h) PoprfInputTable \<Rightarrow> string" where
  "PoprfInputTable_fmt tb = ''PoprfInputTable('' @ fmt_dec (it_input_len tb) @ '' bytes)''"

section \<open>Codecs\<close>

definition valid_blinded :: "('s, 'p, 't, 'h, 'r) env \<Rightarrow> 'p BlindedElement \<Rightarrow> bool" where
  "valid_blinded E b \<longleftrightarrow> \<not> is_identity E (blinded_point b)"

definition valid_evaluated :: "('s, 'p, 't, 'h, 'r) env \<Rightarrow> 'p EvaluatedElement \<Rightarrow> bool" where
  "valid_evaluated E e \<longleftrightarrow> \<not> is_identity E (evaluated_point e)"

interpretation be_codec: wire_codec encoding_laws ELEMENT_LEN valid_blinded BlindedElement_to_bytes
  BlindedElement_from_bytes
proof (unfold_locales, goal_cases)
  case (3 e bs x)
  then show ?case
    by (auto simp: BlindedElement_to_bytes_def BlindedElement_from_bytes_def valid_blinded_def
        rbind_eq_Inr_iff el.dec_iff)
next
  case (5 e bs f)
  then show ?case using el.dec_fault by (auto simp: BlindedElement_from_bytes_def rbind_eq_Inl_iff)
qed (simp_all add: BlindedElement_to_bytes_def BlindedElement_from_bytes_def valid_blinded_def
    el.enc_length el.dec_enc el.dec_length)

interpretation ee_codec: wire_codec encoding_laws ELEMENT_LEN valid_evaluated
  EvaluatedElement_to_bytes EvaluatedElement_from_bytes
proof (unfold_locales, goal_cases)
  case (3 e bs x)
  then show ?case
    by (auto simp: EvaluatedElement_to_bytes_def EvaluatedElement_from_bytes_def valid_evaluated_def
        rbind_eq_Inr_iff el.dec_iff)
next
  case (5 e bs f)
  then show ?case using el.dec_fault by (auto simp: EvaluatedElement_from_bytes_def rbind_eq_Inl_iff)
qed (simp_all add: EvaluatedElement_to_bytes_def EvaluatedElement_from_bytes_def valid_evaluated_def
    el.enc_length el.dec_enc el.dec_length)

interpretation out_codec: wire_codec "\<lambda>_. True" HASH_LEN "\<lambda>_ out. length (output_bytes out) = 64"
  "\<lambda>_. PoprfOutput_as_bytes" "\<lambda>_. PoprfOutput_from_bytes"
  by unfold_locales
    (auto simp: HASH_LEN_def PoprfOutput_LEN_def PoprfOutput_as_bytes_def PoprfOutput_from_bytes_def write_whole
      split: if_splits)

interpretation bs_codec: codec_pair encoding_laws
  SCALAR_LEN "\<lambda>_ _. True" serialize_scalar_array deserialize_scalar
  ELEMENT_LEN "\<lambda>E P. \<not> is_identity E P" serialize_element_array deserialize_element
  "\<lambda>b k. \<lparr>bs_blind = b, bs_tweaked_key = k\<rparr>" bs_blind bs_tweaked_key
  PoprfBlindState_to_bytes PoprfBlindState_from_bytes
  by unfold_locales
    (auto simp: PoprfBlindState_to_bytes_def PoprfBlindState_from_bytes_def PoprfBlindState_LEN_def
      SCALAR_LEN_def ELEMENT_LEN_def Let_def slice_to_def slice_from_def serialize_scalar_array_def
      serialize_element_array_def intro!: write_slice_halves)

section \<open>Specification of the hash inputs\<close>

definition tweak :: "('s, 'p, 't, 'h, 'r) env \<Rightarrow> bytes \<Rightarrow> 's" where
  "tweak E info = hash_scalar E (ascii ''Info'' @ lp info) HASH_TO_SCALAR_DST"

definition input_element :: "('s, 'p, 't, 'h, 'r) env \<Rightarrow> bytes \<Rightarrow> 'p" where
  "input_element E input = hash_group E input HASH_TO_GROUP_DST"

definition finalize_transcript :: "bytes \<Rightarrow> bytes \<Rightarrow> bytes \<Rightarrow> bytes" where
  "finalize_transcript input info unblinded =
     lp input @ lp info @ lp unblinded @ ascii ''Finalize''"

definition sha512 :: "('s, 'p, 't, 'h, 'r) env \<Rightarrow> bytes \<Rightarrow> bytes" where
  "sha512 E x = Sha512_finalize E (Sha512_update E (Sha512_default E) x)"

lemma length_sha512 [simp]: "env_laws E \<Longrightarrow> length (sha512 E x) = 64"
  by (simp add: sha512_def env_lawsD)

lemma framed_info_spec [spec_simps]:
  "length info \<le> 65535 \<Longrightarrow> framed_info E info = Inr (ascii ''Info'' @ lp info)"
  by (simp add: framed_info_def spec_simps lp_def Let_def)

lemma hash_framed_info [spec_simps]:
  "env_laws E \<Longrightarrow> hash_to_scalar E [ascii ''Info'' @ lp info] HASH_TO_SCALAR_DST = Inr (tweak E info)"
  by (simp add: spec_simps env_lawsD tweak_def)

lemma hash_input [spec_simps]:
  "env_laws E \<Longrightarrow> hash_to_group E [input] HASH_TO_GROUP_DST = Inr (input_element E input)"
  by (simp add: spec_simps env_lawsD input_element_def)

lemma lp_hasher_spec [spec_simps]:
  "env_laws E \<Longrightarrow> length input \<le> 65535 \<Longrightarrow>
     lp_hasher E input = Inr (Sha512_update E (Sha512_default E) (lp input))"
  by (simp add: lp_hasher_def spec_simps lp_def sha_update_update env_lawsD)

lemma finalize_from_spec [spec_simps]:
  assumes "env_laws E" and "length info \<le> 65535" and "length unblinded \<le> 65535"
  shows "finalize_from E (Sha512_update E (Sha512_default E) (lp input)) info unblinded =
     Inr (PoprfOutput (sha512 E (finalize_transcript input info unblinded)))"
  using assms
  by (simp add: finalize_from_def spec_simps sha_update_update env_lawsD sha512_def
      finalize_transcript_def lp_def Let_def)

lemma finalize_hash_spec [spec_simps]:
  assumes "env_laws E" and "length input \<le> 65535" and "length info \<le> 65535"
    and "length unblinded \<le> 65535"
  shows "finalize_hash E input info unblinded =
     Inr (PoprfOutput (sha512 E (finalize_transcript input info unblinded)))"
  using assms by (simp add: finalize_hash_def spec_simps)

lemma finalize_transcript_inj:
  assumes "length input \<le> 65535" "length info \<le> 65535" "length unblinded \<le> 65535"
    and "length input' \<le> 65535" "length info' \<le> 65535" "length unblinded' \<le> 65535"
  shows "finalize_transcript input info unblinded = finalize_transcript input' info' unblinded' \<longleftrightarrow>
     input = input' \<and> info = info' \<and> unblinded = unblinded'"
  using assms by (simp add: finalize_transcript_def lp_split lp_inj)

lemma serialize_array_eq: "serialize_element_array E P = serialize_element E P"
  by (simp add: serialize_element_array_def serialize_element_def)

lemma input_table_spec [spec_simps]:
  assumes "env_laws E"
  shows "PoprfInputTable_new E input =
     (if 65534 < length input then Fail InputTooLong
      else if is_identity E (input_element E input) then Fail InvalidInput
      else Inr \<lparr>it_prefix = Sha512_update E (Sha512_default E) (lp input),
                it_input_len = length input, it_base = fixed_base E (input_element E input)\<rparr>)"
  using assms by (simp add: PoprfInputTable_new_def check_lp_len_eq spec_simps)

lemma scalar_mul_fixed_base [spec_simps]:
  "accel_laws E \<Longrightarrow> scalar_mul_fixed E a (fixed_base E P) = scalar_mul E a P"
  by (simp add: fixed_base_def scalar_mul_def)

end
