(* ===== verification/Poprf_Client.thy ===== *)
theory Poprf_Client
  imports Poprf_Types
begin

text \<open>
  \<open>PoprfClient\<close> of \<open>poprf-ristretto/src/poprf.rs\<close>: blinding, with a random or a given
  scalar, and finalisation of one evaluation or of a batch under one proof. Each operation
  is followed by its specification on every branch, in the order the code checks.
\<close>

section \<open>Operations\<close>

record 'p PoprfClient =
  client_pk :: 'p

definition PoprfClient_new :: "'p PublicKey \<Rightarrow> 'p PoprfClient" where
  "PoprfClient_new pk = \<lparr>client_pk = public_point pk\<rparr>"

definition PoprfClient_public_key :: "'p PoprfClient \<Rightarrow> 'p PublicKey" where
  "PoprfClient_public_key cl = PublicKey (client_pk cl)"

definition blind_with_inner ::
  "('s, 'p, 't, 'h, 'r) env \<Rightarrow> 'p PoprfClient \<Rightarrow> bytes \<Rightarrow> bytes \<Rightarrow> 's \<Rightarrow>
    (('s, 'p) PoprfBlindState \<times> 'p BlindedElement) res" where
  "blind_with_inner E cl input info blind =
     rbind (check_lp_len input) (\<lambda>_.
     rbind (check_lp_len info) (\<lambda>_.
     rbind (framed_info E info) (\<lambda>framed.
     rbind (hash_to_scalar E [framed] HASH_TO_SCALAR_DST) (\<lambda>m.
     let t = scalar_mul_gen E m;
         tweaked_key = element_add E t (client_pk cl) in
     if is_identity E tweaked_key then Fail InvalidInput
     else
       rbind (hash_to_group E [input] HASH_TO_GROUP_DST) (\<lambda>input_elt.
       if is_identity E input_elt then Fail InvalidInput
       else
         let blinded = scalar_mul E blind input_elt in
         Inr (\<lparr>bs_blind = blind, bs_tweaked_key = tweaked_key\<rparr>, BlindedElement blinded))))))"

definition blind_with_scalar ::
  "('s, 'p, 't, 'h, 'r) env \<Rightarrow> 'p PoprfClient \<Rightarrow> bytes \<Rightarrow> bytes \<Rightarrow> bytes \<Rightarrow>
    (('s, 'p) PoprfBlindState \<times> 'p BlindedElement) res" where
  "blind_with_scalar E cl input info blind_bytes =
     rbind (deserialize_scalar E blind_bytes) (\<lambda>blind.
     blind_with_inner E cl input info blind)"

definition PoprfClient_blind ::
  "('s, 'p, 't, 'h, 'r) env \<Rightarrow> 'p PoprfClient \<Rightarrow> bytes \<Rightarrow> bytes \<Rightarrow> 'r \<Rightarrow>
    (('s, 'p) PoprfBlindState \<times> 'p BlindedElement) res \<times> 'r" where
  "PoprfClient_blind E cl input info rng =
     (case random_scalar E rng of
        None \<Rightarrow> (Inl Diverge, rng)
      | Some (blind, rng') \<Rightarrow> (blind_with_inner E cl input info blind, rng'))"

definition unblind_and_hash ::
  "('s, 'p, 't, 'h, 'r) env \<Rightarrow> bytes \<Rightarrow> bytes \<Rightarrow> ('s, 'p) PoprfBlindState \<Rightarrow> 'p EvaluatedElement \<Rightarrow>
    PoprfOutput res" where
  "unblind_and_hash E input info state evaluated =
     (let blind_inv = scalar_invert E (bs_blind state);
          n = scalar_mul E blind_inv (evaluated_point evaluated);
          n_bytes = serialize_element_array E n in
      finalize_hash E input info n_bytes)"

definition PoprfClient_finalize ::
  "('s, 'p, 't, 'h, 'r) env \<Rightarrow> 'p PoprfClient \<Rightarrow> bytes \<Rightarrow> ('s, 'p) PoprfBlindState \<Rightarrow>
    'p EvaluatedElement \<Rightarrow> 'p BlindedElement \<Rightarrow> 's Proof \<Rightarrow> bytes \<Rightarrow> PoprfOutput res" where
  "PoprfClient_finalize E cl input state evaluated blinded pf info =
     rbind (check_lp_len input) (\<lambda>_.
     rbind (check_lp_len info) (\<lambda>_.
     let g = generator E in
     rbind (verify_proof E g (bs_tweaked_key state) [evaluated_point evaluated]
              [blinded_point blinded] pf) (\<lambda>_.
     unblind_and_hash E input info state evaluated)))"

text \<open>The loop over \<open>&states[1..]\<close> that compares every tweaked key with the first.\<close>

fun check_tweaked_keys :: "('s, 'p, 't, 'h, 'r) env \<Rightarrow> 'p \<Rightarrow> ('s, 'p) PoprfBlindState list \<Rightarrow> unit res" where
  "check_tweaked_keys E tweaked_key [] = Inr ()"
| "check_tweaked_keys E tweaked_key (s # ss) =
     (if \<not> Point_ct_eq E (bs_tweaked_key s) tweaked_key then Fail InconsistentState
      else check_tweaked_keys E tweaked_key ss)"

definition PoprfClient_finalize_batch ::
  "('s, 'p, 't, 'h, 'r) env \<Rightarrow> 'p PoprfClient \<Rightarrow> bytes list \<Rightarrow> ('s, 'p) PoprfBlindState list \<Rightarrow>
    'p EvaluatedElement list \<Rightarrow> 'p BlindedElement list \<Rightarrow> 's Proof \<Rightarrow> bytes \<Rightarrow>
    PoprfOutput list res" where
  "PoprfClient_finalize_batch E cl inputs states evaluated blinded pf info =
     (if inputs = [] \<or> length inputs \<noteq> length states \<or> length inputs \<noteq> length evaluated
         \<or> length inputs \<noteq> length blinded
      then Fail LengthMismatch
      else
        rbind (check_lp_len info) (\<lambda>_.
        rbind (check_all_lp inputs) (\<lambda>_.
        case states of
          [] \<Rightarrow> panic
        | s0 # rest \<Rightarrow>
            let tweaked_key = bs_tweaked_key s0 in
            rbind (check_tweaked_keys E tweaked_key rest) (\<lambda>_.
            let g = generator E;
                bs = map blinded_point blinded;
                es = map evaluated_point evaluated in
            rbind (verify_proof E g tweaked_key es bs pf) (\<lambda>_.
            rmap (\<lambda>((input, state), e). unblind_and_hash E input info state e)
              (zip (zip inputs states) evaluated))))))"

section \<open>Specifications\<close>

text \<open>The key the client derives for an \<open>info\<close> value, and the output for an unblinded element.\<close>

definition client_key :: "('s, 'p, 't, 'h, 'r) env \<Rightarrow> 'p PoprfClient \<Rightarrow> bytes \<Rightarrow> 'p" where
  "client_key E cl info = element_add E (scalar_mul E (tweak E info) (generator E)) (client_pk cl)"

definition prf_output :: "('s, 'p, 't, 'h, 'r) env \<Rightarrow> bytes \<Rightarrow> bytes \<Rightarrow> 'p \<Rightarrow> PoprfOutput" where
  "prf_output E input info P =
     PoprfOutput (sha512 E (finalize_transcript input info (serialize_element E P)))"

lemma blind_inner_spec [spec_simps]:
  assumes "env_laws E"
  shows "blind_with_inner E cl input info blind =
     (if 65534 < length input \<or> 65534 < length info then Fail InputTooLong
      else if is_identity E (client_key E cl info) \<or> is_identity E (input_element E input)
      then Fail InvalidInput
      else Inr (\<lparr>bs_blind = blind, bs_tweaked_key = client_key E cl info\<rparr>,
                BlindedElement (scalar_mul E blind (input_element E input))))"
  using assms
  by (simp add: blind_with_inner_def check_lp_len_eq spec_simps scalar_mul_gen_eq client_key_def
      Let_def)

lemma unblind_spec [spec_simps]:
  assumes "env_laws E" and "length input \<le> 65534" and "length info \<le> 65534"
  shows "unblind_and_hash E input info st ev =
     Inr (prf_output E input info
       (scalar_mul E (scalar_invert E (bs_blind st)) (evaluated_point ev)))"
  using assms
  by (simp add: unblind_and_hash_def serialize_array_eq spec_simps prf_output_def)

lemma finalize_spec:
  assumes "env_laws E"
  shows "PoprfClient_finalize E cl input st ev bl pf info =
     (if 65534 < length input \<or> 65534 < length info then Fail InputTooLong
      else rbind (verify_proof E (generator E) (bs_tweaked_key st) [evaluated_point ev]
                    [blinded_point bl] pf) (\<lambda>_.
        Inr (prf_output E input info
          (scalar_mul E (scalar_invert E (bs_blind st)) (evaluated_point ev)))))"
  using assms by (simp add: PoprfClient_finalize_def check_lp_len_eq spec_simps Let_def)

lemma check_tweaked_keys_eq:
  "point_laws E \<Longrightarrow> check_tweaked_keys E k ss =
     (if \<forall>s \<in> set ss. bs_tweaked_key s = k then Inr () else Fail InconsistentState)"
  by (induction ss) auto

lemma unblind_batch_spec:
  assumes "env_laws E" and "\<forall>x \<in> set inputs. length x \<le> 65534" and "length info \<le> 65534"
    and "length inputs = length states" and "length inputs = length evaluated"
  shows "rmap (\<lambda>((input, state), e). unblind_and_hash E input info state e)
       (zip (zip inputs states) evaluated) =
     Inr (map (\<lambda>((input, st), ev). prf_output E input info
       (scalar_mul E (scalar_invert E (bs_blind st)) (evaluated_point ev)))
       (zip (zip inputs states) evaluated))"
  using assms by (intro rmap_Inr) (auto simp: spec_simps dest!: set_zip_leftD)

lemma finalize_batch_spec:
  assumes "env_laws E"
  shows "PoprfClient_finalize_batch E cl inputs states evaluated blinded pf info =
     (if inputs = [] \<or> length inputs \<noteq> length states \<or> length inputs \<noteq> length evaluated
         \<or> length inputs \<noteq> length blinded
      then Fail LengthMismatch
      else if 65534 < length info \<or> (\<exists>x \<in> set inputs. 65534 < length x) then Fail InputTooLong
      else if \<exists>s \<in> set (tl states). bs_tweaked_key s \<noteq> bs_tweaked_key (hd states)
      then Fail InconsistentState
      else rbind (verify_proof E (generator E) (bs_tweaked_key (hd states))
                    (map evaluated_point evaluated) (map blinded_point blinded) pf) (\<lambda>_.
        Inr (map (\<lambda>((input, st), ev). prf_output E input info
          (scalar_mul E (scalar_invert E (bs_blind st)) (evaluated_point ev)))
          (zip (zip inputs states) evaluated))))"
proof (cases "inputs = [] \<or> length inputs \<noteq> length states \<or> length inputs \<noteq> length evaluated
    \<or> length inputs \<noteq> length blinded")
  case True
  then show ?thesis by (simp add: PoprfClient_finalize_batch_def)
next
  case False
  then obtain s0 rest where states: "states = s0 # rest" by (cases states) auto
  show ?thesis
  proof (cases "65534 < length info \<or> (\<exists>x \<in> set inputs. 65534 < length x)")
    case True
    with False show ?thesis
      by (auto simp: PoprfClient_finalize_batch_def check_lp_len_eq check_all_lp_eq)
  next
    case fits: False
    then have "\<forall>x \<in> set inputs. length x \<le> 65534" and "length info \<le> 65534" by auto
    with False fits show ?thesis
      unfolding PoprfClient_finalize_batch_def
      by (simp add: check_lp_len_eq check_all_lp_eq states check_tweaked_keys_eq
          env_lawsD [OF assms] unblind_batch_spec [OF assms] Let_def)
  qed
qed

end
