(* ===== verification/Poprf_Server.thy ===== *)
theory Poprf_Server
  imports Poprf_Types
begin

text \<open>
  \<open>PoprfServer\<close> of \<open>poprf-ristretto/src/poprf.rs\<close>: construction, blind evaluation with its
  proof (single and batched, with random and with given proof randomness), and offline
  evaluation (direct and over pre-hashed tables). Each operation is followed by its
  specification on every branch.
\<close>

section \<open>Operations\<close>

record 's PoprfServer =
  server_sk :: "'s SecretKey"

definition PoprfServer_new :: "'s SecretKey \<Rightarrow> 's PoprfServer" where
  "PoprfServer_new sk = \<lparr>server_sk = sk\<rparr>"

definition PoprfServer_generate :: "('s, 'p, 't, 'h, 'r) env \<Rightarrow> 'r \<Rightarrow> 's PoprfServer res \<times> 'r" where
  "PoprfServer_generate E rng =
     (case generate_key_pair E rng of (r, rng') \<Rightarrow>
        (rbind r (\<lambda>(sk, pk). Inr (PoprfServer_new sk)), rng'))"

definition PoprfServer_from_seed ::
  "('s, 'p, 't, 'h, 'r) env \<Rightarrow> bytes \<Rightarrow> bytes \<Rightarrow> 's PoprfServer res" where
  "PoprfServer_from_seed E seed info =
     rbind (derive_key_pair E seed info) (\<lambda>(sk, pk). Inr (PoprfServer_new sk))"

definition PoprfServer_public_key :: "('s, 'p, 't, 'h, 'r) env \<Rightarrow> 's PoprfServer \<Rightarrow> 'p PublicKey" where
  "PoprfServer_public_key E srv = SecretKey_public_key E (server_sk srv)"

definition PoprfServer_secret_key :: "'s PoprfServer \<Rightarrow> 's SecretKey" where
  "PoprfServer_secret_key srv = server_sk srv"

definition compute_t :: "('s, 'p, 't, 'h, 'r) env \<Rightarrow> 's PoprfServer \<Rightarrow> bytes \<Rightarrow> 's res" where
  "compute_t E srv info =
     rbind (check_lp_len info) (\<lambda>_.
     rbind (framed_info E info) (\<lambda>framed.
     rbind (hash_to_scalar E [framed] HASH_TO_SCALAR_DST) (\<lambda>m.
     let t = scalar_add E (secret_scalar (server_sk srv)) m in
     if scalar_is_zero E t then Fail Inverse
     else Inr t)))"

definition PoprfServer_blind_evaluate ::
  "('s, 'p, 't, 'h, 'r) env \<Rightarrow> 's PoprfServer \<Rightarrow> 'r \<Rightarrow> 'p BlindedElement \<Rightarrow> bytes \<Rightarrow>
    ('p EvaluatedElement \<times> 's Proof) res \<times> 'r" where
  "PoprfServer_blind_evaluate E srv rng blinded info =
     (if is_identity E (blinded_point blinded) then (Fail InputValidation, rng)
      else case compute_t E srv info of
        Inl f \<Rightarrow> (Inl f, rng)
      | Inr t \<Rightarrow>
          let t_inv = scalar_invert E t;
              t_pub = scalar_mul_gen E t;
              evaluated = scalar_mul E t_inv (blinded_point blinded);
              g = generator E in
          case generate_proof E rng t g t_pub [evaluated] [blinded_point blinded] of (r, rng') \<Rightarrow>
            (rbind r (\<lambda>pf. Inr (EvaluatedElement evaluated, pf)), rng'))"

definition blind_evaluate_with_r_inner ::
  "('s, 'p, 't, 'h, 'r) env \<Rightarrow> 's PoprfServer \<Rightarrow> 'p BlindedElement \<Rightarrow> bytes \<Rightarrow> 's \<Rightarrow>
    ('p EvaluatedElement \<times> 's Proof) res" where
  "blind_evaluate_with_r_inner E srv blinded info proof_r =
     (if is_identity E (blinded_point blinded) then Fail InputValidation
      else
        rbind (compute_t E srv info) (\<lambda>t.
        let t_inv = scalar_invert E t;
            t_pub = scalar_mul_gen E t;
            evaluated = scalar_mul E t_inv (blinded_point blinded);
            g = generator E in
        rbind (generate_proof_with_r E t g t_pub [evaluated] [blinded_point blinded] proof_r) (\<lambda>pf.
        Inr (EvaluatedElement evaluated, pf))))"

definition blind_evaluate_with_proof_scalar ::
  "('s, 'p, 't, 'h, 'r) env \<Rightarrow> 's PoprfServer \<Rightarrow> 'p BlindedElement \<Rightarrow> bytes \<Rightarrow> bytes \<Rightarrow>
    ('p EvaluatedElement \<times> 's Proof) res" where
  "blind_evaluate_with_proof_scalar E srv blinded info proof_r_bytes =
     rbind (deserialize_scalar E proof_r_bytes) (\<lambda>proof_r.
     blind_evaluate_with_r_inner E srv blinded info proof_r)"

text \<open>The loop that rejects identity elements of a batch.\<close>

fun check_no_identity :: "('s, 'p, 't, 'h, 'r) env \<Rightarrow> 'p BlindedElement list \<Rightarrow> unit res" where
  "check_no_identity E [] = Inr ()"
| "check_no_identity E (b # bs) =
     (if is_identity E (blinded_point b) then Fail InputValidation else check_no_identity E bs)"

definition PoprfServer_blind_evaluate_batch ::
  "('s, 'p, 't, 'h, 'r) env \<Rightarrow> 's PoprfServer \<Rightarrow> 'r \<Rightarrow> 'p BlindedElement list \<Rightarrow> bytes \<Rightarrow>
    ('p EvaluatedElement list \<times> 's Proof) res \<times> 'r" where
  "PoprfServer_blind_evaluate_batch E srv rng blinded info =
     (if blinded = [] then (Fail LengthMismatch, rng)
      else case rbind (check_no_identity E blinded) (\<lambda>_. compute_t E srv info) of
        Inl f \<Rightarrow> (Inl f, rng)
      | Inr t \<Rightarrow>
          let t_inv = scalar_invert E t;
              t_pub = scalar_mul_gen E t;
              evals = map (\<lambda>b. scalar_mul E t_inv (blinded_point b)) blinded;
              g = generator E;
              blinded_pts = map blinded_point blinded in
          case generate_proof E rng t g t_pub evals blinded_pts of (r, rng') \<Rightarrow>
            (rbind r (\<lambda>pf. Inr (map EvaluatedElement evals, pf)), rng'))"

definition blind_evaluate_batch_with_r_inner ::
  "('s, 'p, 't, 'h, 'r) env \<Rightarrow> 's PoprfServer \<Rightarrow> 'p BlindedElement list \<Rightarrow> bytes \<Rightarrow> 's \<Rightarrow>
    ('p EvaluatedElement list \<times> 's Proof) res" where
  "blind_evaluate_batch_with_r_inner E srv blinded info proof_r =
     (if blinded = [] then Fail LengthMismatch
      else
        rbind (check_no_identity E blinded) (\<lambda>_.
        rbind (compute_t E srv info) (\<lambda>t.
        let t_inv = scalar_invert E t;
            t_pub = scalar_mul_gen E t;
            evals = map (\<lambda>b. scalar_mul E t_inv (blinded_point b)) blinded;
            g = generator E;
            blinded_pts = map blinded_point blinded in
        rbind (generate_proof_with_r E t g t_pub evals blinded_pts proof_r) (\<lambda>pf.
        Inr (map EvaluatedElement evals, pf)))))"

definition blind_evaluate_batch_with_proof_scalar ::
  "('s, 'p, 't, 'h, 'r) env \<Rightarrow> 's PoprfServer \<Rightarrow> 'p BlindedElement list \<Rightarrow> bytes \<Rightarrow> bytes \<Rightarrow>
    ('p EvaluatedElement list \<times> 's Proof) res" where
  "blind_evaluate_batch_with_proof_scalar E srv blinded info proof_r_bytes =
     rbind (deserialize_scalar E proof_r_bytes) (\<lambda>proof_r.
     blind_evaluate_batch_with_r_inner E srv blinded info proof_r)"

definition PoprfServer_evaluate ::
  "('s, 'p, 't, 'h, 'r) env \<Rightarrow> 's PoprfServer \<Rightarrow> bytes \<Rightarrow> bytes \<Rightarrow> PoprfOutput res" where
  "PoprfServer_evaluate E srv input info =
     rbind (check_lp_len input) (\<lambda>_.
     rbind (hash_to_group E [input] HASH_TO_GROUP_DST) (\<lambda>input_elt.
     if is_identity E input_elt then Fail InvalidInput
     else
       rbind (compute_t E srv info) (\<lambda>t.
       let t_inv = scalar_invert E t;
           evaluated = scalar_mul E t_inv input_elt;
           issued = serialize_element_array E evaluated in
       finalize_hash E input info issued)))"

definition PoprfServer_evaluate_tables ::
  "('s, 'p, 't, 'h, 'r) env \<Rightarrow> 's PoprfServer \<Rightarrow> ('p, 't, 'h) PoprfInputTable list \<Rightarrow> bytes \<Rightarrow>
    PoprfOutput list res" where
  "PoprfServer_evaluate_tables E srv tables info =
     (if tables = [] then Fail LengthMismatch
      else
        rbind (compute_t E srv info) (\<lambda>t.
        let t_inv = scalar_invert E t in
        rmap (\<lambda>tb.
          let e = scalar_mul_fixed E t_inv (it_base tb) in
          finalize_from E (it_prefix tb) info (serialize_element_array E e)) tables))"

definition PoprfServer_fmt :: "('s, 'p, 't, 'h, 'r) env \<Rightarrow> 's PoprfServer \<Rightarrow> string" where
  "PoprfServer_fmt E srv =
     ''PoprfServer { public_key: '' @ PublicKey_fmt E (PoprfServer_public_key E srv)
       @ '', secret_key: '' @ [CHR 0x22] @ ''<redacted>'' @ [CHR 0x22] @ '' }''"

section \<open>Specifications\<close>

definition server_t :: "('s, 'p, 't, 'h, 'r) env \<Rightarrow> 's PoprfServer \<Rightarrow> bytes \<Rightarrow> 's" where
  "server_t E srv info = scalar_add E (secret_scalar (server_sk srv)) (tweak E info)"

text \<open>The pseudorandom function of the RFC: divide the hashed input by \<open>t\<close>, hash the result.\<close>

definition poprf :: "('s, 'p, 't, 'h, 'r) env \<Rightarrow> 's PoprfServer \<Rightarrow> bytes \<Rightarrow> bytes \<Rightarrow> PoprfOutput" where
  "poprf E srv input info =
     PoprfOutput (sha512 E (finalize_transcript input info (serialize_element E
       (scalar_mul E (scalar_invert E (server_t E srv info)) (input_element E input)))))"

lemma compute_t_spec [spec_simps]:
  assumes "env_laws E"
  shows "compute_t E srv info =
     (if 65534 < length info then Fail InputTooLong
      else if scalar_is_zero E (server_t E srv info) then Fail Inverse
      else Inr (server_t E srv info))"
  using assms by (simp add: compute_t_def check_lp_len_eq spec_simps server_t_def Let_def)

lemma evaluate_spec:
  assumes "env_laws E"
  shows "PoprfServer_evaluate E srv input info =
     (if 65534 < length input then Fail InputTooLong
      else if is_identity E (input_element E input) then Fail InvalidInput
      else if 65534 < length info then Fail InputTooLong
      else if scalar_is_zero E (server_t E srv info) then Fail Inverse
      else Inr (poprf E srv input info))"
  using assms
  by (simp add: PoprfServer_evaluate_def check_lp_len_eq spec_simps serialize_array_eq poprf_def
      Let_def)

lemma check_no_identity_eq:
  "check_no_identity E bs =
     (if \<exists>b \<in> set bs. is_identity E (blinded_point b) then Fail InputValidation else Inr ())"
  by (induction bs) auto

text \<open>Evaluation of a batch is division by \<open>t\<close>; the single call is a batch of one.\<close>

lemma batch_r_spec:
  assumes "env_laws E"
  shows "blind_evaluate_batch_with_r_inner E srv blinded info r =
     (if blinded = [] then Fail LengthMismatch
      else if \<exists>b \<in> set blinded. is_identity E (blinded_point b) then Fail InputValidation
      else if 65534 < length info then Fail InputTooLong
      else if scalar_is_zero E (server_t E srv info) then Fail Inverse
      else
        let t = server_t E srv info;
            es = map (scalar_mul E (scalar_invert E t)) (map blinded_point blinded) in
        rbind (generate_proof_with_r E t (generator E) (scalar_mul E t (generator E)) es
                 (map blinded_point blinded) r) (\<lambda>pf.
        Inr (map EvaluatedElement es, pf)))"
  using assms
  by (simp add: blind_evaluate_batch_with_r_inner_def check_no_identity_eq spec_simps
      scalar_mul_gen_eq Let_def comp_def)

lemma single_is_batch_r:
  "blind_evaluate_with_r_inner E srv b info r =
     rbind (blind_evaluate_batch_with_r_inner E srv [b] info r) (\<lambda>(es, pf). Inr (hd es, pf))"
  by (simp add: blind_evaluate_with_r_inner_def blind_evaluate_batch_with_r_inner_def Let_def
      rbind_assoc)

text \<open>The randomised calls run the deterministic ones on a drawn non-zero scalar.\<close>

lemma batch_draws:
  "PoprfServer_blind_evaluate_batch E srv rng blinded info =
     (case random_scalar E rng of
        Some (r, rng') \<Rightarrow>
          (blind_evaluate_batch_with_r_inner E srv blinded info r,
           if blinded \<noteq> [] \<and> (\<exists>t. rbind (check_no_identity E blinded) (\<lambda>_. compute_t E srv info) = Inr t)
           then rng' else rng)
      | None \<Rightarrow>
          (if blinded = [] then Fail LengthMismatch
           else rbind (rbind (check_no_identity E blinded) (\<lambda>_. compute_t E srv info)) (\<lambda>_. Inl Diverge), rng))"
  by (cases "check_no_identity E blinded"; cases "compute_t E srv info")
    (auto simp: PoprfServer_blind_evaluate_batch_def blind_evaluate_batch_with_r_inner_def
      generate_proof_def Let_def split: option.splits)

lemma single_draws:
  "PoprfServer_blind_evaluate E srv rng b info =
     (case random_scalar E rng of
        Some (r, rng') \<Rightarrow>
          (blind_evaluate_with_r_inner E srv b info r,
           if \<not> is_identity E (blinded_point b) \<and> (\<exists>t. compute_t E srv info = Inr t)
           then rng' else rng)
      | None \<Rightarrow>
          (if is_identity E (blinded_point b) then Fail InputValidation
           else rbind (compute_t E srv info) (\<lambda>_. Inl Diverge), rng))"
  by (cases "compute_t E srv info")
    (auto simp: PoprfServer_blind_evaluate_def blind_evaluate_with_r_inner_def
      generate_proof_def Let_def split: option.splits)

lemma evaluate_tables_spec:
  assumes "env_laws E" and "list_all2 (\<lambda>input tb. PoprfInputTable_new E input = Inr tb) inputs tables"
  shows "PoprfServer_evaluate_tables E srv tables info =
     (if tables = [] then Fail LengthMismatch
      else if 65534 < length info then Fail InputTooLong
      else if scalar_is_zero E (server_t E srv info) then Fail Inverse
      else Inr (map (\<lambda>input. poprf E srv input info) inputs))"
proof -
  let ?t = "server_t E srv info"
  have "rmap (\<lambda>tb. finalize_from E (it_prefix tb) info
      (serialize_element_array E (scalar_mul_fixed E (scalar_invert E ?t) (it_base tb)))) tables =
     Inr (map (\<lambda>input. poprf E srv input info) inputs)" if "length info \<le> 65534"
  proof -
    have "length info \<le> 65535" using that by simp
    with assms(2) show ?thesis
      by (induction rule: list_all2_induct)
        (auto simp: spec_simps assms(1) env_lawsD [OF assms(1)] serialize_array_eq poprf_def
          split: if_splits)
  qed
  then show ?thesis
    using assms(1) by (simp add: PoprfServer_evaluate_tables_def spec_simps Let_def)
qed

section \<open>No panic\<close>

lemma no_abort_batch_r:
  assumes "env_laws E" and "batch_fits E (length bls)"
  shows "no_abort (blind_evaluate_batch_with_r_inner E srv bls info r)"
  using assms no_abort_generate [of E _ "map blinded_point bls"]
  by (auto simp: batch_r_spec Let_def intro!: no_abort_rbind no_abort_generate)

lemma no_abort_tables:
  assumes "env_laws E"
  shows "no_abort (PoprfServer_evaluate_tables E srv tables info)"
proof -
  have "no_abort (finalize_from E h info (serialize_element_array E P))" if "length info \<le> 65534" for h P
    using that assms by (simp add: finalize_from_def spec_simps serialize_array_eq Let_def)
  then show ?thesis
    by (auto simp: PoprfServer_evaluate_tables_def compute_t_spec [OF assms] Let_def
        intro!: no_abort_rmap)
qed

end
