(* ===== verification/Toy_Run.thy ===== *)
theory Toy_Run
  imports Poprf_Client Poprf_Server
begin

text \<open>
  Evaluation of the model on the concrete environment of \<open>Toy\<close>: what each operation and
  each specification function computes there, so that the witnesses run by rewriting.
\<close>

lemma toy_fields [simp]:
  "Scalar_ZERO (toy f t d) = T0" "Scalar_ct_eq (toy f t d) = (=)"
  "Point_identity (toy f t d) = T0" "Point_ct_eq (toy f t d) = (=)"
  "Scalar_to_bytes (toy f t d) = tri_encode" "Point_compress (toy f t d) = tri_encode"
  "Scalar_from_canonical_bytes (toy f t d) = tri_decode"
  "Point_decompress (toy f t d) = tri_decode"
  "Scalar_random (toy f t d) = toy_random"
  "Sha512_default (toy f t d) = []" "Sha512_update (toy f t d) = (@)"
  "Sha512_finalize (toy f t d) = pad64" "slice_ct_eq (toy f t d) = (=)"
  "fast_dleq (toy f t d) = f" "precomputed_tables (toy f t d) = t" "debug_assertions (toy f t d) = d"
  "Table_create (toy f t d) P = P" "Table_mul (toy f t d) = tri_mul" "Point_mul (toy f t d) = tri_mul"
  by (simp_all add: toy_def)

lemma toy_hash [simp]:
  "hash_scalar (toy f t d) msg dst = tri_of_byte (sum_list msg + of_nat (length dst))"
  "hash_group (toy f t d) msg dst = tri_of_byte (sum_list msg + of_nat (length dst))"
  by (simp_all add: hash_scalar_def hash_group_def toy_def toy_expand_def)

lemma toy_ops [simp]:
  "identity (toy f t d) = T0" "generator (toy f t d) = T1"
  "scalar_mul (toy f t d) = tri_mul" "scalar_mul_gen (toy f t d) a = tri_mul a T1"
  "element_add (toy f t d) = tri_add"
  "scalar_add (toy f t d) = tri_add" "scalar_sub (toy f t d) = (\<lambda>a b. tri_add a (tri_neg b))"
  "scalar_mul_scalar (toy f t d) = tri_mul" "scalar_invert (toy f t d) = (\<lambda>a. a)"
  "scalar_is_zero (toy f t d) a \<longleftrightarrow> a = T0" "is_identity (toy f t d) P \<longleftrightarrow> P = T0"
  "serialize_element (toy f t d) = tri_encode" "sha512 (toy f t d) = pad64"
  by (auto simp: group_defs toy_def fun_eq_iff serialize_element_def sha512_def scalar_mul_gen_def)

lemma toy_random_scalar [simp]:
  "random_scalar (toy f t d) n =
     (if n mod 3 = 0 then random_scalar (toy f t d) (Suc n)
      else Some (if n mod 3 = 1 then T1 else T2, Suc n))"
  by (subst random_scalar.simps) (simp add: toy_random_def)

lemma toy_input_element [simp]: "input_element (toy f t d) x = tri_of_byte (sum_list x + 40)"
  by (simp add: input_element_def)

lemma sum_list_zeros [simp]: "sum_list (replicate n 0) = (0 :: 'a::comm_monoid_add)"
  by (induction n) simp_all

lemma toy_code [simp]:
  "sum_list (tri_encode x) = tri_code x" "length (tri_encode x) = 32"
  "sum_list (lp (tri_encode x)) = 32 + tri_code x"
  by (simp_all add: tri_encode_def lp_def be16_def to_be_bytes_def)

text \<open>The tweak, the weights and the challenge as numbers, so that transcripts need not be written out.\<close>

lemma toy_tweak [simp]:
  "tweak (toy f t d) x = tri_of_byte (sum_list (ascii ''Info'') + sum_list (lp x) + 41)"
  by (simp add: tweak_def)

lemma toy_seed: "dleq_seed (toy f t d) b = lp (tri_encode b) @ take 30 (lp SEED_DST)"
  by (simp add: dleq_seed_def pad64_def)

lemma wrap: "(1100 :: byte) = 76" "(1137 :: byte) = 113"
  by simp_all

lemma toy_weight [simp]:
  "dleq_weight (toy f t d) b i x y =
     tri_of_byte (113 + tri_code b + sum_list (be16 i) + tri_code x + tri_code y)"
proof -
  have "sum_list (take 30 (lp SEED_DST)) = (245 :: byte)"
    by (simp add: lp_def be16_def to_be_bytes_def SEED_DST_def ascii_simps)
  then have "sum_list (lp (dleq_seed (toy f t d) b)) = (85 + tri_code b :: byte)"
    unfolding lp_def [of "dleq_seed _ _"] by (simp add: toy_seed be16_def to_be_bytes_def)
  then show ?thesis
    by (simp add: dleq_weight_def ascii_simps algebra_simps) (simp only: wrap)
qed

lemma toy_challenge [simp]:
  "dleq_challenge (toy f t d) b m z t2 t3 =
     tri_of_byte (76 + tri_code b + tri_code m + tri_code z + tri_code t2 + tri_code t3)"
  by (simp add: dleq_challenge_def dleq_transcript_def ascii_simps algebra_simps) (simp only: wrap)

lemmas toy_bytes = lp_def be16_def to_be_bytes_def ascii_simps tri_of_byte_def

lemmas toy_run = spec_simps batch_fits_def server_t_def client_key_def PoprfServer_new_def
  PoprfClient_new_def PoprfServer_public_key_def SecretKey_public_key_def dleq_weights_def
  zip_enumerate_def gp.wsum_def verify_commitments_def

text \<open>
  One run on the environment: the secret key \<open>T1\<close>, the input \<open>[0]\<close>, the \<open>info\<close> \<open>[1]\<close>.
  The first draw of the client's generator is zero, so it draws twice.
\<close>

abbreviation E3 :: "(tri, tri, tri, bytes, nat) env" where
  "E3 \<equiv> toy True True True"

abbreviation srv3 :: "tri PoprfServer" where
  "srv3 \<equiv> PoprfServer_new (SecretKey T1)"

abbreviation cl3 :: "tri PoprfClient" where
  "cl3 \<equiv> PoprfClient_new (PoprfServer_public_key E3 srv3)"

abbreviation st3 :: "(tri, tri) PoprfBlindState" where
  "st3 \<equiv> \<lparr>bs_blind = T1, bs_tweaked_key = T1\<rparr>"

abbreviation pf3 :: "tri Proof" where
  "pf3 \<equiv> \<lparr>proof_c = T0, proof_s = T1\<rparr>"

lemma toy_blind: "PoprfClient_blind E3 cl3 [0] [1] 0 = (Inr (st3, BlindedElement T1), 2)"
  by (simp add: PoprfClient_blind_def toy_run toy_bytes)

lemma toy_blind_evaluate:
  "PoprfServer_blind_evaluate E3 srv3 1 (BlindedElement T1) [1] = (Inr (EvaluatedElement T1, pf3), 2)"
  by (simp add: single_draws single_is_batch_r batch_r_spec toy_run toy_bytes)

lemma toy_blind_evaluate_batch:
  "PoprfServer_blind_evaluate_batch E3 srv3 1 [BlindedElement T1, BlindedElement T1] [1] =
     (Inr ([EvaluatedElement T1, EvaluatedElement T1], pf3), 2)"
  by (simp add: batch_draws batch_r_spec toy_run toy_bytes check_no_identity_eq)

end
