(* ===== verification/Dleq_Properties.thy ===== *)
theory Dleq_Properties
  imports Toy_Run
begin

text \<open>
  What the proofs of \<open>dleq.rs\<close> show: completeness, special soundness and its consequence
  for false statements, binding of the key and of the elements, the exact verdict of the
  verifier, and independence of the build.
\<close>

section \<open>Soundness\<close>

text \<open>C7: An honestly generated proof is accepted: for every key, base, list of elements, and proof
  randomness, the verifier accepts what the prover returns for the multiples of the list.\<close>

theorem dleq_completeness:
  assumes E: "env_laws E" and b: "b = scalar_mul E k a" and ds: "ds = map (scalar_mul E k) cs"
    and fits: "length cs \<le> 65536 \<or> \<not> debug_assertions E"
  shows "\<exists>pf. generate_proof_with_r E k a b cs ds r = Inr pf \<and> verify_proof E a b cs ds pf = Inr ()"
proof -
  have fit: "batch_fits E (length cs)" using fits by (simp add: batch_fits_def)
  obtain pf where "generate_proof_with_r E k a b cs ds r = Inr pf"
    using dl.prove_total [OF E fit, of ds k a b r] by (auto simp: ds)
  with dl.complete [OF E fit, of k a r] show ?thesis unfolding b ds by blast
qed

theorem dleq_completeness_witness:
  "\<exists>pf. generate_proof_with_r E3 T2 T1 T2 [T1, T0] [T2, T0] T1 = Inr pf \<and>
    verify_proof E3 T1 T2 [T1, T0] [T2, T0] pf = Inr ()"
  by (rule dleq_completeness) simp_all

lemma commitments_eq:
  "verify_commitments E a b m z pf =
     (element_add E (scalar_mul E (proof_s pf) a) (scalar_mul E (proof_c pf) b),
      element_add E (scalar_mul E (proof_s pf) m) (scalar_mul E (proof_c pf) z))"
  by (simp add: verify_commitments_def Let_def)

text \<open>C8: Special soundness. Two proofs whose recomputed commitments agree but whose challenges
  differ reveal one scalar that is the discrete logarithm of both the key and the composite.\<close>

theorem dleq_special_soundness:
  assumes E: "env_laws E"
    and same: "verify_commitments E a b m z pf = verify_commitments E a b m z pf'"
    and differ: "proof_c pf \<noteq> proof_c pf'"
  defines "k \<equiv> scalar_mul_scalar E (scalar_invert E (scalar_sub E (proof_c pf) (proof_c pf')))
    (scalar_sub E (proof_s pf') (proof_s pf))"
  shows "b = scalar_mul E k a \<and> z = scalar_mul E k m"
  unfolding k_def using same
  by (intro conjI gp.dleq_extract [OF group_okI [OF E] differ]) (simp_all add: commitments_eq)

theorem dleq_special_soundness_witness:
  "T2 = scalar_mul E3 (scalar_mul_scalar E3 (scalar_invert E3 (scalar_sub E3 T1 T0)) (scalar_sub E3 T0 T1)) T1"
  using dleq_special_soundness [of E3 T1 T2 T0 T0 "\<lparr>proof_c = T1, proof_s = T1\<rparr>" "\<lparr>proof_c = T0, proof_s = T0\<rparr>"]
  by (simp add: commitments_eq)

text \<open>C9: Soundness of one proof. When no scalar relates both pairs, then for any two commitments
  there is at most one challenge that any response can meet, so that an accepted proof needs
  the hash of its own transcript to be exactly that challenge.\<close>

theorem dleq_false_statement:
  assumes E: "env_laws E" and len: "length cs = length ds"
    and comp: "compute_composites E b cs ds = Inr (m, z)"
    and false: "\<nexists>k. b = scalar_mul E k a \<and> z = scalar_mul E k m"
  shows "(\<exists>\<^sub>\<le>\<^sub>1c. \<exists>s. verify_commitments E a b m z \<lparr>proof_c = c, proof_s = s\<rparr> = (t2, t3)) \<and>
    (verify_proof E a b cs ds pf = Inr () \<longrightarrow>
      dleq_challenge E b m z (fst (verify_commitments E a b m z pf))
        (snd (verify_commitments E a b m z pf)) = proof_c pf)"
proof
  show "\<exists>\<^sub>\<le>\<^sub>1c. \<exists>s. verify_commitments E a b m z \<lparr>proof_c = c, proof_s = s\<rparr> = (t2, t3)"
  proof (rule Uniq_I, rule ccontr)
    fix c c' assume "\<exists>s. verify_commitments E a b m z \<lparr>proof_c = c, proof_s = s\<rparr> = (t2, t3)"
      and "\<exists>s. verify_commitments E a b m z \<lparr>proof_c = c', proof_s = s\<rparr> = (t2, t3)" and ne: "c \<noteq> c'"
    then obtain s s' where
      "verify_commitments E a b m z \<lparr>proof_c = c, proof_s = s\<rparr> = (t2, t3)"
      "verify_commitments E a b m z \<lparr>proof_c = c', proof_s = s'\<rparr> = (t2, t3)"
      by blast
    then have
      "element_add E (scalar_mul E s a) (scalar_mul E c b) = element_add E (scalar_mul E s' a) (scalar_mul E c' b)"
      "element_add E (scalar_mul E s m) (scalar_mul E c z) = element_add E (scalar_mul E s' m) (scalar_mul E c' z)"
      by (simp_all add: commitments_eq)
    with gp.dleq_extract [OF group_okI [OF E] ne] false show False by metis
  qed
  show "verify_proof E a b cs ds pf = Inr () \<longrightarrow>
      dleq_challenge E b m z (fst (verify_commitments E a b m z pf))
        (snd (verify_commitments E a b m z pf)) = proof_c pf"
  proof
    assume acc: "verify_proof E a b cs ds pf = Inr ()"
    then have "batch_fits E (length cs)" by (auto simp: verify_spec [OF E len] split: if_splits)
    with acc comp show "dleq_challenge E b m z (fst (verify_commitments E a b m z pf))
        (snd (verify_commitments E a b m z pf)) = proof_c pf"
      by (auto simp: verify_spec [OF E len] composites_spec [OF E _ len] case_prod_beta' Let_def
          split: if_splits)
  qed
qed

theorem dleq_false_statement_witness:
  "\<exists>\<^sub>\<le>\<^sub>1c. \<exists>s. verify_commitments E3 T1 T2 T2 T0 \<lparr>proof_c = c, proof_s = s\<rparr> = (T1, T1)"
  by (rule conjunct1 [OF dleq_false_statement [where cs = "[T1]" and ds = "[T0]" and pf = pf3]])
    (simp_all add: toy_run toy_bytes tri_ex)

section \<open>Binding\<close>

text \<open>A proof binds the key and the elements. If a proof made for one key and one composite is
  accepted for another key or another composite, then the transcript the prover hashed and the
  one the verifier hashed are different byte strings with the same hash to a scalar.\<close>

theorem proof_binds_statement:
  assumes E: "env_laws E" and len: "length cs = length ds" "length cs' = length ds'"
    and made: "generate_proof_with_r E k a b cs ds r = Inr pf"
    and accepted: "verify_proof E a' b' cs' ds' pf = Inr ()"
    and m: "compute_composites_fast E k b cs ds = Inr (m, z)"
    and m': "compute_composites E b' cs' ds' = Inr (m', z')"
    and differ: "b \<noteq> b' \<or> m \<noteq> m'"
  defines "x \<equiv> dleq_transcript E b m z (scalar_mul E r a) (scalar_mul E r m)"
    and "y \<equiv> (case verify_commitments E a' b' m' z' pf of (t2, t3) \<Rightarrow> dleq_transcript E b' m' z' t2 t3)"
  shows "x \<noteq> y \<and> hash_to_scalar E [x] HASH_TO_SCALAR_DST = hash_to_scalar E [y] HASH_TO_SCALAR_DST"
proof
  have fit: "batch_fits E (length cs)" "batch_fits E (length cs')"
    using made accepted by (auto simp: generate_spec [OF E len(1)] verify_spec [OF E len(2)] split: if_splits)
  show "x \<noteq> y"
    using differ by (auto simp: x_def y_def dleq_transcript_inj [OF E] split: prod.splits)
  have "hash_scalar E x HASH_TO_SCALAR_DST = proof_c pf"
    using made m
    by (auto simp: generate_spec [OF E len(1)] composites_fast_spec [OF E fit(1) len(1)] fit Let_def
        x_def dleq_challenge_def)
  moreover have "hash_scalar E y HASH_TO_SCALAR_DST = proof_c pf"
    using accepted m'
    by (auto simp: verify_spec [OF E len(2)] composites_spec [OF E fit(2) len(2)] fit Let_def
        case_prod_beta' y_def dleq_challenge_def split: if_splits)
  ultimately show "hash_to_scalar E [x] HASH_TO_SCALAR_DST = hash_to_scalar E [y] HASH_TO_SCALAR_DST"
    by (simp add: hash_to_scalar_spec E env_lawsD)
qed

theorem proof_binds_statement_witness:
  "\<exists>x y. x \<noteq> y \<and> hash_to_scalar E3 [x] HASH_TO_SCALAR_DST = hash_to_scalar E3 [y] HASH_TO_SCALAR_DST"
proof -
  have made: "generate_proof_with_r E3 T1 T1 T1 [T1] [T1] T1 = Inr pf3"
    and accepted: "verify_proof E3 T1 T2 [T2] [T1] pf3 = Inr ()"
    by (simp_all add: toy_run toy_bytes)
  show ?thesis
    using proof_binds_statement [OF toy_laws _ _ made accepted]
    by (simp add: toy_run toy_bytes) blast
qed

text \<open>C15: The verifier's decision, exactly: it never fails but with a verification error (or, for a
  batch beyond the index in a debug build, the assertion), and it accepts if and only if the
  challenge of the recomputed transcript is the challenge of the proof.\<close>

theorem verify_exact:
  fixes E :: "('s, 'p, 't, 'h, 'r) env" and a b :: 'p
  assumes E: "env_laws E" and len: "length cs = length ds"
  defines "ws \<equiv> dleq_weights E b cs ds"
  defines "m \<equiv> gp.wsum E (zip ws cs)" and "z \<equiv> gp.wsum E (zip ws ds)"
  shows "verify_proof E a b cs ds pf =
    (if 65536 < length cs \<and> debug_assertions E then panic
     else if hash_to_scalar E [dleq_transcript E b m z
          (element_add E (scalar_mul E (proof_s pf) a) (scalar_mul E (proof_c pf) b))
          (element_add E (scalar_mul E (proof_s pf) m) (scalar_mul E (proof_c pf) z))]
        HASH_TO_SCALAR_DST = Inr (proof_c pf) then Inr ()
     else Fail Verify)"
  unfolding m_def z_def ws_def
  by (auto simp: verify_spec [OF E len] batch_fits_def commitments_eq hash_to_scalar_spec E env_lawsD
      dleq_challenge_def Let_def)

theorem verify_exact_witness:
  "verify_proof E3 T1 T1 [T1] [T1] pf3 = Inr ()"
proof -
  have "dleq_weights E3 T1 [T1] [T1] = [T2]" by (simp add: toy_run toy_bytes)
  then show ?thesis
    using verify_exact [of E3 "[T1]" "[T1]" T1 T1 pf3]
    by (simp add: hash_transcript gp.wsum_def tri_of_byte_def)
qed

section \<open>Builds\<close>

lemma fast_laws: "env_laws (E\<lparr>fast_dleq := f\<rparr>) \<longleftrightarrow> env_laws E"
  by (cases E) (simp only: env.simps env_laws_def scalar_laws_def point_laws_def encoding_laws_def
      hash_laws_def accel_laws_def)

text \<open>The hash inputs and the group do not depend on the flag.\<close>

lemma fast_dleq_irrelevant:
  "dleq_weights (E\<lparr>fast_dleq := f\<rparr>) = dleq_weights E"
  "dleq_challenge (E\<lparr>fast_dleq := f\<rparr>) = dleq_challenge E"
  "gp.wsum (E\<lparr>fast_dleq := f\<rparr>) = gp.wsum E"
  "scalar_mul (E\<lparr>fast_dleq := f\<rparr>) = scalar_mul E"
  "scalar_sub (E\<lparr>fast_dleq := f\<rparr>) = scalar_sub E"
  "scalar_mul_scalar (E\<lparr>fast_dleq := f\<rparr>) = scalar_mul_scalar E"
  "verify_commitments (E\<lparr>fast_dleq := f\<rparr>) = verify_commitments E"
  "batch_fits (E\<lparr>fast_dleq := f\<rparr>) = batch_fits E"
  by (simp_all add: fun_eq_iff dleq_weights_def dleq_weight_def dleq_seed_def dleq_challenge_def
      dleq_transcript_def hash_scalar_def serialize_element_def gp.wsum_def group_defs
      verify_commitments_def batch_fits_def)

text \<open>C36: The cargo feature \<open>fast-dleq\<close> changes no result: with the multiscalar product and with the
  loop, proofs are generated and judged alike, for any lists of equal length, panics included.\<close>

theorem fast_dleq_equivalent:
  assumes E: "env_laws E" and len: "length cs = length ds"
  shows "generate_proof_with_r (E\<lparr>fast_dleq := True\<rparr>) k a b cs ds r =
      generate_proof_with_r (E\<lparr>fast_dleq := False\<rparr>) k a b cs ds r \<and>
    verify_proof (E\<lparr>fast_dleq := True\<rparr>) a b cs ds pf = verify_proof (E\<lparr>fast_dleq := False\<rparr>) a b cs ds pf"
  by (simp add: generate_spec len verify_spec fast_laws E fast_dleq_irrelevant)

theorem fast_dleq_equivalent_witness:
  "verify_proof (E3\<lparr>fast_dleq := True\<rparr>) T1 T1 [T1, T2] [T1, T2] pf3 =
    verify_proof (E3\<lparr>fast_dleq := False\<rparr>) T1 T1 [T1, T2] [T1, T2] pf3"
  by (rule conjunct2 [OF fast_dleq_equivalent]) simp_all

text \<open>C40: In a build without debug assertions the two-byte index of an entry wraps around: entries
  65536 apart are hashed with the same index, so that equal pairs get equal weights.\<close>

theorem release_index_wraps:
  assumes "\<not> debug_assertions E"
  shows "composite_di E seed_len seed (i + 65536) elem_len c d = composite_di E seed_len seed i elem_len c d"
  using assms by (simp add: composite_di_def i2osp_2_def be16_wrap [unfolded be16_def] del: of_nat_add)

theorem release_index_wraps_witness:
  "composite_di (toy True True False) [0, 64] [1] 65537 [0, 32] T1 T2 =
    composite_di (toy True True False) [0, 64] [1] 1 [0, 32] T1 T2"
  using release_index_wraps [of "toy True True False" "[0, 64]" "[1]" 1 "[0, 32]" T1 T2] by simp

end
