(* ===== verification/Protocol.thy ===== *)
theory Protocol
  imports Toy_Run
begin

text \<open>
  Properties that span the client and the server of \<open>poprf.rs\<close>: a run of the protocol,
  single or batched, ends in the server's own evaluation of the input; pre-hashed tables
  change nothing; a batch of one is a single call; and blinding hides the input.
\<close>

section \<open>What the two sides agree on\<close>

abbreviation client_of :: "('s, 'p, 't, 'h, 'r) env \<Rightarrow> 's PoprfServer \<Rightarrow> 'p PoprfClient" where
  "client_of E srv \<equiv> PoprfClient_new (PoprfServer_public_key E srv)"

text \<open>The client's tweaked key is the public key of the server's tweaked secret.\<close>

lemma client_key_eq:
  assumes "env_laws E"
  shows "client_key E (client_of E srv) info = scalar_mul E (server_t E srv info) (generator E)"
  using assms
  by (simp add: client_key_def PoprfClient_new_def PoprfServer_public_key_def
      SecretKey_public_key_def scalar_mul_gen_eq server_t_def gp.pmul_sadd gp.padd_comm)

lemma client_key_identity:
  assumes "env_laws E"
  shows "is_identity E (client_key E (client_of E srv) info) \<longleftrightarrow>
    scalar_is_zero E (server_t E srv info)"
proof -
  have ok: "group_ok E" using assms by simp
  show ?thesis
    using gp.pmul_zero [OF ok] gp.pmul_eq_id [OF ok] gp.gen_not_pid [OF ok]
    by (metis client_key_eq [OF assms] gp.is_id_iff [OF ok])
qed

lemma blind_drawn:
  assumes "env_laws E" and "PoprfClient_blind E cl input info rng = (Inr (st, bl), rng')"
  shows "length input \<le> 65534" and "length info \<le> 65534"
    and "\<not> is_identity E (input_element E input)"
    and "bs_tweaked_key st = client_key E cl info"
    and "\<not> scalar_is_zero E (bs_blind st)"
    and "bl = BlindedElement (scalar_mul E (bs_blind st) (input_element E input))"
  using assms random_scalar_nonzero
  by (fastforce simp: PoprfClient_blind_def spec_simps split: option.splits if_splits)+

lemma blinded_not_identity:
  assumes "env_laws E" and "PoprfClient_blind E cl input info rng = (Inr (st, bl), rng')"
  shows "\<not> is_identity E (blinded_point bl)"
  using blind_drawn [OF assms] assms(1) by (simp add: gp.is_id_iff gp.pmul_eq_id)

text \<open>Undoing the blinding of the server's answer leaves the evaluated input.\<close>

lemma unblinded:
  assumes "env_laws E" and "PoprfClient_blind E cl input info rng = (Inr (st, bl), rng')"
  shows "prf_output E input info (scalar_mul E (scalar_invert E (bs_blind st))
      (scalar_mul E (scalar_invert E (server_t E srv info)) (blinded_point bl))) =
    poprf E srv input info"
  using blind_drawn [OF assms] assms(1) by (simp add: prf_output_def poprf_def gp.unblind)

lemma evaluation_of_run:
  assumes "env_laws E" and "PoprfClient_blind E cl input info rng = (Inr (st, bl), rng')"
    and "\<not> scalar_is_zero E (server_t E srv info)"
  shows "PoprfServer_evaluate E srv input info = Inr (poprf E srv input info)"
  using blind_drawn [OF assms(1,2)] assms(1,3) by (simp add: evaluate_spec)

text \<open>What a successful batch evaluation returned, and that its proof is accepted.\<close>

lemma batch_evaluated:
  assumes E: "env_laws E" and ev: "blind_evaluate_batch_with_r_inner E srv bls info r = Inr (evs, pf)"
  defines "t \<equiv> server_t E srv info"
  shows "bls \<noteq> []" and "length info \<le> 65534" and "\<not> scalar_is_zero E t"
    and "evs = map (\<lambda>b. EvaluatedElement (scalar_mul E (scalar_invert E t) (blinded_point b))) bls"
    and "verify_proof E (generator E) (scalar_mul E t (generator E)) (map evaluated_point evs)
           (map blinded_point bls) pf = Inr ()"
proof -
  let ?es = "map (scalar_mul E (scalar_invert E t)) (map blinded_point bls)"
  show "bls \<noteq> []" and "length info \<le> 65534" and t: "\<not> scalar_is_zero E t"
    using ev E by (auto simp: batch_r_spec t_def split: if_splits)
  then have gen: "generate_proof_with_r E t (generator E) (scalar_mul E t (generator E)) ?es
      (map blinded_point bls) r = Inr pf" and evs: "evs = map EvaluatedElement ?es"
    using ev E by (auto simp: batch_r_spec t_def rbind_eq_Inr_iff Let_def split: if_splits)
  from evs show "evs = map (\<lambda>b. EvaluatedElement (scalar_mul E (scalar_invert E t) (blinded_point b))) bls"
    by simp
  have "map evaluated_point evs = ?es" by (simp add: evs)
  then show "verify_proof E (generator E) (scalar_mul E t (generator E)) (map evaluated_point evs)
      (map blinded_point bls) pf = Inr ()"
    using dl.honest_evaluation [OF E t gen] by simp
qed

lemma batch_call_evaluated:
  assumes "PoprfServer_blind_evaluate_batch E srv rng bls info = (Inr (evs, pf), rng')"
  shows "\<exists>r. blind_evaluate_batch_with_r_inner E srv bls info r = Inr (evs, pf)"
  using assms by (auto simp: batch_draws rbind_eq_Inr_iff split: option.splits if_splits)

text \<open>The server checks the elements of a batch itself, so that its answers are never the identity.\<close>

lemma evaluations_valid:
  assumes E: "env_laws E" and ev: "blind_evaluate_batch_with_r_inner E srv bls info r = Inr (evs, pf)"
  shows "\<forall>e \<in> set evs. valid_evaluated E e"
proof -
  have "\<forall>b \<in> set bls. valid_blinded E b"
    using ev E by (auto simp: batch_r_spec valid_blinded_def split: if_splits)
  moreover note answer = batch_evaluated [OF E ev]
  have ok: "group_ok E" using E by simp
  moreover have "scalar_mul E (scalar_invert E (server_t E srv info)) P \<noteq> identity E" if "P \<noteq> identity E" for P
    using gp.pmul_inv [OF ok answer(3), of P] gp.pmul_id [OF ok] that gp.pmul_comm [OF ok] by metis
  ultimately show ?thesis
    by (auto simp: answer(4) valid_evaluated_def valid_blinded_def gp.is_id_iff [OF ok])
qed

lemma evaluated_valid:
  "env_laws E \<Longrightarrow> PoprfServer_blind_evaluate_batch E srv rng bls info = (Inr (evs, pf), rng') \<Longrightarrow>
     \<forall>e \<in> set evs. valid_evaluated E e"
  by (metis batch_call_evaluated evaluations_valid)

lemma single_call_evaluated:
  assumes "PoprfServer_blind_evaluate E srv rng bl info = (Inr (ev, pf), rng')"
  shows "\<exists>r. blind_evaluate_batch_with_r_inner E srv [bl] info r = Inr ([ev], pf)"
proof -
  obtain r where r: "blind_evaluate_with_r_inner E srv bl info r = Inr (ev, pf)"
    using assms by (auto simp: single_draws rbind_eq_Inr_iff split: option.splits if_splits)
  then obtain es where "blind_evaluate_batch_with_r_inner E srv [bl] info r = Inr (es, pf)"
    and "hd es = ev"
    by (auto simp: single_is_batch_r rbind_eq_Inr_iff)
  moreover from this(1) have "length es = 1"
    by (auto simp: blind_evaluate_batch_with_r_inner_def rbind_eq_Inr_iff Let_def split: if_splits)
  ultimately show ?thesis by (cases es) auto
qed

section \<open>Runs\<close>

lemmas blind_call_facts = blind_drawn blinded_not_identity unblinded

text \<open>Why a run completes, and what every party holds at its end.\<close>

lemma single_run_completes:
  assumes E: "env_laws E" and len: "length input \<le> 65534" "length info \<le> 65534"
    and input: "\<not> is_identity E (input_element E input)"
    and key: "\<not> scalar_is_zero E (server_t E srv info)"
    and rng1: "random_scalar E rng1 = Some (b, rng1')"
    and rng2: "random_scalar E rng2 = Some (r, rng2')"
  shows "\<exists>st bl ev pf.
    PoprfClient_blind E (client_of E srv) input info rng1 = (Inr (st, bl), rng1') \<and>
    PoprfServer_blind_evaluate E srv rng2 bl info = (Inr (ev, pf), rng2') \<and>
    PoprfClient_finalize E (client_of E srv) input st ev bl pf info = Inr (poprf E srv input info)"
proof -
  let ?t = "server_t E srv info"
  obtain st bl where blind: "PoprfClient_blind E (client_of E srv) input info rng1 = (Inr (st, bl), rng1')"
    using len input key rng1
    by (simp add: PoprfClient_blind_def spec_simps E client_key_identity [OF E])
  note drawn = blind_drawn [OF E blind]
  have bl: "\<not> is_identity E (blinded_point bl)" by (rule blinded_not_identity [OF E blind])
  obtain pf where pf: "generate_proof_with_r E ?t (generator E) (scalar_mul E ?t (generator E))
      (map (scalar_mul E (scalar_invert E ?t)) [blinded_point bl]) [blinded_point bl] r = Inr pf"
    using dl.honest_evaluation_exists [OF E key, of "[blinded_point bl]" r]
    by (auto simp: batch_fits_def)
  let ?ev = "EvaluatedElement (scalar_mul E (scalar_invert E ?t) (blinded_point bl))"
  have eval: "PoprfServer_blind_evaluate E srv rng2 bl info = (Inr (?ev, pf), rng2')"
    using bl len key rng2 pf
    by (simp add: single_draws single_is_batch_r batch_r_spec compute_t_spec E Let_def)
  note answer = batch_evaluated [OF E single_call_evaluated [OF eval, THEN someI_ex]]
  have "PoprfClient_finalize E (client_of E srv) input st ?ev bl pf info = Inr (poprf E srv input info)"
    using drawn answer unblinded [OF E blind, of srv]
    by (simp add: finalize_spec [OF E] client_key_eq [OF E])
  with blind eval show ?thesis by blast
qed

text \<open>C1: A run of the protocol is correct. If the client blinds an input and the server answers
  the blinded element under the same \<open>info\<close>, whatever the two random number generators
  produce, then the client accepts the answer, and the output it computes is the one the server
  computes alone for that input: the pseudorandom function of the RFC.\<close>

theorem single_run_correct:
  assumes E: "env_laws E"
    and blind: "PoprfClient_blind E (client_of E srv) input info rng1 = (Inr (st, bl), rng1')"
    and eval: "PoprfServer_blind_evaluate E srv rng2 bl info = (Inr (ev, pf), rng2')"
  shows "PoprfClient_finalize E (client_of E srv) input st ev bl pf info = Inr (poprf E srv input info)
    \<and> PoprfServer_evaluate E srv input info = Inr (poprf E srv input info)"
proof
  obtain r where "blind_evaluate_batch_with_r_inner E srv [bl] info r = Inr ([ev], pf)"
    using single_call_evaluated [OF eval] by blast
  note answer = batch_evaluated [OF E this]
  show "PoprfClient_finalize E (client_of E srv) input st ev bl pf info = Inr (poprf E srv input info)"
    using blind_drawn [OF E blind] answer unblinded [OF E blind, of srv]
    by (simp add: finalize_spec [OF E] client_key_eq [OF E])
  show "PoprfServer_evaluate E srv input info = Inr (poprf E srv input info)"
    by (rule evaluation_of_run [OF E blind answer(3)])
qed

theorem single_run_correct_witness:
  "PoprfClient_finalize E3 cl3 [0] st3 (EvaluatedElement T1) (BlindedElement T1) pf3 [1] =
     Inr (poprf E3 srv3 [0] [1])"
  using single_run_correct [OF toy_laws toy_blind toy_blind_evaluate] by (rule conjunct1)

text \<open>A run always completes. When the input and \<open>info\<close> fit their length prefixes, the
  input does not hash to the identity and the tweaked key is not zero, the client blinds, the
  server answers and the client accepts, as soon as both random number generators return.\<close>

theorem single_run_total:
  assumes E: "env_laws E" and len: "length input \<le> 65534" "length info \<le> 65534"
    and input: "\<not> is_identity E (input_element E input)"
    and key: "\<not> scalar_is_zero E (server_t E srv info)"
    and rng1: "random_scalar E rng1 = Some (b, rng1')"
    and rng2: "random_scalar E rng2 = Some (r, rng2')"
  shows "\<exists>st bl ev pf.
    PoprfClient_blind E (client_of E srv) input info rng1 = (Inr (st, bl), rng1') \<and>
    PoprfServer_blind_evaluate E srv rng2 bl info = (Inr (ev, pf), rng2') \<and>
    PoprfClient_finalize E (client_of E srv) input st ev bl pf info = Inr (poprf E srv input info)"
  using assms by (rule single_run_completes)

theorem single_run_total_witness:
  "\<exists>st bl ev pf. PoprfClient_blind E3 cl3 [0] [1] 0 = (Inr (st, bl), 2) \<and>
    PoprfServer_blind_evaluate E3 srv3 1 bl [1] = (Inr (ev, pf), 2) \<and>
    PoprfClient_finalize E3 cl3 [0] st ev bl pf [1] = Inr (poprf E3 srv3 [0] [1])"
  by (rule single_run_total) (simp_all add: toy_run toy_bytes)

text \<open>A batch: every entry is one blinding call of the client, with any generator state.\<close>

definition blinded_batch ::
  "('s, 'p, 't, 'h, 'r) env \<Rightarrow> 'p PoprfClient \<Rightarrow> bytes \<Rightarrow> bytes list \<Rightarrow> ('s, 'p) PoprfBlindState list \<Rightarrow>
    'p BlindedElement list \<Rightarrow> bool" where
  "blinded_batch E cl info inputs states bls \<longleftrightarrow>
     length states = length inputs \<and> length bls = length inputs \<and>
     (\<forall>i < length inputs. \<exists>rng rng'.
        PoprfClient_blind E cl (inputs ! i) info rng = (Inr (states ! i, bls ! i), rng'))"

lemma blinded_batch_entry:
  assumes "blinded_batch E cl info inputs states bls" and "i < length inputs"
  obtains rng rng' where "PoprfClient_blind E cl (inputs ! i) info rng = (Inr (states ! i, bls ! i), rng')"
  using assms by (auto simp: blinded_batch_def)

lemma blinded_batch_keys:
  assumes E: "env_laws E" and bb: "blinded_batch E cl info inputs states bls"
  shows "\<forall>s \<in> set states. bs_tweaked_key s = client_key E cl info"
    and "\<forall>b \<in> set bls. \<not> is_identity E (blinded_point b)"
    and "\<forall>x \<in> set inputs. length x \<le> 65534"
proof -
  have len: "length states = length inputs" "length bls = length inputs"
    using bb by (simp_all add: blinded_batch_def)
  have "bs_tweaked_key (states ! i) = client_key E cl info \<and> \<not> is_identity E (blinded_point (bls ! i)) \<and>
      length (inputs ! i) \<le> 65534" if "i < length inputs" for i
    using blinded_batch_entry [OF bb that] blind_drawn [OF E] blinded_not_identity [OF E] by metis
  then show "\<forall>s \<in> set states. bs_tweaked_key s = client_key E cl info"
    "\<forall>b \<in> set bls. \<not> is_identity E (blinded_point b)" "\<forall>x \<in> set inputs. length x \<le> 65534"
    by (auto simp: in_set_conv_nth len)
qed

text \<open>Correct answers under an accepted proof finalise to the server's outputs.\<close>

lemma correct_answers_finalize:
  assumes E: "env_laws E" and bb: "blinded_batch E (client_of E srv) info inputs states bls"
    and ne: "bls \<noteq> []" and info: "length info \<le> 65534"
    and evs: "evs = map (\<lambda>b. EvaluatedElement (scalar_mul E (scalar_invert E (server_t E srv info)) (blinded_point b))) bls"
    and acc: "verify_proof E (generator E) (scalar_mul E (server_t E srv info) (generator E))
      (map evaluated_point evs) (map blinded_point bls) pf = Inr ()"
  shows "PoprfClient_finalize_batch E (client_of E srv) inputs states evs bls pf info =
    Inr (map (\<lambda>x. poprf E srv x info) inputs)"
proof -
  let ?t = "server_t E srv info"
  note keys = blinded_batch_keys [OF E bb]
  have len: "length states = length inputs" "length bls = length inputs" "length evs = length inputs"
    using bb evs by (simp_all add: blinded_batch_def)
  then have ne: "inputs \<noteq> []" "states \<noteq> []" using ne by auto
  have outs: "map (\<lambda>((x, st), ev). prf_output E x info
      (scalar_mul E (scalar_invert E (bs_blind st)) (evaluated_point ev))) (zip (zip inputs states) evs)
    = map (\<lambda>x. poprf E srv x info) inputs"
  proof (rule nth_equalityI)
    fix i assume "i < length (map (\<lambda>((x, st), ev). prf_output E x info
      (scalar_mul E (scalar_invert E (bs_blind st)) (evaluated_point ev))) (zip (zip inputs states) evs))"
    then have i: "i < length inputs" by (simp add: len)
    obtain rng rng' where "PoprfClient_blind E (client_of E srv) (inputs ! i) info rng =
        (Inr (states ! i, bls ! i), rng')"
      by (rule blinded_batch_entry [OF bb i])
    from unblinded [OF E this, of srv] show "map (\<lambda>((x, st), ev). prf_output E x info
      (scalar_mul E (scalar_invert E (bs_blind st)) (evaluated_point ev))) (zip (zip inputs states) evs) ! i
      = map (\<lambda>x. poprf E srv x info) inputs ! i"
      using i len by (simp add: evs)
  qed (simp add: len)
  have key: "\<forall>s \<in> set states. bs_tweaked_key s = scalar_mul E ?t (generator E)"
    using keys(1) by (simp add: client_key_eq [OF E])
  then have hd: "bs_tweaked_key (hd states) = scalar_mul E ?t (generator E)"
    and tl: "\<forall>s \<in> set (tl states). bs_tweaked_key s = scalar_mul E ?t (generator E)"
    using ne(2) by (auto dest: list.set_sel(2))
  show ?thesis
    unfolding finalize_batch_spec [OF E] using ne len tl hd keys(3) info acc
    by (auto simp: outs simp flip: not_less)
qed

lemma batch_finalized:
  assumes E: "env_laws E" and bb: "blinded_batch E (client_of E srv) info inputs states bls"
    and eval: "blind_evaluate_batch_with_r_inner E srv bls info r = Inr (evs, pf)"
  shows "PoprfClient_finalize_batch E (client_of E srv) inputs states evs bls pf info =
    Inr (map (\<lambda>x. poprf E srv x info) inputs)"
  using batch_evaluated [OF E eval] by (intro correct_answers_finalize [OF E bb])

lemma batch_entries_evaluate:
  assumes E: "env_laws E" and bb: "blinded_batch E (client_of E srv) info inputs states bls"
    and t: "\<not> scalar_is_zero E (server_t E srv info)"
  shows "rmap (\<lambda>x. PoprfServer_evaluate E srv x info) inputs = Inr (map (\<lambda>x. poprf E srv x info) inputs)"
proof -
  have "PoprfServer_evaluate E srv x info = Inr (poprf E srv x info)" if "x \<in> set inputs" for x
    using that t evaluation_of_run [OF E] blinded_batch_entry [OF bb]
    by (metis in_set_conv_nth)
  then show ?thesis by (rule rmap_Inr)
qed

lemma batch_evaluates:
  assumes E: "env_laws E" and bb: "blinded_batch E (client_of E srv) info inputs states bls"
    and eval: "blind_evaluate_batch_with_r_inner E srv bls info r = Inr (evs, pf)"
  shows "rmap (\<lambda>x. PoprfServer_evaluate E srv x info) inputs = Inr (map (\<lambda>x. poprf E srv x info) inputs)"
  by (rule batch_entries_evaluate [OF E bb batch_evaluated(3) [OF E eval]])

text \<open>C2: A batched run is correct. When every entry was blinded by the client and the server
  answered the whole list under one proof, the client accepts the proof and obtains for every
  input, in order, the output the server computes alone for it.\<close>

theorem batch_run_correct:
  assumes E: "env_laws E"
    and bb: "blinded_batch E (client_of E srv) info inputs states bls"
    and eval: "PoprfServer_blind_evaluate_batch E srv rng bls info = (Inr (evs, pf), rng')"
  shows "PoprfClient_finalize_batch E (client_of E srv) inputs states evs bls pf info =
      Inr (map (\<lambda>x. poprf E srv x info) inputs) \<and>
    rmap (\<lambda>x. PoprfServer_evaluate E srv x info) inputs =
      Inr (map (\<lambda>x. poprf E srv x info) inputs)"
proof
  obtain r where ev: "blind_evaluate_batch_with_r_inner E srv bls info r = Inr (evs, pf)"
    using batch_call_evaluated [OF eval] by blast
  show "PoprfClient_finalize_batch E (client_of E srv) inputs states evs bls pf info =
      Inr (map (\<lambda>x. poprf E srv x info) inputs)"
    by (rule batch_finalized [OF E bb ev])
  show "rmap (\<lambda>x. PoprfServer_evaluate E srv x info) inputs =
      Inr (map (\<lambda>x. poprf E srv x info) inputs)"
    by (rule batch_evaluates [OF E bb ev])
qed

lemma toy_blinded_batch:
  "blinded_batch E3 cl3 [1] [[0], [0]] [st3, st3] [BlindedElement T1, BlindedElement T1]"
  using toy_blind by (auto simp: blinded_batch_def nth_Cons split: nat.splits)

theorem batch_run_correct_witness:
  "PoprfClient_finalize_batch E3 cl3 [[0], [0]] [st3, st3] [EvaluatedElement T1, EvaluatedElement T1]
     [BlindedElement T1, BlindedElement T1] pf3 [1] = Inr [poprf E3 srv3 [0] [1], poprf E3 srv3 [0] [1]]"
  using batch_run_correct [OF toy_laws toy_blinded_batch toy_blind_evaluate_batch] by simp

text \<open>Blinding checks the length of \<open>info\<close> and the tweaked key for the server.\<close>

lemma blinded_batch_tweak:
  assumes E: "env_laws E" and bb: "blinded_batch E (client_of E srv) info inputs states bls" and ne: "inputs \<noteq> []"
  shows "length info \<le> 65534" and "\<not> scalar_is_zero E (server_t E srv info)"
proof -
  have "0 < length inputs" using ne by simp
  from blinded_batch_entry [OF bb this] obtain rng rng' where
    run: "PoprfClient_blind E (client_of E srv) (inputs ! 0) info rng = (Inr (states ! 0, bls ! 0), rng')" by blast
  then show "length info \<le> 65534" using blind_drawn(2) [OF E run] by simp
  show "\<not> scalar_is_zero E (server_t E srv info)"
    using run client_key_identity [OF E, of srv info]
    by (auto simp: PoprfClient_blind_def blind_inner_spec [OF E] split: option.splits if_splits)
qed

lemma batch_completes:
  assumes E: "env_laws E"
    and bb: "blinded_batch E (client_of E srv) info inputs states bls" and ne: "inputs \<noteq> []"
    and fits: "length inputs \<le> 65536 \<or> \<not> debug_assertions E"
    and rng: "random_scalar E rng = Some (r, rng')"
  shows "\<exists>evs pf. PoprfServer_blind_evaluate_batch E srv rng bls info = (Inr (evs, pf), rng') \<and>
    PoprfClient_finalize_batch E (client_of E srv) inputs states evs bls pf info =
      Inr (map (\<lambda>x. poprf E srv x info) inputs)"
proof -
  note info = blinded_batch_tweak(1) [OF E bb ne] and key = blinded_batch_tweak(2) [OF E bb ne]
  let ?t = "server_t E srv info" and ?ps = "map blinded_point bls"
  have len: "length bls = length inputs" using bb by (simp add: blinded_batch_def)
  then have bls: "bls \<noteq> []" using ne by auto
  have ids: "\<not> (\<exists>b \<in> set bls. is_identity E (blinded_point b))"
    using blinded_batch_keys(2) [OF E bb] by blast
  obtain pf where pf: "generate_proof_with_r E ?t (generator E) (scalar_mul E ?t (generator E))
      (map (scalar_mul E (scalar_invert E ?t)) ?ps) ?ps r = Inr pf"
    using dl.honest_evaluation_exists [OF E key, of ?ps r] fits by (auto simp: batch_fits_def len)
  have ev: "blind_evaluate_batch_with_r_inner E srv bls info r =
      Inr (map EvaluatedElement (map (scalar_mul E (scalar_invert E ?t)) ?ps), pf)"
    using bls ids info key pf by (simp add: batch_r_spec [OF E] Let_def)
  have "PoprfServer_blind_evaluate_batch E srv rng bls info =
      (Inr (map EvaluatedElement (map (scalar_mul E (scalar_invert E ?t)) ?ps), pf), rng')"
    using ev bls ids info key rng
    by (simp add: batch_draws check_no_identity_eq compute_t_spec E)
  with batch_finalized [OF E bb ev] show ?thesis by blast
qed

text \<open>The server answers every batch a client of its own blinds, for as long as the batch has
  an entry and at most 65536 of them (in a build without debug assertions, any number), and the
  client accepts the answer.\<close>

theorem batch_run_total:
  assumes E: "env_laws E"
    and bb: "blinded_batch E (client_of E srv) info inputs states bls"
    and ne: "inputs \<noteq> []"
    and fits: "length inputs \<le> 65536 \<or> \<not> debug_assertions E"
    and rng: "random_scalar E rng = Some (r, rng')"
  shows "\<exists>evs pf. PoprfServer_blind_evaluate_batch E srv rng bls info = (Inr (evs, pf), rng') \<and>
    PoprfClient_finalize_batch E (client_of E srv) inputs states evs bls pf info =
      Inr (map (\<lambda>x. poprf E srv x info) inputs)"
  using assms by (rule batch_completes)

theorem batch_run_total_witness:
  "\<exists>evs pf. PoprfServer_blind_evaluate_batch E3 srv3 1 [BlindedElement T1, BlindedElement T1] [1] =
      (Inr (evs, pf), 2) \<and>
    PoprfClient_finalize_batch E3 cl3 [[0], [0]] [st3, st3] evs [BlindedElement T1, BlindedElement T1]
      pf [1] = Inr (map (\<lambda>x. poprf E3 srv3 x [1]) [[0], [0]])"
  by (rule batch_run_total [OF toy_laws toy_blinded_batch]) (simp_all add: toy_run toy_bytes)

text \<open>A debug build cannot answer a larger batch: the two-byte index of the 65537th entry
  fails its assertion and the call panics after the checks and the draw.\<close>

theorem oversized_batch_panics:
  assumes E: "env_laws E" and debug: "debug_assertions E" and big: "65536 < length bls"
    and ids: "\<forall>b \<in> set bls. \<not> is_identity E (blinded_point b)"
    and info: "length info \<le> 65534" and key: "\<not> scalar_is_zero E (server_t E srv info)"
    and rng: "random_scalar E rng = Some (r, rng')"
  shows "PoprfServer_blind_evaluate_batch E srv rng bls info = (panic, rng')"
proof -
  have ne: "bls \<noteq> []" using big by auto
  have "\<not> batch_fits E (length bls)" using debug big by (simp add: batch_fits_def)
  then have "blind_evaluate_batch_with_r_inner E srv bls info r = panic"
    using ne ids info key by (simp add: batch_r_spec [OF E] generate_spec [OF E] Let_def)
  then show ?thesis
    using ne ids info key rng by (simp add: batch_draws check_no_identity_eq compute_t_spec E)
qed

theorem oversized_batch_panics_witness:
  "PoprfServer_blind_evaluate_batch E3 srv3 1 (replicate 65537 (BlindedElement T1)) [1] = (panic, 2)"
  by (rule oversized_batch_panics) (simp_all add: toy_run toy_bytes)

section \<open>Other ways to the same value\<close>

lemma tables_eq_evaluate:
  assumes E: "env_laws E" and ne: "tables \<noteq> []"
    and tabs: "list_all2 (\<lambda>input tb. PoprfInputTable_new E input = Inr tb) inputs tables"
  shows "PoprfServer_evaluate_tables E srv tables info =
    rmap (\<lambda>input. PoprfServer_evaluate E srv input info) inputs"
proof -
  have inputs: "\<forall>x \<in> set inputs. \<not> 65534 < length x \<and> \<not> is_identity E (input_element E x)"
    using tabs by (induction rule: list_all2_induct) (auto simp: input_table_spec [OF E] split: if_splits)
  obtain x xs where "inputs = x # xs" using tabs ne by (cases inputs) auto
  show ?thesis
  proof (cases "65534 < length info \<or> scalar_is_zero E (server_t E srv info)")
    case True
    then show ?thesis
      using inputs ne \<open>inputs = x # xs\<close> by (auto simp: evaluate_tables_spec [OF E tabs] evaluate_spec [OF E])
  next
    case False
    then have "rmap (\<lambda>input. PoprfServer_evaluate E srv input info) inputs =
        Inr (map (\<lambda>input. poprf E srv input info) inputs)"
      using inputs by (intro rmap_Inr) (auto simp: evaluate_spec [OF E])
    then show ?thesis using False ne by (auto simp: evaluate_tables_spec [OF E tabs])
  qed
qed

text \<open>C17: Evaluating pre-hashed inputs gives, under either build of the tables, exactly what
  evaluating the inputs one after the other gives: the same outputs and the same first error.\<close>

theorem tables_agree:
  assumes E: "env_laws E" and ne: "tables \<noteq> []"
    and tabs: "list_all2 (\<lambda>input tb. PoprfInputTable_new E input = Inr tb) inputs tables"
  shows "PoprfServer_evaluate_tables E srv tables info =
    rmap (\<lambda>input. PoprfServer_evaluate E srv input info) inputs"
  by (rule tables_eq_evaluate [OF E ne tabs])

theorem tables_agree_witness:
  "\<exists>tb. PoprfInputTable_new E3 [0] = Inr tb \<and>
    PoprfServer_evaluate_tables E3 srv3 [tb, tb] [1] =
      rmap (\<lambda>input. PoprfServer_evaluate E3 srv3 input [1]) [[0], [0]]"
proof -
  obtain tb where tb: "PoprfInputTable_new E3 [0] = Inr tb"
    by (simp add: toy_run toy_bytes)
  then show ?thesis using tables_agree [of E3 "[tb, tb]" "[[0], [0]]" srv3 "[1]"] by simp
qed

text \<open>Finalising a batch of one is finalising that entry: same checks, same error, same output.\<close>

theorem finalize_batch_of_one:
  assumes "env_laws E"
  shows "PoprfClient_finalize_batch E cl [input] [st] [ev] [bl] pf info =
    rbind (PoprfClient_finalize E cl input st ev bl pf info) (\<lambda>out. Inr [out])"
  by (auto simp: finalize_batch_spec [OF assms] finalize_spec [OF assms] rbind_assoc)

theorem finalize_batch_of_one_witness:
  "PoprfClient_finalize_batch E3 cl3 [[0]] [st3] [EvaluatedElement T1] [BlindedElement T1] pf3 [1] =
    rbind (PoprfClient_finalize E3 cl3 [0] st3 (EvaluatedElement T1) (BlindedElement T1) pf3 [1])
      (\<lambda>out. Inr [out])"
  by (rule finalize_batch_of_one [OF toy_laws])

section \<open>Secrecy of the input\<close>

text \<open>Blinding hides the input perfectly. For the blinded element of any one input and any
  other acceptable input under the same \<open>info\<close> there is exactly one non-zero blinding scalar
  with which the client would have sent the same element for it: a uniform choice of the scalar
  makes the message independent of the input.\<close>

theorem blinding_hides_input:
  assumes E: "env_laws E"
    and sent: "blind_with_inner E cl input info blind = Inr (st, bl)"
    and nz: "\<not> scalar_is_zero E blind"
    and other: "length input' \<le> 65534" "\<not> is_identity E (input_element E input')"
  shows "\<exists>!blind'. \<not> scalar_is_zero E blind' \<and>
    (\<exists>st'. blind_with_inner E cl input' info blind' = Inr (st', bl))"
proof -
  have ok: "group_ok E" using E by simp
  have info: "\<not> 65534 < length info" "\<not> is_identity E (client_key E cl info)"
    and bl: "bl = BlindedElement (scalar_mul E blind (input_element E input))"
    and input: "input_element E input \<noteq> identity E"
    using sent by (auto simp: blind_inner_spec [OF E] gp.is_id_iff [OF ok] split: if_splits)
  have ne: "scalar_mul E blind (input_element E input) \<noteq> identity E"
    using gp.pmul_eq_id [OF ok nz] input by simp
  have iff: "(\<exists>st'. blind_with_inner E cl input' info b = Inr (st', bl)) \<longleftrightarrow>
      scalar_mul E blind (input_element E input) = scalar_mul E b (input_element E input')" for b
    using info other by (auto simp: blind_inner_spec [OF E] bl)
  have "\<exists>!b. scalar_mul E blind (input_element E input) = scalar_mul E b (input_element E input')"
    using gp.unique_blind [OF ok] other(2) by (simp add: gp.is_id_iff [OF ok])
  then show ?thesis
    unfolding iff using ne gp.pmul_zero [OF ok] by metis
qed

theorem blinding_hides_input_witness:
  "\<exists>!blind'. \<not> scalar_is_zero E3 blind' \<and>
    (\<exists>st'. blind_with_inner E3 cl3 [1] [1] blind' = Inr (st', BlindedElement T1))"
  by (rule blinding_hides_input [where input = "[0]" and blind = T1 and st = st3])
    (simp_all add: toy_run toy_bytes)

text \<open>The deterministic blinding call takes any canonical scalar, zero included. A zero blind
  yields the identity as blinded element, which the server rejects with an input validation
  error, and which its own decoder rejects on the wire.\<close>

theorem zero_blind_rejected:
  assumes E: "env_laws E" and bytes: "SecretKey_from_bytes E bs = Fail InputValidation"
    and sent: "blind_with_scalar E cl input info bs = Inr (st, bl)"
  shows "blinded_point bl = identity E \<and>
    PoprfServer_blind_evaluate E srv rng bl info' = (Fail InputValidation, rng) \<and>
    BlindedElement_from_bytes E (BlindedElement_to_bytes E bl) = Fail InputValidation"
proof -
  have ok: "group_ok E" using E by simp
  obtain b where b: "deserialize_scalar E bs = Inr b"
    and inner: "blind_with_inner E cl input info b = Inr (st, bl)"
    using sent by (auto simp: blind_with_scalar_def rbind_eq_Inr_iff)
  have "scalar_is_zero E b"
    using bytes b by (auto simp: SecretKey_from_bytes_def scalar_is_zero_def split: if_splits)
  then have id: "blinded_point bl = identity E"
    using inner gp.pmul_zero [OF ok] by (auto simp: blind_inner_spec [OF E] split: if_splits)
  then have "is_identity E (blinded_point bl)" by (simp add: gp.is_id_iff [OF ok])
  with id show ?thesis
    using E by (simp add: PoprfServer_blind_evaluate_def BlindedElement_from_bytes_def
        BlindedElement_to_bytes_def decode_identity env_lawsD)
qed

theorem zero_blind_rejected_witness:
  "PoprfServer_blind_evaluate E3 srv3 1 (BlindedElement T0) [1] = (Fail InputValidation, 1)"
  using zero_blind_rejected [of E3 "tri_encode T0" cl3 "[0]" "[1]"
      "\<lparr>bs_blind = T0, bs_tweaked_key = T1\<rparr>" "BlindedElement T0" srv3 1 "[1]"]
  by (simp add: toy_run toy_bytes SecretKey_from_bytes_def blind_with_scalar_def deserialize_scalar_spec)

end
