(* ===== verification/Api_Properties.thy ===== *)
theory Api_Properties
  imports Protocol
begin

text \<open>
  What each public call of the core crate returns, on every branch, and what holds of all of
  them: no panic on honest sizes, keys that are never zero, canonical encodings, separated
  hash domains, output binding, and debug output that shows no secret.
\<close>

section \<open>Functional behaviour\<close>

text \<open>What \<open>PoprfClient::blind\<close> returns: it draws a non-zero scalar first, then reports an input
  or \<open>info\<close> that is too long, then a tweaked key or an input that is the identity, and
  otherwise returns the scalar with the tweaked key, and the multiple of the hashed input.\<close>

theorem blind_functional:
  assumes "env_laws E" and "random_scalar E rng = Some (b, rng')"
  shows "PoprfClient_blind E cl input info rng =
    (if 65534 < length input \<or> 65534 < length info then Fail InputTooLong
     else
       let tweaked = element_add E (scalar_mul E (tweak E info) (generator E)) (client_pk cl) in
       if is_identity E tweaked \<or> is_identity E (input_element E input) then Fail InvalidInput
       else Inr (\<lparr>bs_blind = b, bs_tweaked_key = tweaked\<rparr>,
                 BlindedElement (scalar_mul E b (input_element E input))), rng')"
  using assms by (simp add: PoprfClient_blind_def blind_inner_spec client_key_def Let_def)

theorem blind_functional_witness:
  "PoprfClient_blind E3 cl3 [0] [1] 0 = (Inr (st3, BlindedElement T1), 2)"
  by (subst blind_functional [where b = T1 and rng' = 2]) (simp_all add: toy_run toy_bytes)

text \<open>C16: The server's own evaluation refines the function of the RFC: it returns the hash of the
  input, \<open>info\<close> and the hashed input divided by the tweaked key, and the checks fail in the order
  input length, identity, \<open>info\<close> length, zero key.\<close>

theorem evaluate_refines:
  assumes "env_laws E"
  shows "PoprfServer_evaluate E srv input info =
    (if 65534 < length input then Fail InputTooLong
     else if is_identity E (input_element E input) then Fail InvalidInput
     else if 65534 < length info then Fail InputTooLong
     else
       let t = scalar_add E (secret_scalar (server_sk srv)) (tweak E info);
           issued = scalar_mul E (scalar_invert E t) (input_element E input) in
       if scalar_is_zero E t then Fail Inverse
       else Inr (PoprfOutput (sha512 E
         (lp input @ lp info @ lp (serialize_element E issued) @ ascii ''Finalize''))))"
  using evaluate_spec [OF assms, of srv input info]
  by (simp add: poprf_def server_t_def finalize_transcript_def Let_def)

theorem evaluate_refines_witness:
  "PoprfServer_evaluate E3 srv3 [0] [1] =
    Inr (PoprfOutput (pad64 (lp [0] @ lp [1] @ lp (tri_encode T1) @ ascii ''Finalize'')))"
  by (subst evaluate_refines) (simp_all add: toy_run toy_bytes)

text \<open>What batched evaluation returns. The checks run in the order empty batch, identity element,
  \<open>info\<close> length, zero key, and none of them touches the generator; a batch that passes is
  divided by the tweaked key entry by entry, in order, with one proof over all of it.\<close>

theorem blind_evaluate_batch_functional:
  assumes E: "env_laws E" and rng: "random_scalar E rng = Some (r, rng')"
  shows "PoprfServer_blind_evaluate_batch E srv rng bls info =
    (if bls = [] then (Fail LengthMismatch, rng)
     else if \<exists>b \<in> set bls. is_identity E (blinded_point b) then (Fail InputValidation, rng)
     else if 65534 < length info then (Fail InputTooLong, rng)
     else if scalar_is_zero E (server_t E srv info) then (Fail Inverse, rng)
     else
       let t = server_t E srv info;
           es = map (\<lambda>b. scalar_mul E (scalar_invert E t) (blinded_point b)) bls in
       (rbind (generate_proof_with_r E t (generator E) (scalar_mul E t (generator E)) es
          (map blinded_point bls) r) (\<lambda>pf. Inr (map EvaluatedElement es, pf)), rng'))"
  using rng
  by (auto simp: batch_draws batch_r_spec [OF E] compute_t_spec [OF E] check_no_identity_eq Let_def comp_def)

theorem blind_evaluate_batch_functional_witness:
  "PoprfServer_blind_evaluate_batch E3 srv3 1 [BlindedElement T1, BlindedElement T0] [1] =
    (Fail InputValidation, 1)"
  by (subst blind_evaluate_batch_functional [where r = T1 and rng' = 2]) simp_all

text \<open>C34: What batched finalisation returns. The checks run in the order lengths (an empty batch
  included), \<open>info\<close> and input lengths, tweaked keys that disagree, proof; a batch that passes
  yields one output per entry, in order, from that entry's own state and element.\<close>

theorem finalize_batch_functional:
  assumes "env_laws E"
  shows "PoprfClient_finalize_batch E cl inputs states evs bls pf info =
    (if inputs = [] \<or> length inputs \<noteq> length states \<or> length inputs \<noteq> length evs
        \<or> length inputs \<noteq> length bls then Fail LengthMismatch
     else if 65534 < length info \<or> (\<exists>x \<in> set inputs. 65534 < length x) then Fail InputTooLong
     else if \<exists>s \<in> set states. bs_tweaked_key s \<noteq> bs_tweaked_key (hd states) then Fail InconsistentState
     else rbind (verify_proof E (generator E) (bs_tweaked_key (hd states))
           (map evaluated_point evs) (map blinded_point bls) pf) (\<lambda>_.
       Inr (map (\<lambda>i. prf_output E (inputs ! i) info
             (scalar_mul E (scalar_invert E (bs_blind (states ! i))) (evaluated_point (evs ! i))))
           [0..<length inputs])))"
proof (cases "inputs = [] \<or> length inputs \<noteq> length states \<or> length inputs \<noteq> length evs
    \<or> length inputs \<noteq> length bls")
  case True
  then show ?thesis by (simp add: finalize_batch_spec [OF assms])
next
  case False
  then obtain s0 rest where states: "states = s0 # rest" by (cases states) auto
  have outs: "map (\<lambda>((x, st), ev). prf_output E x info
        (scalar_mul E (scalar_invert E (bs_blind st)) (evaluated_point ev))) (zip (zip inputs states) evs) =
      map (\<lambda>i. prf_output E (inputs ! i) info
        (scalar_mul E (scalar_invert E (bs_blind (states ! i))) (evaluated_point (evs ! i)))) [0..<length inputs]"
    using False by (intro nth_equalityI) auto
  show ?thesis unfolding finalize_batch_spec [OF assms] outs using False by (auto simp: states)
qed

theorem finalize_batch_functional_witness:
  "PoprfClient_finalize_batch E3 cl3 [[0], [0]] [st3, \<lparr>bs_blind = T1, bs_tweaked_key = T2\<rparr>]
     [EvaluatedElement T1, EvaluatedElement T1] [BlindedElement T1, BlindedElement T1] pf3 [1] =
   Fail InconsistentState"
  by (subst finalize_batch_functional) simp_all

section \<open>What the output binds\<close>

text \<open>C19: An output binds input, \<open>info\<close> and key. If two evaluations, of any two servers, return the
  same output although the input, the \<open>info\<close> or the tweaked key differs, then the two byte
  strings they hash are different and SHA-512 maps them to the same digest.\<close>

theorem output_binding:
  assumes E: "env_laws E"
    and out: "PoprfServer_evaluate E srv input info = Inr out"
    and out': "PoprfServer_evaluate E srv' input' info' = Inr out"
    and differ: "input \<noteq> input' \<or> info \<noteq> info' \<or> server_t E srv info \<noteq> server_t E srv' info'"
  defines "issued \<equiv> scalar_mul E (scalar_invert E (server_t E srv info)) (input_element E input)"
    and "issued' \<equiv> scalar_mul E (scalar_invert E (server_t E srv' info')) (input_element E input')"
  defines "x \<equiv> finalize_transcript input info (serialize_element E issued)"
    and "y \<equiv> finalize_transcript input' info' (serialize_element E issued')"
  shows "x \<noteq> y \<and> sha512 E x = sha512 E y"
proof
  have ok: "group_ok E" using E by simp
  have nz: "\<not> scalar_is_zero E (server_t E srv info)" "\<not> scalar_is_zero E (server_t E srv' info')"
    and id: "input_element E input \<noteq> identity E"
    and len: "length input \<le> 65535" "length info \<le> 65535" "length input' \<le> 65535" "length info' \<le> 65535"
    using out out' by (auto simp: evaluate_spec [OF E] gp.is_id_iff [OF ok] split: if_splits)
  show "sha512 E x = sha512 E y"
    using out out' by (auto simp: evaluate_spec [OF E] poprf_def x_def y_def issued_def issued'_def split: if_splits)
  show "x \<noteq> y"
  proof
    assume "x = y"
    then have same: "input = input'" "info = info'" and "issued = issued'"
      using len E
      by (simp_all add: x_def y_def finalize_transcript_inj serialize_element_inj)
    have "input_element E input = scalar_mul E (server_t E srv info) issued"
      "input_element E input = scalar_mul E (server_t E srv' info') issued'"
      using nz same by (simp_all add: issued_def issued'_def gp.pmul_comm [OF ok, of "server_t E _ _"] gp.pmul_inv [OF ok])
    moreover have "issued \<noteq> identity E" using calculation(1) id gp.pmul_id [OF ok] by metis
    ultimately have "server_t E srv info = server_t E srv' info'"
      using gp.pmul_inj [OF ok] \<open>issued = issued'\<close> by metis
    with differ same show False by simp
  qed
qed

theorem output_binding_witness:
  "\<exists>x y. x \<noteq> y \<and> pad64 x = pad64 y"
proof -
  have tweaks: "tweak E3 [1] = tweak E3 [4]" "tweak E3 [4] = T0"
    by (simp_all add: toy_bytes)
  have cut: "pad64 (lp (replicate 62 0) @ ys) = lp (replicate 62 0)" for ys
    by (simp add: pad64_def)
  have run: "PoprfServer_evaluate E3 srv3 (replicate 62 0) info = Inr (PoprfOutput (lp (replicate 62 0)))"
    if "info \<in> {[1], [4]}" for info
    using that
    by (auto simp: evaluate_spec poprf_def finalize_transcript_def server_t_def PoprfServer_new_def
        tri_of_byte_def cut tweaks simp del: toy_tweak)
  show ?thesis using output_binding [OF toy_laws run run, of "[1]" "[4]"] by simp blast
qed

text \<open>C39: Finalisation does not compare its \<open>info\<close> or its input with those of the blinding call. An
  answer the client accepts for one pair is accepted for any other that fits the length
  prefixes; the output then hashes the other pair around the same evaluated element.\<close>

theorem finalize_does_not_rebind:
  assumes E: "env_laws E"
    and accepted: "PoprfClient_finalize E cl input st ev bl pf info = Inr out"
    and len: "length input' \<le> 65534" "length info' \<le> 65534"
  shows "PoprfClient_finalize E cl' input' st ev bl pf info' =
    Inr (prf_output E input' info'
      (scalar_mul E (scalar_invert E (bs_blind st)) (evaluated_point ev)))"
  using accepted len by (auto simp: finalize_spec [OF E] rbind_eq_Inr_iff split: if_splits)

theorem finalize_does_not_rebind_witness:
  "PoprfClient_finalize E3 cl3 [7] st3 (EvaluatedElement T1) (BlindedElement T1) pf3 [9] =
    Inr (prf_output E3 [7] [9] T1)"
proof -
  have "PoprfClient_finalize E3 cl3 [0] st3 (EvaluatedElement T1) (BlindedElement T1) pf3 [1] =
      Inr (prf_output E3 [0] [1] T1)"
    by (simp add: finalize_spec toy_run toy_bytes)
  from finalize_does_not_rebind [OF toy_laws this, of "[7]" "[9]" cl3] show ?thesis by simp
qed

section \<open>No panic and no loop\<close>

text \<open>The entry points the test vectors use take the scalar from the caller as bytes.\<close>

lemma no_abort_deserialize: "no_abort (deserialize_scalar E bs)"
  by (simp add: deserialize_scalar_spec split: option.splits)

lemma no_abort_blind_scalar:
  assumes "env_laws E"
  shows "no_abort (blind_with_scalar E cl input info bs)"
  using no_abort_deserialize [of E bs] assms
  by (auto simp: blind_with_scalar_def blind_inner_spec intro!: no_abort_rbind)

lemma no_abort_proof_scalar:
  assumes E: "env_laws E" and fits: "batch_fits E (length bls)"
  shows "no_abort (blind_evaluate_with_proof_scalar E srv bl info bs)"
    and "no_abort (blind_evaluate_batch_with_proof_scalar E srv bls info bs)"
proof -
  have "batch_fits E (length [bl])" by (simp add: batch_fits_def)
  then show "no_abort (blind_evaluate_with_proof_scalar E srv bl info bs)"
    using no_abort_deserialize [of E bs] no_abort_batch_r [OF E, of "[bl]"]
    by (auto simp: blind_evaluate_with_proof_scalar_def single_is_batch_r intro!: no_abort_rbind)
  show "no_abort (blind_evaluate_batch_with_proof_scalar E srv bls info bs)"
    using no_abort_deserialize [of E bs] no_abort_batch_r [OF E fits]
    by (auto simp: blind_evaluate_batch_with_proof_scalar_def intro!: no_abort_rbind)
qed

text \<open>C35: No public operation of the core crate panics or hangs. Twenty-two operations return a
  \<open>Result\<close> or draw randomness: the client's \<open>blind\<close>, \<open>blind_with_scalar\<close>, \<open>finalize\<close> and
  \<open>finalize_batch\<close>; the server's \<open>blind_evaluate\<close> and \<open>blind_evaluate_batch\<close>, each with its
  \<open>with_proof_scalar\<close> variant, \<open>evaluate\<close>, \<open>evaluate_tables\<close>, \<open>from_seed\<close> and \<open>generate\<close>;
  \<open>PoprfInputTable::new\<close>, \<open>generate_key_pair\<close>, \<open>derive_key_pair\<close>, and the seven decoders
  \<open>from_bytes\<close>. Whatever the arguments, as long as the generator yields a non-zero scalar and a
  batch has at most 65536 entries (any number without debug assertions), every one of them ends
  in a value or in one of the declared errors. The other public operations, the encoders, \<open>new\<close>
  and the accessors, return no \<open>Result\<close> and run no loop.\<close>

theorem api_never_aborts:
  assumes E: "env_laws E" and rng: "random_scalar E rng \<noteq> None"
    and fits: "length bls \<le> 65536 \<or> \<not> debug_assertions E"
  shows "no_abort (fst (PoprfClient_blind E cl input info rng)) \<and>
    no_abort (blind_with_scalar E cl input info scalar_bytes) \<and>
    no_abort (PoprfClient_finalize E cl input st ev bl pf info) \<and>
    no_abort (PoprfClient_finalize_batch E cl inputs states evs bls pf info) \<and>
    no_abort (fst (PoprfServer_blind_evaluate E srv rng bl info)) \<and>
    no_abort (blind_evaluate_with_proof_scalar E srv bl info scalar_bytes) \<and>
    no_abort (fst (PoprfServer_blind_evaluate_batch E srv rng bls info)) \<and>
    no_abort (blind_evaluate_batch_with_proof_scalar E srv bls info scalar_bytes) \<and>
    no_abort (PoprfServer_evaluate E srv input info) \<and>
    no_abort (PoprfInputTable_new E input) \<and>
    no_abort (PoprfServer_evaluate_tables E srv tables info) \<and>
    no_abort (PoprfServer_from_seed E seed info) \<and>
    no_abort (fst (PoprfServer_generate E rng)) \<and>
    no_abort (fst (generate_key_pair E rng)) \<and>
    no_abort (derive_key_pair E seed info) \<and>
    no_abort (SecretKey_from_bytes E buf) \<and>
    no_abort (PublicKey_from_bytes E buf) \<and>
    no_abort (BlindedElement_from_bytes E buf) \<and>
    no_abort (EvaluatedElement_from_bytes E buf) \<and>
    no_abort (Proof_from_bytes E buf) \<and>
    no_abort (PoprfBlindState_from_bytes E buf) \<and>
    no_abort (PoprfOutput_from_bytes buf)"
proof -
  obtain r rng' where r: "random_scalar E rng = Some (r, rng')" using rng by auto
  have fit: "batch_fits E (length bls)" "batch_fits E 1" using fits by (auto simp: batch_fits_def)
  have "no_abort (PoprfClient_finalize_batch E cl inputs states evs bls pf info)"
    using fit no_abort_verify [OF E, of "map evaluated_point evs" "map blinded_point bls"]
    by (auto simp: finalize_batch_spec [OF E] intro!: no_abort_rbind)
  moreover have "no_abort (PoprfClient_finalize E cl input st ev bl pf info)"
    using fit no_abort_verify [OF E, of "[evaluated_point ev]" "[blinded_point bl]"]
    by (auto simp: finalize_spec [OF E] intro!: no_abort_rbind)
  moreover have "no_abort (fst (PoprfServer_blind_evaluate E srv rng bl info))"
    using no_abort_batch_r [OF E, of "[bl]"] fit
    by (auto simp: single_draws r single_is_batch_r intro!: no_abort_rbind)
  moreover have "no_abort (fst (PoprfServer_blind_evaluate_batch E srv rng bls info))"
    using no_abort_batch_r [OF E fit(1)] by (simp add: batch_draws r)
  moreover have "no_abort (derive_key_pair E seed info)" "no_abort (PoprfServer_from_seed E seed info)"
    by (auto simp: PoprfServer_from_seed_def derive_key_pair_eq E env_lawsD Let_def
        intro!: no_abort_rbind split: option.splits)
  moreover have "no_abort (fst (PoprfServer_generate E rng))" "no_abort (fst (generate_key_pair E rng))"
    by (simp_all add: PoprfServer_generate_def generate_key_pair_def r Let_def)
  ultimately show ?thesis
    using no_abort_tables [OF E] no_abort_blind_scalar [OF E] no_abort_proof_scalar [OF E fit(1)]
    by (simp add: PoprfClient_blind_def blind_inner_spec E r evaluate_spec input_table_spec
        sk_codec.dec_no_abort pk_codec.dec_no_abort be_codec.dec_no_abort ee_codec.dec_no_abort
        out_codec.dec_no_abort proof_codec.whole.dec_no_abort bs_codec.whole.dec_no_abort)
qed

theorem api_never_aborts_witness:
  "no_abort (fst (PoprfServer_blind_evaluate_batch E3 srv3 1 [BlindedElement T1] [1])) \<and>
   no_abort (blind_with_scalar E3 cl3 [0] [1] [7]) \<and> no_abort (SecretKey_from_bytes E3 [7])"
  using api_never_aborts [of E3 1 "[BlindedElement T1]" cl3 "[0]" "[1]" "[7]" st3 "EvaluatedElement T1"
      "BlindedElement T1" pf3 "[[0]]" "[st3]" "[EvaluatedElement T1]" srv3 "[]" "[]" "[7]"]
  by simp

section \<open>Keys\<close>

text \<open>The sampling loop returns the first non-zero draw of the generator, with the generator left
  after it, and it loops for ever exactly when every draw is zero.\<close>

theorem random_scalar_exact:
  assumes "scalar_laws E"
  shows "random_scalar E rng =
    (if \<exists>n. fst (draw E rng n) \<noteq> Scalar_ZERO E
     then Some (draw E rng (LEAST n. fst (draw E rng n) \<noteq> Scalar_ZERO E)) else None)"
proof (cases "\<exists>n. fst (draw E rng n) \<noteq> Scalar_ZERO E")
  case True
  then have "fst (draw E rng (LEAST n. fst (draw E rng n) \<noteq> Scalar_ZERO E)) \<noteq> Scalar_ZERO E"
    by (rule LeastI_ex)
  moreover have "\<forall>m < (LEAST n. fst (draw E rng n) \<noteq> Scalar_ZERO E). fst (draw E rng m) = Scalar_ZERO E"
    using not_less_Least by blast
  ultimately show ?thesis using True random_scalar_first [OF assms] by simp
next
  case False
  then show ?thesis using random_scalar_returns_iff [OF assms, of rng] by (cases "random_scalar E rng") auto
qed

theorem random_scalar_exact_witness: "\<exists>n. random_scalar E3 0 = Some (draw E3 0 n)"
  using random_scalar_exact [of E3 0] by (auto simp: env_lawsD split: if_splits)

text \<open>C37: Derivation from a seed tries the counters 0 to 255 in order and returns the first non-zero
  candidate with its public key, which is not the identity; it fails exactly when \<open>info\<close> is too
  long or when all 256 candidates are zero.\<close>

theorem derive_key_pair_exact:
  fixes seed info :: bytes
  assumes E: "env_laws E"
  defines "zero \<equiv> \<lambda>n. scalar_is_zero E (hash_scalar E (seed @ lp info @ [word_of_nat n]) DERIVE_KEY_PAIR_DST)"
  shows "derive_key_pair E seed info =
      (if 65534 < length info then Fail InputTooLong
       else if \<forall>n < 256. zero n then Fail DeriveKeyPair
       else
         let n = (LEAST n. \<not> zero n);
             sk = SecretKey (hash_scalar E (seed @ lp info @ [word_of_nat n]) DERIVE_KEY_PAIR_DST) in
         Inr (sk, SecretKey_public_key E sk)) \<and>
    (\<forall>sk pk. derive_key_pair E seed info = Inr (sk, pk) \<longrightarrow>
       \<not> scalar_is_zero E (secret_scalar sk) \<and> \<not> is_identity E (public_point pk))"
proof
  show "derive_key_pair E seed info =
      (if 65534 < length info then Fail InputTooLong
       else if \<forall>n < 256. zero n then Fail DeriveKeyPair
       else
         let n = (LEAST n. \<not> zero n);
             sk = SecretKey (hash_scalar E (seed @ lp info @ [word_of_nat n]) DERIVE_KEY_PAIR_DST) in
         Inr (sk, SecretKey_public_key E sk))"
    unfolding derive_key_pair_eq [OF env_lawsD(4) [OF E]] zero_def derive_candidate_def find_upt
    by (auto simp: Let_def)
  show "\<forall>sk pk. derive_key_pair E seed info = Inr (sk, pk) \<longrightarrow>
       \<not> scalar_is_zero E (secret_scalar sk) \<and> \<not> is_identity E (public_point pk)"
    using derive_key_pair_valid [of E seed info] public_key_valid [of E] E
    by (auto simp: valid_secret_def valid_public_def)
qed

theorem derive_key_pair_exact_witness:
  "derive_key_pair E3 [1] [] = Inr (SecretKey T1, PublicKey T1)"
proof -
  let ?cand = "\<lambda>n. hash_scalar E3 ([1] @ lp [] @ [word_of_nat n]) DERIVE_KEY_PAIR_DST"
  have cands: "?cand 0 = T0" "?cand 1 = T1" by (simp_all add: toy_bytes)
  have least: "(LEAST n. \<not> scalar_is_zero E3 (?cand n)) = 1"
  proof (rule Least_equality)
    show "1 \<le> m" if "\<not> scalar_is_zero E3 (?cand m)" for m
      using that cands(1) by (cases m) simp_all
  qed (use cands(2) in simp)
  have one: "\<not> scalar_is_zero E3 (?cand 1)" unfolding cands by simp
  have "\<not> (\<forall>n < 256. scalar_is_zero E3 (?cand n))"
  proof
    assume "\<forall>n < 256. scalar_is_zero E3 (?cand n)"
    then have "scalar_is_zero E3 (?cand 1)" by (rule allE [of _ 1]) simp
    with one show False by contradiction
  qed
  with derive_key_pair_exact [of E3 "[1]" "[]", THEN conjunct1] show ?thesis
    unfolding least Let_def cands by (simp add: SecretKey_public_key_def)
qed

section \<open>Encodings, constants, debug output\<close>

text \<open>C38: The encodings of the fixed-size types are canonical. Each decoder accepts exactly the bytes
  its encoder writes for a valid value: a non-zero secret key, elements other than the
  identity, any proof, any blinding state whose tweaked key is not the identity, any 64 bytes
  of output; no value has two encodings.\<close>

theorem codecs_canonical:
  assumes "encoding_laws E"
  shows "(SecretKey_from_bytes E bs = Inr sk \<longleftrightarrow>
      \<not> scalar_is_zero E (secret_scalar sk) \<and> bs = SecretKey_to_bytes E sk) \<and>
    (PublicKey_from_bytes E bs = Inr pk \<longleftrightarrow>
      \<not> is_identity E (public_point pk) \<and> bs = PublicKey_to_bytes E pk) \<and>
    (BlindedElement_from_bytes E bs = Inr bl \<longleftrightarrow>
      \<not> is_identity E (blinded_point bl) \<and> bs = BlindedElement_to_bytes E bl) \<and>
    (EvaluatedElement_from_bytes E bs = Inr ev \<longleftrightarrow>
      \<not> is_identity E (evaluated_point ev) \<and> bs = EvaluatedElement_to_bytes E ev) \<and>
    (Proof_from_bytes E bs = Inr pf \<longleftrightarrow> bs = Proof_to_bytes E pf) \<and>
    (PoprfBlindState_from_bytes E bs = Inr st \<longleftrightarrow>
      \<not> is_identity E (bs_tweaked_key st) \<and> bs = PoprfBlindState_to_bytes E st) \<and>
    (PoprfOutput_from_bytes bs = Inr out \<longleftrightarrow>
      length (output_bytes out) = 64 \<and> bs = PoprfOutput_as_bytes out)"
  unfolding sk_codec.dec_iff [OF assms] pk_codec.dec_iff [OF assms] be_codec.dec_iff [OF assms]
    ee_codec.dec_iff [OF assms] proof_codec.whole.dec_iff [OF assms] bs_codec.whole.dec_iff [OF assms]
    out_codec.dec_iff [OF TrueI]
  by (auto simp: valid_secret_def valid_public_def valid_blinded_def valid_evaluated_def)

theorem codecs_canonical_witness:
  "Proof_from_bytes E3 (Proof_to_bytes E3 pf3) = Inr pf3"
  using codecs_canonical [of E3 "Proof_to_bytes E3 pf3" _ _ _ _ pf3] by (simp add: env_lawsD)

text \<open>A decoder rejects in exactly two ways: an input of the wrong length or outside the canonical
  encodings is a deserialisation error, and a canonical encoding of the one forbidden value,
  zero or the identity, is an input validation error. The lengths are 32, 64 and 64 bytes.\<close>

theorem decoders_reject:
  assumes E: "encoding_laws E"
  shows "(SecretKey_from_bytes E bs = Fail InputValidation \<longleftrightarrow>
      (\<exists>a. scalar_is_zero E a \<and> bs = Scalar_to_bytes E a)) \<and>
    (BlindedElement_from_bytes E bs = Fail InputValidation \<longleftrightarrow>
      (\<exists>P. is_identity E P \<and> bs = Point_compress E P)) \<and>
    (Proof_from_bytes E bs = Fail Deserialize \<longleftrightarrow>
      length bs \<noteq> 64 \<or> (\<nexists>c. take 32 bs = Scalar_to_bytes E c) \<or> (\<nexists>s. drop 32 bs = Scalar_to_bytes E s)) \<and>
    (length bs \<noteq> 64 \<longrightarrow> PoprfBlindState_from_bytes E bs = Fail Deserialize \<and>
      PoprfOutput_from_bytes bs = Fail Deserialize)"
proof (intro conjI)
  show "SecretKey_from_bytes E bs = Fail InputValidation \<longleftrightarrow>
      (\<exists>a. scalar_is_zero E a \<and> bs = Scalar_to_bytes E a)"
    using E by (auto simp: SecretKey_from_bytes_def rbind_eq_Inl_iff deserialize_scalar_spec
        scalar_is_zero_def decode_encode scalar_to_bytes_inj split: option.splits if_splits)
  show "BlindedElement_from_bytes E bs = Fail InputValidation \<longleftrightarrow>
      (\<exists>P. is_identity E P \<and> bs = Point_compress E P)"
    using E by (auto simp: BlindedElement_from_bytes_def rbind_eq_Inl_iff deserialize_element_spec
        decode_encode point_compress_inj split: option.splits if_splits)
  show "Proof_from_bytes E bs = Fail Deserialize \<longleftrightarrow>
      length bs \<noteq> 64 \<or> (\<nexists>c. take 32 bs = Scalar_to_bytes E c) \<or> (\<nexists>s. drop 32 bs = Scalar_to_bytes E s)"
    using E by (auto simp: Proof_from_bytes_def Proof_LEN_def SCALAR_LEN_def rbind_eq_Inl_iff
        deserialize_scalar_spec slice_to_def slice_from_def decode_encode split: option.splits if_splits)
  show "length bs \<noteq> 64 \<longrightarrow> PoprfBlindState_from_bytes E bs = Fail Deserialize \<and>
      PoprfOutput_from_bytes bs = Fail Deserialize"
    by (simp add: PoprfBlindState_from_bytes_def PoprfBlindState_LEN_def SCALAR_LEN_def ELEMENT_LEN_def
        PoprfOutput_from_bytes_def PoprfOutput_LEN_def HASH_LEN_def)
qed

theorem decoders_reject_witness:
  "SecretKey_from_bytes E3 (tri_encode T0) = Fail InputValidation"
  using decoders_reject [of E3 "tri_encode T0"] by (auto simp: env_lawsD)

text \<open>The hash domains are separated. The four tags are the protocol's context string behind
  their purpose, no two are equal, and each has between 1 and 255 bytes, the range in which the
  expansion cannot fail.\<close>

theorem domains_separated:
  "HASH_TO_GROUP_DST = ascii ''HashToGroup-'' @ CONTEXT_STRING \<and>
   HASH_TO_SCALAR_DST = ascii ''HashToScalar-'' @ CONTEXT_STRING \<and>
   DERIVE_KEY_PAIR_DST = ascii ''DeriveKeyPair'' @ CONTEXT_STRING \<and>
   SEED_DST = ascii ''Seed-'' @ CONTEXT_STRING \<and>
   CONTEXT_STRING = ascii ''OPRFV1-'' @ [MODE_POPRF] @ ascii ''-'' @ SUITE_ID \<and>
   distinct [HASH_TO_GROUP_DST, HASH_TO_SCALAR_DST, DERIVE_KEY_PAIR_DST, SEED_DST] \<and>
   list_all (\<lambda>d. 1 \<le> length d \<and> length d \<le> 255)
     [HASH_TO_GROUP_DST, HASH_TO_SCALAR_DST, DERIVE_KEY_PAIR_DST, SEED_DST]"
proof -
  have "HASH_TO_SCALAR_DST \<noteq> DERIVE_KEY_PAIR_DST"
    by (simp add: HASH_TO_SCALAR_DST_def DERIVE_KEY_PAIR_DST_def ascii_simps)
  moreover have "distinct (map length [HASH_TO_GROUP_DST, HASH_TO_SCALAR_DST, SEED_DST])"
    "distinct (map length [HASH_TO_GROUP_DST, DERIVE_KEY_PAIR_DST, SEED_DST])" by simp_all
  ultimately have "distinct [HASH_TO_GROUP_DST, HASH_TO_SCALAR_DST, DERIVE_KEY_PAIR_DST, SEED_DST]"
    by (auto simp del: length_dsts)
  then show ?thesis
    by (simp add: HASH_TO_GROUP_DST_def HASH_TO_SCALAR_DST_def DERIVE_KEY_PAIR_DST_def SEED_DST_def
        CONTEXT_STRING_def MODE_POPRF_def SUITE_ID_def ascii_simps)
qed

text \<open>Debug output shows no secret: what the formatters print for a secret key, a server, a
  blinding state or an output is the same for any other with the same public part, and a
  pre-hashed input prints its length only.\<close>

lemma debug_redacts:
  "SecretKey_fmt sk = SecretKey_fmt sk' \<and>
   (PoprfServer_public_key E srv = PoprfServer_public_key E srv' \<longrightarrow>
      PoprfServer_fmt E srv = PoprfServer_fmt E srv') \<and>
   PoprfBlindState_fmt E \<lparr>bs_blind = b, bs_tweaked_key = k\<rparr> =
     PoprfBlindState_fmt E \<lparr>bs_blind = b', bs_tweaked_key = k\<rparr> \<and>
   PoprfOutput_fmt out = PoprfOutput_fmt out' \<and>
   (it_input_len tb = it_input_len tb' \<longrightarrow> PoprfInputTable_fmt tb = PoprfInputTable_fmt tb')"
  by (simp add: SecretKey_fmt_def PoprfServer_fmt_def PoprfBlindState_fmt_def PoprfOutput_fmt_def
      PoprfInputTable_fmt_def)

end
