(* ===== verification/Well_Formed.thy ===== *)
theory Well_Formed
  imports Protocol
begin

text \<open>
  What is true of every value that a caller can obtain from the operations of the crate,
  whatever they are given: keys and blinds are not zero, elements are not the identity, outputs
  have the length of the hash. The Rust types carry these facts only through their private fields.
\<close>

section \<open>Well-formed results\<close>

definition yields :: "('a \<Rightarrow> bool) \<Rightarrow> 'a res \<Rightarrow> bool" where
  "yields P r = (case r of Inr x \<Rightarrow> P x | Inl _ \<Rightarrow> True)"

lemma yields_simps [simp]:
  "yields P (Inr x) \<longleftrightarrow> P x"
  "yields P (Inl f)"
  "yields P (rbind m g) \<longleftrightarrow> (\<forall>x. m = Inr x \<longrightarrow> yields P (g x))"
  by (simp_all add: yields_def, cases m, simp_all)

lemma yields_iff: "yields P r \<longleftrightarrow> (\<forall>x. r = Inr x \<longrightarrow> P x)"
  by (cases r) simp_all

lemma yields_mono: "yields P r \<Longrightarrow> (\<And>x. P x \<Longrightarrow> Q x) \<Longrightarrow> yields Q r"
  by (cases r) simp_all

lemma yields_rmap: "(\<And>x. yields P (f x)) \<Longrightarrow> yields (list_all P) (rmap f xs)"
  by (induction xs) (auto simp: yields_iff rbind_eq_Inr_iff)

definition valid_state :: "('s, 'p, 't, 'h, 'r) env \<Rightarrow> ('s, 'p) PoprfBlindState \<Rightarrow> bool" where
  "valid_state E st \<longleftrightarrow> \<not> scalar_is_zero E (bs_blind st) \<and> \<not> is_identity E (bs_tweaked_key st)"

definition valid_output :: "PoprfOutput \<Rightarrow> bool" where
  "valid_output out \<longleftrightarrow> length (output_bytes out) = HASH_LEN"

lemma generated_server:
  "yields (\<lambda>srv. valid_secret E (server_sk srv)) (fst (PoprfServer_generate E rng))"
  by (auto simp: PoprfServer_generate_def PoprfServer_new_def dest: generate_key_pair_valid split: prod.splits)

lemma derived_server:
  "yields (\<lambda>srv. valid_secret E (server_sk srv)) (PoprfServer_from_seed E seed info)"
  by (auto simp: PoprfServer_from_seed_def PoprfServer_new_def dest: derive_key_pair_valid)

lemma blinding:
  assumes "env_laws E"
  shows "yields (\<lambda>(st, bl). valid_state E st \<and> valid_blinded E bl) (fst (PoprfClient_blind E cl input info rng))"
proof -
  obtain r rng' where call: "PoprfClient_blind E cl input info rng = (r, rng')" by fastforce
  have "valid_state E st \<and> valid_blinded E bl" if r: "r = Inr (st, bl)" for st bl
  proof -
    note run = call [unfolded r]
    have "\<not> is_identity E (client_key E cl info)"
      using run assms by (auto simp: PoprfClient_blind_def blind_inner_spec split: option.splits if_splits)
    then show ?thesis
      using blind_drawn [OF assms run] blinded_not_identity [OF assms run]
      by (simp add: valid_state_def valid_blinded_def)
  qed
  then show ?thesis by (auto simp: yields_iff call)
qed

lemma evaluations:
  assumes "env_laws E"
  shows "yields (\<lambda>(ev, pf). valid_evaluated E ev) (fst (PoprfServer_blind_evaluate E srv rng bl info))"
    and "yields (\<lambda>(evs, pf). list_all (valid_evaluated E) evs)
      (fst (PoprfServer_blind_evaluate_batch E srv rng bls info))"
proof -
  show "yields (\<lambda>(ev, pf). valid_evaluated E ev) (fst (PoprfServer_blind_evaluate E srv rng bl info))"
  proof (cases "PoprfServer_blind_evaluate E srv rng bl info")
    case (Pair r rng')
    then have "valid_evaluated E ev" if "r = Inr (ev, pf)" for ev pf
      using that single_call_evaluated [of E srv rng bl info ev pf rng'] evaluations_valid [OF assms, of srv "[bl]" info] by fastforce
    then show ?thesis by (auto simp: yields_iff Pair)
  qed
  show "yields (\<lambda>(evs, pf). list_all (valid_evaluated E) evs)
      (fst (PoprfServer_blind_evaluate_batch E srv rng bls info))"
  proof (cases "PoprfServer_blind_evaluate_batch E srv rng bls info")
    case (Pair r rng')
    then have "list_all (valid_evaluated E) evs" if "r = Inr (evs, pf)" for evs pf
      using that batch_call_evaluated [of E srv rng bls info evs pf rng'] evaluations_valid [OF assms, of srv bls info]
      by (fastforce simp: list_all_iff)
    then show ?thesis by (auto simp: yields_iff Pair)
  qed
qed

lemma hashed: "env_laws E \<Longrightarrow> yields valid_output (finalize_from E h info unblinded)"
  by (auto simp: finalize_from_def valid_output_def HASH_LEN_def env_lawsD Let_def)

lemma outputs:
  assumes "env_laws E"
  shows "yields valid_output (PoprfServer_evaluate E srv input info)"
    and "yields (list_all valid_output) (PoprfServer_evaluate_tables E srv tables info)"
    and "yields valid_output (PoprfClient_finalize E cl input st ev bl pf info)"
    and "yields (list_all valid_output) (PoprfClient_finalize_batch E cl inputs sts evs bls pf info)"
  using hashed [OF assms]
  by (auto simp: PoprfServer_evaluate_def PoprfServer_evaluate_tables_def PoprfClient_finalize_def
      PoprfClient_finalize_batch_def unblind_and_hash_def finalize_hash_def Let_def intro!: yields_rmap
      split: list.splits)

section \<open>Property\<close>

text \<open>C18: Every value the crate gives out is well-formed. Whatever the arguments, a server that is
  generated or derived has a non-zero key, and a valid key has a public key that is not the identity;
  blinding yields a non-zero blind, a tweaked key and an element that are not the identity; the evaluated
  elements are not the identity; every output has the length of the hash.\<close>

theorem values_well_formed:
  assumes "env_laws E"
  shows "yields (\<lambda>srv. valid_secret E (server_sk srv) \<and> valid_public E (PoprfServer_public_key E srv))
      (fst (PoprfServer_generate E rng)) \<and>
    yields (\<lambda>srv. valid_secret E (server_sk srv) \<and> valid_public E (PoprfServer_public_key E srv))
      (PoprfServer_from_seed E seed info) \<and>
    yields (\<lambda>(st, bl). valid_state E st \<and> valid_blinded E bl) (fst (PoprfClient_blind E cl input info rng)) \<and>
    yields (\<lambda>(ev, pf). valid_evaluated E ev) (fst (PoprfServer_blind_evaluate E srv rng bl info)) \<and>
    yields (\<lambda>(evs, pf). list_all (valid_evaluated E) evs)
      (fst (PoprfServer_blind_evaluate_batch E srv rng bls info)) \<and>
    yields valid_output (PoprfServer_evaluate E srv input info) \<and>
    yields (list_all valid_output) (PoprfServer_evaluate_tables E srv tables info) \<and>
    yields valid_output (PoprfClient_finalize E cl input st ev bl pf info) \<and>
    yields (list_all valid_output) (PoprfClient_finalize_batch E cl inputs sts evs bls pf info)"
proof -
  have pk: "valid_secret E (server_sk srv) \<and> valid_public E (PoprfServer_public_key E srv)"
    if "valid_secret E (server_sk srv)" for srv
    using public_key_valid [OF _ that] that assms by (simp add: PoprfServer_public_key_def)
  note keys = yields_mono [OF generated_server pk] yields_mono [OF derived_server pk]
  show ?thesis
    by (intro conjI keys evaluations outputs blinding assms)
qed

theorem values_well_formed_witness:
  "valid_state E3 st3 \<and> valid_blinded E3 (BlindedElement T1) \<and> valid_evaluated E3 (EvaluatedElement T1)"
  using values_well_formed [of E3 0 "[]" "[1]" cl3 "[0]" srv3 "BlindedElement T1" "[]" "[]" st3 "EvaluatedElement T1" pf3 "[]" "[]" "[]"]
    values_well_formed [of E3 1 "[]" "[1]" cl3 "[0]" srv3 "BlindedElement T1" "[]" "[]" st3 "EvaluatedElement T1" pf3 "[]" "[]" "[]"]
  by (simp add: toy_blind toy_blind_evaluate del: One_nat_def)

end
