(* ===== verification/Integrity.thy ===== *)
theory Integrity
  imports Protocol Dleq_Properties
begin

text \<open>
  What an accepted answer means when the server, or whoever answers in its place, is not
  honest: the elements and the proof are arbitrary. Two events are named that such an answer
  has to meet, both of which fix the output of a hash the code computes.
\<close>

text \<open>The weights of the batch cancel: some entry is wrong, but the composites stand in the claimed
  relation.\<close>

definition weights_cancel :: "('s, 'p, 't, 'h, 'r) env \<Rightarrow> 's \<Rightarrow> 'p \<Rightarrow> 'p list \<Rightarrow> 'p list \<Rightarrow> bool" where
  "weights_cancel E k b cs ds \<longleftrightarrow> ds \<noteq> map (scalar_mul E k) cs \<and>
     (\<exists>m. compute_composites E b cs ds = Inr (m, scalar_mul E k m))"

text \<open>The challenge is hit: the composites stand in no relation, and the hash of the transcript is
  the one challenge that the commitments in it can meet.\<close>

definition challenge_hit :: "('s, 'p, 't, 'h, 'r) env \<Rightarrow> 'p \<Rightarrow> 'p \<Rightarrow> 'p list \<Rightarrow> 'p list \<Rightarrow> 's Proof \<Rightarrow> bool" where
  "challenge_hit E a b cs ds pf \<longleftrightarrow> (\<exists>m z t2 t3. compute_composites E b cs ds = Inr (m, z) \<and>
     (\<nexists>k. b = scalar_mul E k a \<and> z = scalar_mul E k m) \<and>
     verify_commitments E a b m z pf = (t2, t3) \<and> dleq_challenge E b m z t2 t3 = proof_c pf \<and>
     (\<forall>c s. verify_commitments E a b m z \<lparr>proof_c = c, proof_s = s\<rparr> = (t2, t3) \<longrightarrow> c = proof_c pf))"

lemma accepted_statement:
  assumes E: "env_laws E" and len: "length cs = length ds" and acc: "verify_proof E a b cs ds pf = Inr ()"
  shows "(\<exists>k. b = scalar_mul E k a \<and> (\<exists>m. compute_composites E b cs ds = Inr (m, scalar_mul E k m))) \<or>
    challenge_hit E a b cs ds pf"
proof -
  have fits: "batch_fits E (length cs)" using acc by (auto simp: verify_spec [OF E len] split: if_splits)
  obtain m z where mz: "compute_composites E b cs ds = Inr (m, z)"
    and m: "m = gp.wsum E (zip (dleq_weights E b cs ds) cs)" and z: "z = gp.wsum E (zip (dleq_weights E b cs ds) ds)"
    using composites_spec [OF E fits len] by blast
  obtain t2 t3 where t: "verify_commitments E a b m z pf = (t2, t3)" by fastforce
  have chal: "dleq_challenge E b m z t2 t3 = proof_c pf"
    using acc t fits by (auto simp: verify_spec [OF E len] Let_def simp flip: m z split: if_splits)
  show ?thesis
  proof (cases "\<exists>k. b = scalar_mul E k a \<and> z = scalar_mul E k m")
    case True
    with mz show ?thesis by auto
  next
    case False
    have "c = proof_c pf" if "verify_commitments E a b m z \<lparr>proof_c = c, proof_s = s\<rparr> = (t2, t3)" for c s
    proof (rule ccontr)
      assume ne: "c \<noteq> proof_c pf"
      have "element_add E (scalar_mul E s a) (scalar_mul E c b) =
          element_add E (scalar_mul E (proof_s pf) a) (scalar_mul E (proof_c pf) b)"
        "element_add E (scalar_mul E s m) (scalar_mul E c z) =
          element_add E (scalar_mul E (proof_s pf) m) (scalar_mul E (proof_c pf) z)"
        using that t by (simp_all add: commitments_eq)
      with gp.dleq_extract [OF group_okI [OF E] ne] False show False by metis
    qed
    with mz t chal False show ?thesis unfolding challenge_hit_def by blast
  qed
qed

text \<open>What the checks of the batched finalisation establish.\<close>

lemma finalize_batch_accepted:
  assumes E: "env_laws E" and bb: "blinded_batch E (client_of E srv) info inputs states bls"
    and fin: "PoprfClient_finalize_batch E (client_of E srv) inputs states evs bls pf info = Inr outs"
  shows "bls \<noteq> []" and "length evs = length bls" and "length info \<le> 65534"
    and "\<not> scalar_is_zero E (server_t E srv info)"
    and "verify_proof E (generator E) (scalar_mul E (server_t E srv info) (generator E))
      (map evaluated_point evs) (map blinded_point bls) pf = Inr ()"
proof -
  have len: "length states = length inputs" "length bls = length inputs"
    using bb by (simp_all add: blinded_batch_def)
  have ne: "inputs \<noteq> []" and "length evs = length inputs"
    using fin by (auto simp: finalize_batch_spec [OF E] split: if_splits)
  then show "bls \<noteq> []" and "length evs = length bls" using len by auto
  show "length info \<le> 65534" using fin by (auto simp: finalize_batch_spec [OF E] split: if_splits)
  have "hd states \<in> set states" using ne len by (cases states) auto
  then have key: "bs_tweaked_key (hd states) = scalar_mul E (server_t E srv info) (generator E)"
    using blinded_batch_keys(1) [OF E bb] client_key_eq [OF E] by simp
  then show "verify_proof E (generator E) (scalar_mul E (server_t E srv info) (generator E))
      (map evaluated_point evs) (map blinded_point bls) pf = Inr ()"
    using fin by (auto simp: finalize_batch_spec [OF E] rbind_eq_Inr_iff split: if_splits)
  show "\<not> scalar_is_zero E (server_t E srv info)" by (rule blinded_batch_tweak(2) [OF E bb ne])
qed

text \<open>Why an accepted answer is right.\<close>

lemma accepted_outputs:
  assumes E: "env_laws E" and bb: "blinded_batch E (client_of E srv) info inputs states bls"
    and fin: "PoprfClient_finalize_batch E (client_of E srv) inputs states evs bls pf info = Inr outs"
  defines "key \<equiv> scalar_mul E (server_t E srv info) (generator E)"
  shows "rmap (\<lambda>x. PoprfServer_evaluate E srv x info) inputs = Inr outs \<or>
    weights_cancel E (server_t E srv info) key (map evaluated_point evs) (map blinded_point bls) \<or>
    challenge_hit E (generator E) key (map evaluated_point evs) (map blinded_point bls) pf"
proof -
  let ?t = "server_t E srv info" and ?cs = "map evaluated_point evs" and ?ds = "map blinded_point bls"
  note acc = finalize_batch_accepted [OF E bb fin]
  have ok: "group_ok E" using E by simp
  show ?thesis
  proof (cases "?ds = map (scalar_mul E ?t) ?cs")
    case True
    have "evs ! i = EvaluatedElement (scalar_mul E (scalar_invert E ?t) (blinded_point (bls ! i)))" if "i < length bls" for i
    proof -
      have "blinded_point (bls ! i) = scalar_mul E ?t (evaluated_point (evs ! i))"
        using arg_cong [OF True, of "\<lambda>l. l ! i"] that acc(2) by simp
      then show ?thesis using gp.pmul_inv [OF ok acc(4)] by (cases "evs ! i") simp
    qed
    then have "evs = map (\<lambda>b. EvaluatedElement (scalar_mul E (scalar_invert E ?t) (blinded_point b))) bls"
      using acc(2) by (intro nth_equalityI) simp_all
    from correct_answers_finalize [OF E bb acc(1,3) this acc(5)] show ?thesis
      using fin batch_entries_evaluate [OF E bb acc(4)] by simp
  next
    case False
    have "k = ?t" if "key = scalar_mul E k (generator E)" for k
      using that gp.pmul_inj [OF ok gp.gen_not_pid [OF ok]] by (simp add: key_def)
    then show ?thesis
      using accepted_statement [OF E _ acc(5)] acc(2) False
      by (auto simp: weights_cancel_def simp flip: key_def)
  qed
qed

text \<open>C3: An accepted answer is the right one. Let a client blind a batch under a server's public key,
  and let anyone answer with any elements and any proof. If the client accepts, then its outputs
  are those of the server's own evaluation, or a hash was met: the weights of the batch cancelled
  a wrong entry, or the challenge of a false statement was the single one its commitments allow.\<close>

theorem accepted_outputs_correct:
  assumes E: "env_laws E" and bb: "blinded_batch E (client_of E srv) info inputs states bls"
    and fin: "PoprfClient_finalize_batch E (client_of E srv) inputs states evs bls pf info = Inr outs"
  defines "key \<equiv> scalar_mul E (server_t E srv info) (generator E)"
  shows "rmap (\<lambda>x. PoprfServer_evaluate E srv x info) inputs = Inr outs \<or>
    weights_cancel E (server_t E srv info) key (map evaluated_point evs) (map blinded_point bls) \<or>
    challenge_hit E (generator E) key (map evaluated_point evs) (map blinded_point bls) pf"
  unfolding key_def by (rule accepted_outputs [OF E bb fin])

theorem accepted_outputs_correct_witness:
  "rmap (\<lambda>x. PoprfServer_evaluate E3 srv3 x [1]) [[0], [0]] = Inr [poprf E3 srv3 [0] [1], poprf E3 srv3 [0] [1]] \<or>
    weights_cancel E3 T1 T1 [T1, T1] [T1, T1] \<or> challenge_hit E3 T1 T1 [T1, T1] [T1, T1] pf3"
proof -
  obtain r where "blind_evaluate_batch_with_r_inner E3 srv3 [BlindedElement T1, BlindedElement T1] [1] r =
      Inr ([EvaluatedElement T1, EvaluatedElement T1], pf3)"
    using batch_call_evaluated [OF toy_blind_evaluate_batch] by blast
  note fin = batch_finalized [OF toy_laws toy_blinded_batch this]
  have "server_t E3 srv3 [1] = T1" by (simp add: toy_run toy_bytes)
  with accepted_outputs_correct [OF toy_laws toy_blinded_batch fin] show ?thesis by simp
qed

section \<open>Parties that do not agree\<close>

text \<open>The strings that the prover and the verifier hash to the challenge.\<close>

definition prover_transcript :: "('s, 'p, 't, 'h, 'r) env \<Rightarrow> 's \<Rightarrow> 'p \<Rightarrow> 'p \<Rightarrow> 'p list \<Rightarrow> 'p list \<Rightarrow> 's \<Rightarrow> bytes res" where
  "prover_transcript E k a b cs ds r = rbind (compute_composites_fast E k b cs ds) (\<lambda>(m, z).
     challenge_transcript E b m z (scalar_mul E r a) (scalar_mul E r m))"

definition verifier_transcript :: "('s, 'p, 't, 'h, 'r) env \<Rightarrow> 'p \<Rightarrow> 'p \<Rightarrow> 'p list \<Rightarrow> 'p list \<Rightarrow> 's Proof \<Rightarrow> bytes res" where
  "verifier_transcript E a b cs ds pf = rbind (compute_composites E b cs ds) (\<lambda>(m, z).
     case verify_commitments E a b m z pf of (t2, t3) \<Rightarrow> challenge_transcript E b m z t2 t3)"

text \<open>C11: Parties that do not agree are told so. Let a server evaluate a batch under another tweaked
  key than the client's, because the \<open>info\<close> values or the public keys differ. Then the client
  rejects the answer with a verification error, unless the transcript the server hashed and the one the
  client hashes are different strings with the same hash to a scalar.\<close>

theorem mismatch_rejected:
  assumes E: "env_laws E" and bb: "blinded_batch E cl info inputs states bls"
    and ev: "blind_evaluate_batch_with_r_inner E srv bls info' r = Inr (evs, pf)"
    and len: "length info \<le> 65534"
    and differ: "client_key E cl info \<noteq> scalar_mul E (server_t E srv info') (generator E)"
  defines "x \<equiv> prover_transcript E (server_t E srv info') (generator E)
      (scalar_mul E (server_t E srv info') (generator E)) (map evaluated_point evs) (map blinded_point bls) r"
    and "y \<equiv> verifier_transcript E (generator E) (client_key E cl info) (map evaluated_point evs)
      (map blinded_point bls) pf"
  shows "PoprfClient_finalize_batch E cl inputs states evs bls pf info = Fail Verify \<or>
    (\<exists>u v. x = Inr u \<and> y = Inr v \<and> u \<noteq> v \<and>
       hash_to_scalar E [u] HASH_TO_SCALAR_DST = hash_to_scalar E [v] HASH_TO_SCALAR_DST)"
proof -
  let ?t = "server_t E srv info'" and ?cs = "map evaluated_point evs" and ?ds = "map blinded_point bls"
  note answer = batch_evaluated [OF E ev]
  have gen: "generate_proof_with_r E ?t (generator E) (scalar_mul E ?t (generator E)) ?cs ?ds r = Inr pf"
    using ev E answer by (auto simp: batch_r_spec rbind_eq_Inr_iff Let_def comp_def split: if_splits)
  have l: "length ?cs = length ?ds" by (simp add: answer(4))
  have fits: "batch_fits E (length ?cs)" using gen by (auto simp: generate_spec [OF E l] split: if_splits)
  show ?thesis
  proof (cases "verify_proof E (generator E) (client_key E cl info) ?cs ?ds pf")
    case (Inr u)
    obtain m z where mz: "compute_composites_fast E ?t (scalar_mul E ?t (generator E)) ?cs ?ds = Inr (m, z)"
      using composites_fast_spec [OF E fits l] by (auto simp: Let_def)
    obtain m' z' where mz': "compute_composites E (client_key E cl info) ?cs ?ds = Inr (m', z')"
      using composites_spec [OF E fits l] by blast
    obtain t2 t3 where t: "verify_commitments E (generator E) (client_key E cl info) m' z' pf = (t2, t3)" by fastforce
    have acc: "verify_proof E (generator E) (client_key E cl info) ?cs ?ds pf = Inr ()" using Inr by simp
    show ?thesis
      using proof_binds_statement [OF E l l gen acc mz mz'] differ
      by (auto simp: x_def y_def prover_transcript_def verifier_transcript_def mz mz' t challenge_transcript_spec [OF E])
  next
    case (Inl f)
    have "f = Err Verify" using Inl fits by (auto simp: verify_spec [OF E l] Let_def split: if_splits prod.splits)
    then have "verify_proof E (generator E) (client_key E cl info) ?cs ?ds pf = Fail Verify" using Inl by simp
    moreover note blinded_batch_keys [OF E bb]
    moreover have "length states = length inputs" "length bls = length inputs" "length evs = length inputs" 
      using bb answer(4) by (simp_all add: blinded_batch_def)
    moreover have "inputs \<noteq> []" using answer(1) calculation by auto
    ultimately show ?thesis using len
      by (cases states) (auto simp: finalize_batch_spec [OF E])
  qed
qed

theorem mismatch_rejected_witness:
  "PoprfClient_finalize_batch E3 cl3 [[0], [0]] [st3, st3] [EvaluatedElement T2, EvaluatedElement T2]
     [BlindedElement T1, BlindedElement T1] \<lparr>proof_c = T2, proof_s = T1\<rparr> [1] = Fail Verify \<or>
   (\<exists>u v. u \<noteq> v \<and> hash_to_scalar E3 [u] HASH_TO_SCALAR_DST = hash_to_scalar E3 [v] HASH_TO_SCALAR_DST)"
proof -
  have "blind_evaluate_batch_with_r_inner E3 srv3 [BlindedElement T1, BlindedElement T1] [2] T2 =
      Inr ([EvaluatedElement T2, EvaluatedElement T2], \<lparr>proof_c = T2, proof_s = T1\<rparr>)"
    by (simp add: batch_r_spec toy_run toy_bytes)
  from mismatch_rejected [OF toy_laws toy_blinded_batch this] show ?thesis
    by (simp add: toy_run toy_bytes) blast
qed

end
