(* ===== verification/Issuance.thy ===== *)
theory Issuance
  imports Integrity
begin

text \<open>
  The protocol of \<open>poprf.rs\<close> in use: one server, any number of sessions of its clients, and a
  network that nobody trusts. A session collects blinded inputs under one \<open>info\<close>; the server answers whatever
  it is sent; what reaches a session as an answer is up to the network. Steps interleave freely, calls
  can fail and be repeated. The invariant is that an open session stays one the server's answer
  completes, whatever happened before; what an accepted answer of anyone else is worth is the
  subject of Integrity.
\<close>

section \<open>The state and its steps\<close>

record ('s, 'p) session =
  ses_info :: bytes
  ses_inputs :: "bytes list"
  ses_states :: "('s, 'p) PoprfBlindState list"
  ses_blinded :: "'p BlindedElement list"

text \<open>An output that a client has accepted, with the session and the answer that led to it.\<close>

record ('s, 'p) completion =
  com_session :: "('s, 'p) session"
  com_evaluated :: "'p EvaluatedElement list"
  com_proof :: "'s Proof"
  com_outputs :: "PoprfOutput list"

record ('s, 'p, 'r) issuance =
  sessions :: "nat \<rightharpoonup> ('s, 'p) session"
  completed :: "('s, 'p) completion list"
  answers :: "('p EvaluatedElement list \<times> 's Proof) list"
  client_rng :: 'r
  server_rng :: 'r

definition new_session :: "bytes \<Rightarrow> ('s, 'p) session" where
  "new_session info = \<lparr>ses_info = info, ses_inputs = [], ses_states = [], ses_blinded = []\<rparr>"

definition add_entry :: "bytes \<Rightarrow> ('s, 'p) PoprfBlindState \<Rightarrow> 'p BlindedElement \<Rightarrow> ('s, 'p) session \<Rightarrow>
    ('s, 'p) session" where
  "add_entry x st bl s = s\<lparr>ses_inputs := ses_inputs s @ [x], ses_states := ses_states s @ [st],
     ses_blinded := ses_blinded s @ [bl]\<rparr>"

definition finish :: "('s, 'p, 't, 'h, 'r) env \<Rightarrow> 's PoprfServer \<Rightarrow> ('s, 'p) session \<Rightarrow>
    'p EvaluatedElement list \<Rightarrow> 's Proof \<Rightarrow> PoprfOutput list res" where
  "finish E srv s evs pf =
     PoprfClient_finalize_batch E (client_of E srv) (ses_inputs s) (ses_states s) evs (ses_blinded s) pf (ses_info s)"

text \<open>The state after an answer of the server, and after a session has accepted an answer.\<close>

definition answered :: "'p EvaluatedElement list \<times> 's Proof \<Rightarrow> 'r \<Rightarrow> ('s, 'p, 'r) issuance \<Rightarrow> ('s, 'p, 'r) issuance" where
  "answered a rng S = S\<lparr>answers := a # answers S, server_rng := rng\<rparr>"

definition delivered :: "nat \<Rightarrow> ('s, 'p) session \<Rightarrow> 'p EvaluatedElement list \<times> 's Proof \<Rightarrow> PoprfOutput list \<Rightarrow>
    ('s, 'p, 'r) issuance \<Rightarrow> ('s, 'p, 'r) issuance" where
  "delivered n s a outs S = S\<lparr>sessions := (sessions S)(n := None),
     completed := \<lparr>com_session = s, com_evaluated = fst a, com_proof = snd a, com_outputs = outs\<rparr> # completed S\<rparr>"

text \<open>
  \<open>sends\<close> is a blinding call that succeeds or fails, \<open>serves\<close> and \<open>serve_fails\<close> a call of the server on elements and an \<open>info\<close> of anyone's choice,
  \<open>accepts\<close> and \<open>rejects\<close> the finalisation of a session with elements and a proof of anyone's choice.
\<close>

inductive issues :: "('s, 'p, 't, 'h, 'r) env \<Rightarrow> 's PoprfServer \<Rightarrow> ('s, 'p, 'r) issuance \<Rightarrow>
    ('s, 'p, 'r) issuance \<Rightarrow> bool" for E srv where
  opens: "sessions S n = None \<Longrightarrow> issues E srv S (S\<lparr>sessions := (sessions S)(n \<mapsto> new_session info)\<rparr>)"
| sends: "sessions S n = Some s \<Longrightarrow>
    PoprfClient_blind E (client_of E srv) x (ses_info s) (client_rng S) = (Inr (st, bl), rng) \<Longrightarrow>
    issues E srv S (S\<lparr>sessions := (sessions S)(n \<mapsto> add_entry x st bl s), client_rng := rng\<rparr>)"
| send_fails: "PoprfClient_blind E (client_of E srv) x info (client_rng S) = (Inl f, rng) \<Longrightarrow>
    issues E srv S (S\<lparr>client_rng := rng\<rparr>)"
| serves: "PoprfServer_blind_evaluate_batch E srv (server_rng S) bls info = (Inr a, rng) \<Longrightarrow>
    issues E srv S (answered a rng S)"
| serve_fails: "PoprfServer_blind_evaluate_batch E srv (server_rng S) bls info = (Inl f, rng) \<Longrightarrow>
    issues E srv S (S\<lparr>server_rng := rng\<rparr>)"
| accepts: "sessions S n = Some s \<Longrightarrow> finish E srv s evs pf = Inr outs \<Longrightarrow>
    issues E srv S (delivered n s (evs, pf) outs S)"
| rejects: "sessions S n = Some s \<Longrightarrow> finish E srv s evs pf = Inl f \<Longrightarrow> issues E srv S S"
| drops: "issues E srv S (S\<lparr>sessions := (sessions S)(n := None)\<rparr>)"

definition issuance_start :: "('s, 'p, 'r) issuance \<Rightarrow> bool" where
  "issuance_start S \<longleftrightarrow> sessions S = Map.empty \<and> completed S = []"

abbreviation reaches :: "('s, 'p, 't, 'h, 'r) env \<Rightarrow> 's PoprfServer \<Rightarrow> ('s, 'p, 'r) issuance \<Rightarrow>
    ('s, 'p, 'r) issuance \<Rightarrow> bool" where
  "reaches E srv \<equiv> (issues E srv)\<^sup>*\<^sup>*"

section \<open>The invariant\<close>

definition session_ok :: "('s, 'p, 't, 'h, 'r) env \<Rightarrow> 's PoprfServer \<Rightarrow> ('s, 'p) session \<Rightarrow> bool" where
  "session_ok E srv s \<longleftrightarrow>
     blinded_batch E (client_of E srv) (ses_info s) (ses_inputs s) (ses_states s) (ses_blinded s)"

definition issuance_inv :: "('s, 'p, 't, 'h, 'r) env \<Rightarrow> 's PoprfServer \<Rightarrow> ('s, 'p, 'r) issuance \<Rightarrow> bool" where
  "issuance_inv E srv S \<longleftrightarrow> (\<forall>n s. sessions S n = Some s \<longrightarrow> session_ok E srv s)"

lemma session_ok_new: "session_ok E srv (new_session info)"
  by (simp add: session_ok_def new_session_def blinded_batch_def)

lemma session_ok_add:
  assumes "session_ok E srv s"
    and "PoprfClient_blind E (client_of E srv) x (ses_info s) rng = (Inr (st, bl), rng')"
  shows "session_ok E srv (add_entry x st bl s)"
  using assms by (auto simp: session_ok_def add_entry_def blinded_batch_def nth_append less_Suc_eq)

lemma start_inv_issuance: "issuance_start S \<Longrightarrow> issuance_inv E srv S"
  by (simp add: issuance_start_def issuance_inv_def)

lemma open_session_ok: "issuance_inv E srv S \<Longrightarrow> sessions S n = Some s \<Longrightarrow> session_ok E srv s"
  by (simp add: issuance_inv_def)

lemma issues_keeps:
  assumes "issues E srv S S'" and inv: "issuance_inv E srv S"
  shows "issuance_inv E srv S'"
  using assms(1)
proof (cases rule: issues.cases)
  case (sends n s x st bl rng)
  with session_ok_add [OF open_session_ok [OF inv sends(2)] sends(3)] inv show ?thesis
    by (auto simp: issuance_inv_def)
qed (use inv in \<open>auto simp: issuance_inv_def session_ok_new answered_def delivered_def\<close>)

lemma reaches_inv: "reaches E srv S S' \<Longrightarrow> issuance_start S \<Longrightarrow> issuance_inv E srv S'"
  by (induction rule: rtranclp_induct) (auto intro: issues_keeps start_inv_issuance)

section \<open>Properties\<close>

text \<open>C4: Nothing the network or a failing call does can spoil a session. In every reachable state each
  open session that has inputs is as good as new. The server's evaluations of its inputs exist,
  and every answer the server gives to the elements the session sent, with whatever randomness,
  makes the session accept exactly these evaluations if it is delivered unchanged. And the server does give such an
  answer, unless its generator never yields a non-zero scalar or a debug build meets more than
  65536 inputs: the call from this very state succeeds, and the two steps, the server's answer and
  its delivery, lead to the state in which the session has completed with its outputs.\<close>

theorem sessions_recover:
  assumes E: "env_laws E" and start: "issuance_start S0" and run: "reaches E srv S0 S"
    and s: "sessions S n = Some s" "ses_inputs s \<noteq> []"
    and fits: "length (ses_inputs s) \<le> 65536 \<or> \<not> debug_assertions E"
    and gen: "random_scalar E (server_rng S) = Some (r, rng)"
  shows "\<exists>outs. rmap (\<lambda>x. PoprfServer_evaluate E srv x (ses_info s)) (ses_inputs s) = Inr outs \<and>
    (\<forall>g evs pf g'. PoprfServer_blind_evaluate_batch E srv g (ses_blinded s) (ses_info s) = (Inr (evs, pf), g') \<longrightarrow>
       finish E srv s evs pf = Inr outs) \<and>
    (\<exists>a. PoprfServer_blind_evaluate_batch E srv (server_rng S) (ses_blinded s) (ses_info s) = (Inr a, rng) \<and>
       issues E srv S (answered a rng S) \<and>
       issues E srv (answered a rng S) (delivered n s a outs (answered a rng S)))"
proof -
  let ?outs = "map (\<lambda>x. poprf E srv x (ses_info s)) (ses_inputs s)"
  have bb: "blinded_batch E (client_of E srv) (ses_info s) (ses_inputs s) (ses_states s) (ses_blinded s)"
    using open_session_ok [OF reaches_inv [OF run start] s(1)] by (simp add: session_ok_def)
  have outs: "rmap (\<lambda>x. PoprfServer_evaluate E srv x (ses_info s)) (ses_inputs s) = Inr ?outs"
    by (rule batch_entries_evaluate [OF E bb blinded_batch_tweak(2) [OF E bb s(2)]])
  have honest: "finish E srv s evs pf = Inr ?outs"
    if "PoprfServer_blind_evaluate_batch E srv g (ses_blinded s) (ses_info s) = (Inr (evs, pf), g')"
    for g evs pf g'
    using batch_call_evaluated [OF that] batch_finalized [OF E bb] by (auto simp: finish_def)
  from batch_completes [OF E bb s(2) fits gen] obtain evs pf where
    answer: "PoprfServer_blind_evaluate_batch E srv (server_rng S) (ses_blinded s) (ses_info s) = (Inr (evs, pf), rng)"
    by blast
  have "issues E srv (answered (evs, pf) rng S) (delivered n s (evs, pf) ?outs (answered (evs, pf) rng S))"
    by (rule issues.accepts [OF _ honest [OF answer]]) (simp add: answered_def s(1))
  with answer issues.serves [OF answer] outs honest show ?thesis by blast
qed

section \<open>A run on the concrete environment\<close>

definition issuance3 :: "(tri, tri, nat) issuance" where
  "issuance3 = \<lparr>sessions = Map.empty, completed = [], answers = [], client_rng = 0, server_rng = 1\<rparr>"

abbreviation session3 :: "(tri, tri) session" where
  "session3 \<equiv> \<lparr>ses_info = [1], ses_inputs = [[0]], ses_states = [st3], ses_blinded = [BlindedElement T1]\<rparr>"

lemma issuance3_start: "issuance_start issuance3"
  by (simp add: issuance3_def issuance_start_def)

lemma issuance3_sent:
  "reaches E3 srv3 issuance3 (issuance3\<lparr>sessions := [7 \<mapsto> session3], client_rng := 2\<rparr>)"
proof -
  let ?S = "issuance3\<lparr>sessions := [7 \<mapsto> new_session [1]]\<rparr>"
  have "issues E3 srv3 issuance3 ?S"
    using issues.opens [of issuance3 7 E3 srv3 "[1]"] by (simp add: issuance3_def)
  moreover have "issues E3 srv3 ?S (issuance3\<lparr>sessions := [7 \<mapsto> session3], client_rng := 2\<rparr>)"
    using issues.sends [of ?S 7 "new_session [1]" E3 srv3 "[0]" st3 "BlindedElement T1" 2] toy_blind
    by (simp add: issuance3_def new_session_def add_entry_def)
  ultimately show ?thesis by (meson r_into_rtranclp rtranclp_trans)
qed

theorem sessions_recover_witness:
  "\<exists>a outs. PoprfServer_blind_evaluate_batch E3 srv3 1 [BlindedElement T1] [1] = (Inr a, 2) \<and>
    rmap (\<lambda>x. PoprfServer_evaluate E3 srv3 x [1]) [[0]] = Inr outs"
  using sessions_recover [OF toy_laws issuance3_start issuance3_sent, of 7 session3 T1 2]
  by (simp add: issuance3_def) blast

end
