(* ===== verification/Secrecy.thy ===== *)
theory Secrecy
  imports Protocol
begin

text \<open>
  What the two parties keep from each other. The client's inputs: a server, and whoever
  sees the messages and how the client reacts to answers, cannot tell two batches of inputs apart.
  The server's key: it is safe only as long as no proof scalar is used for two proofs.
\<close>

section \<open>A client that blinds a batch with given scalars\<close>

definition blind_all :: "('s, 'p, 't, 'h, 'r) env \<Rightarrow> 'p PoprfClient \<Rightarrow> bytes list \<Rightarrow> bytes \<Rightarrow> 's list \<Rightarrow>
    (('s, 'p) PoprfBlindState \<times> 'p BlindedElement) list res" where
  "blind_all E cl inputs info blinds = rmap (\<lambda>(x, b). blind_with_inner E cl x info b) (zip inputs blinds)"

lemma blind_all_iff:
  assumes E: "env_laws E" and len: "length blinds = length inputs" and ne: "inputs \<noteq> []"
  shows "blind_all E cl inputs info blinds = Inr sent \<longleftrightarrow>
    length info \<le> 65534 \<and> \<not> is_identity E (client_key E cl info) \<and>
    (\<forall>x \<in> set inputs. length x \<le> 65534 \<and> \<not> is_identity E (input_element E x)) \<and>
    sent = map (\<lambda>(x, b). (\<lparr>bs_blind = b, bs_tweaked_key = client_key E cl info\<rparr>,
      BlindedElement (scalar_mul E b (input_element E x)))) (zip inputs blinds)"
proof -
  have "blind_all E cl inputs info blinds = Inr sent \<longleftrightarrow>
      (\<forall>x \<in> set inputs. length info \<le> 65534 \<and> \<not> is_identity E (client_key E cl info) \<and>
         length x \<le> 65534 \<and> \<not> is_identity E (input_element E x)) \<and>
      sent = map (\<lambda>(x, b). (\<lparr>bs_blind = b, bs_tweaked_key = client_key E cl info\<rparr>,
        BlindedElement (scalar_mul E b (input_element E x)))) (zip inputs blinds)"
    using len [symmetric] unfolding blind_all_def
    by (induction inputs blinds arbitrary: sent rule: list_induct2)
      (auto simp: blind_inner_spec [OF E] rbind_eq_Inr_iff)
  then show ?thesis using ne by (cases inputs) auto
qed

text \<open>The client's reaction to an answer: it accepts, or it reports an error.\<close>

definition reaction :: "'a res \<Rightarrow> unit res" where
  "reaction r = rbind r (\<lambda>_. Inr ())"

lemma reaction_spec:
  assumes E: "env_laws E" and fit: "\<forall>x \<in> set inputs. length x \<le> 65534"
  shows "reaction (PoprfClient_finalize_batch E cl inputs sts evs bls pf info) =
    (let ks = map bs_tweaked_key sts in
     if length inputs = 0 \<or> length inputs \<noteq> length ks \<or> length inputs \<noteq> length evs
         \<or> length inputs \<noteq> length bls then Fail LengthMismatch
     else if 65534 < length info then Fail InputTooLong
     else if \<exists>k \<in> set (tl ks). k \<noteq> hd ks then Fail InconsistentState
     else verify_proof E (generator E) (hd ks) (map evaluated_point evs) (map blinded_point bls) pf)"
proof -
  have "\<not> (\<exists>x \<in> set inputs. 65534 < length x)" using fit by auto
  then show ?thesis
    by (cases sts) (auto simp: reaction_def finalize_batch_spec [OF E] rbind_assoc Let_def)
qed

text \<open>What a server and the network see of a batch: the elements sent, and the client's reaction to
  every possible answer. Two batches look the same when these agree.\<close>

definition same_view :: "('s, 'p, 't, 'h, 'r) env \<Rightarrow> 'p PoprfClient \<Rightarrow> bytes \<Rightarrow> bytes list \<Rightarrow> 's list \<Rightarrow>
    bytes list \<Rightarrow> 's list \<Rightarrow> bool" where
  "same_view E cl info inputs blinds inputs' blinds' \<longleftrightarrow>
     (\<exists>sent sent'. blind_all E cl inputs info blinds = Inr sent \<and> blind_all E cl inputs' info blinds' = Inr sent' \<and>
        map snd sent' = map snd sent \<and>
        (\<forall>evs pf.
           reaction (PoprfClient_finalize_batch E cl inputs' (map fst sent') evs (map snd sent') pf info) =
           reaction (PoprfClient_finalize_batch E cl inputs (map fst sent) evs (map snd sent) pf info)))"

lemma same_view_iff:
  assumes E: "env_laws E" and ne: "inputs \<noteq> []"
    and len: "length blinds = length inputs" "length inputs' = length inputs" "length blinds' = length inputs"
    and sent: "blind_all E cl inputs info blinds = Inr sent"
    and other: "\<forall>x \<in> set inputs'. length x \<le> 65534 \<and> \<not> is_identity E (input_element E x)"
  shows "same_view E cl info inputs blinds inputs' blinds' \<longleftrightarrow>
    (\<forall>i < length inputs. scalar_mul E (blinds' ! i) (input_element E (inputs' ! i)) =
       scalar_mul E (blinds ! i) (input_element E (inputs ! i)))"
proof -
  let ?sent = "\<lambda>inputs blinds. map (\<lambda>(x, b). (\<lparr>bs_blind = b, bs_tweaked_key = client_key E cl info\<rparr>,
      BlindedElement (scalar_mul E b (input_element E x)))) (zip inputs blinds)"
  have ne': "inputs' \<noteq> []" using ne len by auto
  have good: "\<forall>x \<in> set inputs. length x \<le> 65534" and eq: "sent = ?sent inputs blinds"
    and sent': "blind_all E cl inputs' info blinds' = Inr (?sent inputs' blinds')"
    using sent other ne' len by (simp_all add: blind_all_iff [OF E _ ne] blind_all_iff [OF E _ ne'])
  have good': "\<forall>x \<in> set inputs'. length x \<le> 65534" using other by blast
  have "map bs_tweaked_key (map fst (?sent inputs' blinds')) = map bs_tweaked_key (map fst sent)"
    using len by (auto simp: list_eq_iff_nth_eq eq)
  then have "reaction (PoprfClient_finalize_batch E cl inputs' (map fst (?sent inputs' blinds')) evs bls pf info) =
      reaction (PoprfClient_finalize_batch E cl inputs (map fst sent) evs bls pf info)" for evs bls pf
    using len by (simp only: reaction_spec [OF E good] reaction_spec [OF E good'] length_map)
  then have "same_view E cl info inputs blinds inputs' blinds' \<longleftrightarrow> map snd (?sent inputs' blinds') = map snd sent"
    unfolding same_view_def sent sent' by auto
  also have "\<dots> \<longleftrightarrow> (\<forall>i < length inputs. scalar_mul E (blinds' ! i) (input_element E (inputs' ! i)) =
       scalar_mul E (blinds ! i) (input_element E (inputs ! i)))"
    using len by (auto simp: list_eq_iff_nth_eq eq)
  finally show ?thesis .
qed

text \<open>C5: A server learns nothing about the inputs of a batch. Whatever elements a client sends for a
  batch, for any other acceptable inputs there is exactly one list of non-zero blinds with which it would
  have sent the same elements for them, and with these its reaction to every answer, honest or not, is the
  same too.\<close>

theorem view_unlinkable:
  assumes E: "env_laws E" and len: "length blinds = length inputs" "length inputs' = length inputs"
    and sent: "blind_all E cl inputs info blinds = Inr sent"
    and nz: "\<forall>b \<in> set blinds. \<not> scalar_is_zero E b"
    and other: "\<forall>x \<in> set inputs'. length x \<le> 65534 \<and> \<not> is_identity E (input_element E x)"
  shows "\<exists>!blinds'. length blinds' = length inputs \<and> (\<forall>b \<in> set blinds'. \<not> scalar_is_zero E b) \<and>
    same_view E cl info inputs blinds inputs' blinds'"
proof (cases "inputs = []")
  case True
  then show ?thesis using len by (auto simp: same_view_def blind_all_def)
next
  case ne: False
  have ok: "group_ok E" using E by simp
  let ?P = "\<lambda>i b. \<not> scalar_is_zero E b \<and> scalar_mul E b (input_element E (inputs' ! i)) =
    scalar_mul E (blinds ! i) (input_element E (inputs ! i))"
  have "\<exists>!b. ?P i b" if i: "i < length inputs" for i
  proof -
    have x: "input_element E (inputs ! i) \<noteq> identity E" "input_element E (inputs' ! i) \<noteq> identity E"
      using sent other i len by (simp_all add: blind_all_iff [OF E _ ne] gp.is_id_iff [OF ok])
    have "scalar_mul E (blinds ! i) (input_element E (inputs ! i)) \<noteq> identity E"
      using gp.pmul_eq_id [OF ok] nz i len x(1) by simp
    with gp.unique_blind [OF ok x(2)] show ?thesis using gp.pmul_zero [OF ok] by metis
  qed
  note one = unique_list [of "length inputs" ?P, OF this]
  have "(length bs = length inputs \<and> (\<forall>i < length inputs. ?P i (bs ! i))) \<longleftrightarrow>
      (length bs = length inputs \<and> (\<forall>b \<in> set bs. \<not> scalar_is_zero E b) \<and> same_view E cl info inputs blinds inputs' bs)" for bs
    using same_view_iff [OF E ne len _ sent other, of bs] by (auto simp: all_set_conv_all_nth)
  with one show ?thesis by simp
qed

theorem view_unlinkable_witness:
  "\<exists>!blinds'. length blinds' = length [[0], [0 :: byte]] \<and> (\<forall>b \<in> set blinds'. \<not> scalar_is_zero E3 b) \<and>
    same_view E3 cl3 [1] [[0], [0]] [T1, T2] [[1], [3]] blinds'"
proof -
  have "blind_all E3 cl3 [[0], [0]] [1] [T1, T2] =
      Inr [(\<lparr>bs_blind = T1, bs_tweaked_key = T1\<rparr>, BlindedElement T1), (\<lparr>bs_blind = T2, bs_tweaked_key = T1\<rparr>, BlindedElement T2)]"
    by (simp add: blind_all_def toy_run toy_bytes)
  show ?thesis by (rule view_unlinkable [OF toy_laws _ _ \<open>blind_all _ _ _ _ _ = _\<close>]) (simp_all add: tri_of_byte_def)
qed

section \<open>One proof scalar, one proof\<close>

text \<open>C12: A proof scalar must not be used twice. Two proofs that the deterministic entry points make
  with the same proof scalar under the same \<open>info\<close>, for any two batches, reveal the server's
  secret key as soon as their challenges differ: it is computed from the two proofs and \<open>info\<close>
  alone.\<close>

theorem nonce_reuse_leaks_key:
  assumes E: "env_laws E"
    and first: "blind_evaluate_batch_with_proof_scalar E srv bls info nonce = Inr (evs, pf)"
    and second: "blind_evaluate_batch_with_proof_scalar E srv bls' info nonce = Inr (evs', pf')"
    and differ: "proof_c pf \<noteq> proof_c pf'"
  shows "secret_scalar (server_sk srv) =
    scalar_sub E
      (scalar_mul_scalar E (scalar_invert E (scalar_sub E (proof_c pf) (proof_c pf')))
         (scalar_sub E (proof_s pf') (proof_s pf)))
      (tweak E info)"
proof -
  have ok: "group_ok E" using E by simp
  obtain r where one: "blind_evaluate_batch_with_r_inner E srv bls info r = Inr (evs, pf)"
    and two: "blind_evaluate_batch_with_r_inner E srv bls' info r = Inr (evs', pf')"
    using first second by (auto simp: blind_evaluate_batch_with_proof_scalar_def rbind_eq_Inr_iff)
  let ?t = "server_t E srv info" and ?g = "generator E"
  have response: "proof_s p = scalar_sub E r (scalar_mul_scalar E (proof_c p) ?t)"
    if "blind_evaluate_batch_with_r_inner E srv bs info r = Inr (es, p)" for bs es p
    using that by (auto simp: batch_r_spec [OF E] rbind_eq_Inr_iff generate_spec [OF E] Let_def split: if_splits)
  have "element_add E (scalar_mul E (proof_s p) ?g) (scalar_mul E (proof_c p) (scalar_mul E ?t ?g)) = scalar_mul E r ?g"
    if "blind_evaluate_batch_with_r_inner E srv bs info r = Inr (es, p)" for bs es p
    unfolding response [OF that] by (rule gp.dleq_complete [OF ok])
  with one two have "element_add E (scalar_mul E (proof_s pf) ?g) (scalar_mul E (proof_c pf) (scalar_mul E ?t ?g)) =
      element_add E (scalar_mul E (proof_s pf') ?g) (scalar_mul E (proof_c pf') (scalar_mul E ?t ?g))" by metis
  note leaked = gp.dleq_extract [OF ok differ this]
  have "?t = scalar_mul_scalar E (scalar_invert E (scalar_sub E (proof_c pf) (proof_c pf')))
      (scalar_sub E (proof_s pf') (proof_s pf))"
    using leaked gp.pmul_inj [OF ok gp.gen_not_pid [OF ok]] by metis
  moreover have "secret_scalar (server_sk srv) = scalar_sub E ?t (tweak E info)"
    by (simp add: server_t_def gp.ssub_sadd [OF ok])
  ultimately show ?thesis by simp
qed

theorem nonce_reuse_leaks_key_witness:
  "secret_scalar (SecretKey T1) =
     scalar_sub E3 (tri_mul (scalar_invert E3 (scalar_sub E3 T0 T1)) (scalar_sub E3 T1 T2)) (tweak E3 [1])"
proof -
  note run = blind_evaluate_batch_with_proof_scalar_def deserialize_scalar_spec batch_r_spec toy_run toy_bytes
  have one: "blind_evaluate_batch_with_proof_scalar E3 srv3 [BlindedElement T1] [1] (tri_encode T2) =
      Inr ([EvaluatedElement T1], \<lparr>proof_c = T0, proof_s = T2\<rparr>)"
    by (simp add: run)
  have two: "blind_evaluate_batch_with_proof_scalar E3 srv3 [BlindedElement T1, BlindedElement T2] [1] (tri_encode T2) =
      Inr ([EvaluatedElement T1, EvaluatedElement T2], \<lparr>proof_c = T1, proof_s = T1\<rparr>)"
    by (simp add: run)
  show ?thesis
    using nonce_reuse_leaks_key [OF toy_laws one two] by (simp add: PoprfServer_new_def del: toy_tweak)
qed

end
