(* ===== verification/Hash_Inputs.thy ===== *)
theory Hash_Inputs
  imports Toy_Run
begin

text \<open>
  The strings that the crate hashes to scalars. One domain separation tag serves three
  purposes: the tweak of an \<open>info\<close> value (\<open>poprf.rs\<close>), the weights of the composites and the challenge of a
  proof (\<open>dleq.rs\<close>).
\<close>

section \<open>What is hashed to scalars\<close>

datatype 'p scalar_query =
    Tweak_of bytes
  | Weight_of 'p nat 'p 'p
  | Challenge_of 'p 'p 'p 'p 'p

fun query_bytes :: "('s, 'p, 't, 'h, 'r) env \<Rightarrow> 'p scalar_query \<Rightarrow> bytes" where
  "query_bytes E (Tweak_of info) = ascii ''Info'' @ lp info"
| "query_bytes E (Weight_of b i c d) =
     lp (dleq_seed E b) @ be16 i @ lp (serialize_element E c) @ lp (serialize_element E d) @ ascii ''Composite''"
| "query_bytes E (Challenge_of b m z t2 t3) = dleq_transcript E b m z t2 t3"

fun query_fits :: "'p scalar_query \<Rightarrow> bool" where
  "query_fits (Tweak_of info) \<longleftrightarrow> length info \<le> 65535"
| "query_fits (Weight_of b i c d) \<longleftrightarrow> i \<le> 65535"
| "query_fits (Challenge_of b m z t2 t3) \<longleftrightarrow> True"

text \<open>The calls of the code: the tweak of both parties, the weight of a pair, and the challenge.\<close>

fun query_hash :: "('s, 'p, 't, 'h, 'r) env \<Rightarrow> 'p scalar_query \<Rightarrow> 's res" where
  "query_hash E (Tweak_of info) =
     rbind (framed_info E info) (\<lambda>framed. hash_to_scalar E [framed] HASH_TO_SCALAR_DST)"
| "query_hash E (Weight_of b i c d) =
     rbind (composite_seed E b) (\<lambda>seed.
     rbind (i2osp_2 E (length seed)) (\<lambda>seed_len.
     rbind (i2osp_2 E ELEMENT_LEN) (\<lambda>elem_len.
     composite_di E seed_len seed i elem_len c d)))"
| "query_hash E (Challenge_of b m z t2 t3) =
     rbind (challenge_transcript E b m z t2 t3) (\<lambda>transcript.
     hash_to_scalar E [transcript] HASH_TO_SCALAR_DST)"

lemma query_hash_bytes:
  assumes "env_laws E" and "query_fits q"
  shows "query_hash E q = hash_to_scalar E [query_bytes E q] HASH_TO_SCALAR_DST"
  using assms
  by (cases q) (simp_all add: spec_simps env_lawsD ELEMENT_LEN_def dleq_weight_def)

text \<open>The first two bytes tell the three kinds apart.\<close>

lemma query_tag:
  assumes "env_laws E"
  shows "take 2 (query_bytes E q) =
    (case q of Tweak_of _ \<Rightarrow> [73, 110] | Weight_of _ _ _ _ \<Rightarrow> [0, 64] | Challenge_of _ _ _ _ _ \<Rightarrow> [0, 32])"
  using assms
  by (cases q) (simp_all add: ascii_simps dleq_transcript_def lp_def be16_def to_be_bytes_def)

text \<open>C14: The three uses of the hash to scalars do not overlap. The tweak of an \<open>info\<close>, the weight of a
  pair and the challenge share one domain separation tag; the strings they hash are different for
  different arguments and different uses, except that the weights of two keys coincide if
  SHA-512 gives both keys one seed.\<close>

theorem scalar_hashes_separated:
  assumes E: "env_laws E" and fit: "query_fits q" "query_fits q'"
  shows "query_hash E q = hash_to_scalar E [query_bytes E q] HASH_TO_SCALAR_DST \<and>
    (query_bytes E q = query_bytes E q' \<longrightarrow> q = q' \<or>
      (\<exists>b b' i c d. q = Weight_of b i c d \<and> q' = Weight_of b' i c d \<and> b \<noteq> b' \<and> dleq_seed E b = dleq_seed E b'))"
proof (intro conjI impI)
  show "query_hash E q = hash_to_scalar E [query_bytes E q] HASH_TO_SCALAR_DST"
    by (rule query_hash_bytes [OF E fit(1)])
  assume eq: "query_bytes E q = query_bytes E q'"
  have "(case q of Tweak_of _ \<Rightarrow> [73, 110 :: byte] | Weight_of _ _ _ _ \<Rightarrow> [0, 64] | Challenge_of _ _ _ _ _ \<Rightarrow> [0, 32]) =
      (case q' of Tweak_of _ \<Rightarrow> [73, 110] | Weight_of _ _ _ _ \<Rightarrow> [0, 64] | Challenge_of _ _ _ _ _ \<Rightarrow> [0, 32])"
    using arg_cong [OF eq, of "take 2"] by (simp only: query_tag [OF E])
  then show "q = q' \<or> (\<exists>b b' i c d. q = Weight_of b i c d \<and> q' = Weight_of b' i c d \<and> b \<noteq> b' \<and>
      dleq_seed E b = dleq_seed E b')"
    using fit eq
    by (cases q; cases q')
      (auto simp: lp_inj lp_split E serialize_element_inj dleq_transcript_inj append_eq_append_same_length be16_inj)
qed

theorem scalar_hashes_separated_witness:
  "query_hash E3 (Weight_of T1 0 T1 T2) = hash_to_scalar E3 [query_bytes E3 (Weight_of T1 0 T1 T2)] HASH_TO_SCALAR_DST"
  by (rule conjunct1 [OF scalar_hashes_separated [where q' = "Tweak_of []"]]) simp_all

end
