(* ===== verification/Dleq_Oracle.thy ===== *)
theory Dleq_Oracle
  imports Hash_Inputs Dleq_Properties
begin

text \<open>
  The two claims on the proofs of \<open>dleq.rs\<close> that speak of the hash as an oracle, whose answer
  to one byte string can be exchanged while everything else stays. Soundness of a batch: the
  weight of an entry is the hash of a query of its own, and a wrong entry is overlooked for
  exactly one answer to that query. Simulation: whoever chooses the answer to the transcript
  can write down any proof without the key, and it is the proof the prover makes.
\<close>

section \<open>Reprogramming the hash at one string\<close>

definition program_hash ::
  "('s, 'p, 't, 'h, 'r) env \<Rightarrow> bytes \<Rightarrow> bytes \<Rightarrow> bytes \<Rightarrow> ('s, 'p, 't, 'h, 'r) env" where
  "program_hash E s dst u = E\<lparr>expand_message_xmd := \<lambda>msgs dsts n.
     if concat msgs = s \<and> dsts = [dst] \<and> n = 64 then Some u else expand_message_xmd E msgs dsts n\<rparr>"

lemma program_hash_laws:
  assumes E: "env_laws E" and u: "length u = 64"
  shows "env_laws (program_hash E s dst u)"
  unfolding program_hash_def
proof (rule expand_laws [OF E])
  let ?X = "\<lambda>msgs dsts n. if concat msgs = s \<and> dsts = [dst] \<and> n = 64 then Some u
    else expand_message_xmd E msgs dsts n"
  have "hash_laws E" using E by (simp add: env_lawsD)
  then have sha: "\<forall>h x y. Sha512_update E (Sha512_update E h x) y = Sha512_update E h (x @ y)"
    "\<forall>h. length (Sha512_finalize E h) = 64" "\<forall>x y. slice_ct_eq E x y \<longleftrightarrow> x = y"
    and cat: "\<forall>xs d. expand_message_xmd E xs [d] 64 = expand_message_xmd E [concat xs] [d] 64"
    and yields: "\<forall>xs d. 0 < length d \<and> length d \<le> 255 \<longrightarrow>
      (\<exists>v. expand_message_xmd E xs [d] 64 = Some v \<and> length v = 64)"
    unfolding hash_laws_def by - (elim conjE, assumption)+
  show "hash_laws (E\<lparr>expand_message_xmd := ?X\<rparr>)"
    unfolding hash_laws_def
  proof (intro conjI allI impI, goal_cases)
    case (3 xs d)
    show ?case using cat [THEN spec, of xs, THEN spec, of d] by simp
  next
    case (4 xs d)
    then show ?case using yields [THEN spec, of xs, THEN spec, of d] u by simp
  qed (simp_all add: sha)
qed

text \<open>Nothing but the hash of that string changes.\<close>

lemma program_hash_ops [simp]:
  "scalar_mul (program_hash E s dst u) = scalar_mul E"
  "gp.wsum (program_hash E s dst u) = gp.wsum E"
  "dleq_seed (program_hash E s dst u) = dleq_seed E"
  "serialize_element (program_hash E s dst u) = serialize_element E"
  "scalar_sub (program_hash E s dst u) = scalar_sub E"
  "scalar_mul_scalar (program_hash E s dst u) = scalar_mul_scalar E"
  "debug_assertions (program_hash E s dst u) = debug_assertions E"
  by (simp_all add: program_hash_def fun_eq_iff gp.wsum_def dleq_seed_def serialize_element_def group_defs)

lemma program_hash_scalar:
  "hash_scalar (program_hash E s dst u) msg d =
     (if msg = s \<and> d = dst then Scalar_from_bytes_mod_order_wide E u else hash_scalar E msg d)"
  by (simp add: hash_scalar_def program_hash_def)

section \<open>A wrong entry of a batch\<close>

lemma wsum_update:
  assumes E: "env_laws E" and len: "length ws = length Ps" and i: "i < length Ps"
  shows "gp.wsum E (zip (ws[i := w]) Ps) =
    element_add E (scalar_mul E w (Ps ! i)) (gp.wsum E (zip (omit i ws) (omit i Ps)))"
  using len i
proof (induction ws Ps arbitrary: i rule: list_induct2)
  case (Cons v ws P Ps)
  then show ?case
    by (cases i) (simp_all add: omit_def gp.padd_left_comm [OF group_okI [OF E], of "scalar_mul E w _"])
qed simp

lemma unique_weight:
  assumes E: "env_laws E" and len: "length ws = length cs" "length ds = length cs" and i: "i < length cs"
    and wrong: "ds ! i \<noteq> scalar_mul E k (cs ! i)"
  shows "\<exists>!w. gp.wsum E (zip (ws[i := w]) ds) = scalar_mul E k (gp.wsum E (zip (ws[i := w]) cs))"
proof -
  have ok: "group_ok E" using E by simp
  define rest where
    "rest Ps = gp.wsum E (zip (omit i ws) (omit i Ps))" for Ps
  note upd = wsum_update [OF E, where ws = ws and i = i, folded rest_def]
  let ?kc = "scalar_mul E k (cs ! i)"
  obtain e where e: "ds ! i = element_add E e ?kc"
    by (rule gp.difference [OF ok])
  then have ne: "e \<noteq> identity E" using wrong gp.padd_id [OF ok] by metis
  obtain q where q: "scalar_mul E k (rest cs) = element_add E q (rest ds)"
    by (rule gp.difference [OF ok])
  have "gp.wsum E (zip (ws[i := w]) ds) = scalar_mul E k (gp.wsum E (zip (ws[i := w]) cs)) \<longleftrightarrow>
      q = scalar_mul E w e" for w
  proof -
    have "gp.wsum E (zip (ws[i := w]) ds) =
        element_add E (element_add E (scalar_mul E w e) (scalar_mul E w ?kc)) (rest ds)"
      using len i by (simp add: upd e gp.pmul_padd [OF ok])
    moreover have "scalar_mul E k (gp.wsum E (zip (ws[i := w]) cs)) =
        element_add E (scalar_mul E w ?kc) (element_add E q (rest ds))"
      using len i by (simp add: upd gp.pmul_padd [OF ok] q gp.pmul_comm [OF ok, of k])
    ultimately show ?thesis by (simp add: gp.swap_cancel [OF ok])
  qed
  then show ?thesis using gp.unique_blind [OF ok ne] by simp
qed

text \<open>Two entries of a batch have different queries, whatever their elements.\<close>

lemma weight_queries_differ:
  assumes "env_laws E" and "i < 65536" and "j < 65536" and "i \<noteq> j"
  shows "query_bytes E (Weight_of b i c d) \<noteq> query_bytes E (Weight_of b j c' d')"
  using assms by (simp add: append_eq_append_same_length be16_inj)

lemma dleq_weight_query:
  "dleq_weight E b i c d = hash_scalar E (query_bytes E (Weight_of b i c d)) HASH_TO_SCALAR_DST"
  by (simp add: dleq_weight_def)

lemma programmed_query:
  "query_bytes (program_hash E s dst u) (Weight_of b i c d) = query_bytes E (Weight_of b i c d)"
  by simp

lemma programmed_weights:
  assumes E: "env_laws E" and len: "length ds = length cs" "length cs \<le> 65536" and i: "i < length cs"
    and s: "s = query_bytes E (Weight_of b i (cs ! i) (ds ! i))"
  shows "dleq_weights (program_hash E s HASH_TO_SCALAR_DST u) b cs ds =
    (dleq_weights E b cs ds)[i := Scalar_from_bytes_mod_order_wide E u]" (is "?new = ?old")
proof (rule nth_equalityI)
  fix j assume "j < length ?new"
  then have j: "j < length cs" using len by simp
  have "query_bytes E (Weight_of b j (cs ! j) (ds ! j)) = s \<longleftrightarrow> i = j"
    using weight_queries_differ [OF E, of j i] i j len(2) unfolding s by fastforce
  with i j len show "?new ! j = ?old ! j"
    by (simp add: dleq_weights_def zip_enumerate_nth dleq_weight_query programmed_query
        program_hash_scalar nth_list_update del: query_bytes.simps)
qed (use len in simp)

text \<open>C10: A wrong entry of a batch is overlooked for exactly one value of its weight. Suppose that entry
  \<open>i\<close> of a batch is not the claimed multiple. Whatever the key, the other entries and the rest of the
  hash function, there is one scalar such that the composites the verifier computes are in the
  claimed relation if and only if the hash of the query of entry \<open>i\<close>, reduced to a scalar, is
  that scalar: no choice of elements lets a wrong entry pass but by hitting it.\<close>

theorem wrong_entry_one_weight:
  fixes E :: "('s, 'p, 't, 'h, 'r) env" and b :: 'p
  assumes E: "env_laws E" and len: "length ds = length cs" "length cs \<le> 65536" and i: "i < length cs"
    and wrong: "ds ! i \<noteq> scalar_mul E k (cs ! i)"
  defines "hashed \<equiv> program_hash E (query_bytes E (Weight_of b i (cs ! i) (ds ! i))) HASH_TO_SCALAR_DST"
  shows "\<exists>w. \<forall>u. length u = 64 \<longrightarrow>
    ((\<exists>m. compute_composites (hashed u) b cs ds = Inr (m, scalar_mul E k m)) \<longleftrightarrow>
     Scalar_from_bytes_mod_order_wide E u = w)"
proof -
  let ?ws = "dleq_weights E b cs ds"
  let ?passes = "\<lambda>w. gp.wsum E (zip (?ws[i := w]) ds) = scalar_mul E k (gp.wsum E (zip (?ws[i := w]) cs))"
  have "(\<exists>m. compute_composites (hashed u) b cs ds = Inr (m, scalar_mul E k m)) \<longleftrightarrow>
      ?passes (Scalar_from_bytes_mod_order_wide E u)" if "length u = 64" for u
    using len unfolding hashed_def
    by (auto simp: composites_spec [OF program_hash_laws [OF E that]] batch_fits_def
        programmed_weights [OF E len i refl] simp del: query_bytes.simps)
  moreover obtain w where "\<And>v. ?passes v \<longleftrightarrow> v = w"
    using unique_weight [OF E _ _ i wrong, of ?ws] len by auto
  ultimately show ?thesis by auto
qed

theorem wrong_entry_one_weight_witness:
  "\<exists>w. \<forall>u. length u = 64 \<longrightarrow>
    ((\<exists>m. compute_composites (program_hash E3 (query_bytes E3 (Weight_of T1 0 T1 T2)) HASH_TO_SCALAR_DST u)
        T1 [T1, T1] [T2, T1] = Inr (m, tri_mul T1 m)) \<longleftrightarrow>
     Scalar_from_bytes_mod_order_wide E3 u = w)"
  using wrong_entry_one_weight [of E3 "[T2, T1]" "[T1, T1]" 0 T1 T1] by simp

section \<open>Simulation\<close>

text \<open>The transcript of the challenge is no query of a weight, so that programming it leaves the
  composites alone.\<close>

lemma transcript_is_no_weight:
  assumes E: "env_laws E"
  shows "query_bytes E (Weight_of b i c d) \<noteq> dleq_transcript E b' m z t2 t3"
  using query_tag [OF E, of "Weight_of b i c d"] query_tag [OF E, of "Challenge_of b' m z t2 t3"]
  by (auto simp del: query_bytes.simps(2))

lemma programmed_challenge:
  assumes E: "env_laws E"
    and X: "X = program_hash E (dleq_transcript E b m z t2 t3) HASH_TO_SCALAR_DST u"
  shows "dleq_weights X b' cs ds = dleq_weights E b' cs ds"
    and "dleq_challenge X b m z t2 t3 = Scalar_from_bytes_mod_order_wide E u"
  using transcript_is_no_weight [OF E]
  by (auto simp: X dleq_weights_def dleq_weight_query programmed_query dleq_challenge_def
      dleq_transcript_def program_hash_scalar simp del: query_bytes.simps)

text \<open>C13: Proofs reveal nothing but the statement. For a true statement, take any proof at all: two
  scalars chosen without the key. If the hash answers the transcript that the verifier recomputes
  from it, again without the key, with the challenge of the proof, then there is exactly one randomness for which the prover,
  who holds the key, returns this very proof. In particular the accepted proofs are exactly the
  prover's, each for one randomness, so that uniform randomness gives a uniform accepted proof
  (the shipped prover draws its randomness from the non-zero scalars, which leaves out one).\<close>

theorem dleq_simulation:
  fixes E :: "('s, 'p, 't, 'h, 'r) env" and b m z :: 'p and pf :: "'s Proof"
  assumes E: "env_laws E" and a: "\<not> is_identity E a"
    and b: "b = scalar_mul E k a" and ds: "ds = map (scalar_mul E k) cs"
    and fits: "length cs \<le> 65536 \<or> \<not> debug_assertions E"
    and comp: "compute_composites E b cs ds = Inr (m, z)"
  defines "s \<equiv> (case verify_commitments E a b m z pf of (t2, t3) \<Rightarrow> dleq_transcript E b m z t2 t3)"
  shows "(length u = 64 \<and> Scalar_from_bytes_mod_order_wide E u = proof_c pf \<longrightarrow>
      (\<exists>!r. generate_proof_with_r (program_hash E s HASH_TO_SCALAR_DST u) k a b cs ds r = Inr pf)) \<and>
    (verify_proof E a b cs ds pf = Inr () \<longleftrightarrow> (\<exists>!r. generate_proof_with_r E k a b cs ds r = Inr pf))"
proof -
  have ok: "group_ok E" using E by simp
  have fit: "batch_fits E (length cs)" using fits by (simp add: batch_fits_def)
  have len: "length cs = length ds" by (simp add: ds)
  have m: "m = gp.wsum E (zip (dleq_weights E b cs ds) cs)"
    and z: "z = gp.wsum E (zip (dleq_weights E b cs ds) ds)"
    using comp by (simp_all add: composites_spec [OF E fit len])
  have zk: "z = scalar_mul E k m" unfolding m z ds by (simp add: gp.wsum_scale ok)
  define ck where "ck = scalar_mul_scalar E (proof_c pf) k"
  define r where "r = scalar_add E (proof_s pf) ck"
  let ?t2 = "scalar_mul E r a" and ?t3 = "scalar_mul E r m"
  have response: "proof_s pf = scalar_sub E r' ck \<longleftrightarrow> r' = r" for r'
    using gp.ssub_add [OF ok, of r' ck] gp.ssub_sadd [OF ok, of "proof_s pf" ck] by (auto simp: r_def)
  have commits: "verify_commitments E a b m z pf = (?t2, ?t3)"
    using response [of r] by (intro commitments_of_response [OF E b zk]) (simp add: ck_def)
  have generated: "generate_proof_with_r X k a b cs ds r' = Inr pf \<longleftrightarrow>
      r' = r \<and> dleq_challenge X b m z ?t2 ?t3 = proof_c pf"
    if X: "env_laws X" "batch_fits X (length cs)" "dleq_weights X b cs ds = dleq_weights E b cs ds"
      and ops: "scalar_mul X = scalar_mul E" "gp.wsum X = gp.wsum E" "scalar_sub X = scalar_sub E"
      "scalar_mul_scalar X = scalar_mul_scalar E" for X :: "('s, 'p, 't, 'h, 'r) env" and r'
    using response [of r'] unfolding ck_def
    by (cases pf) (auto simp: generate_spec [OF X(1) len] X(2,3) ops Let_def zk simp flip: m)
  have "\<exists>!r'. generate_proof_with_r (program_hash E s HASH_TO_SCALAR_DST u) k a b cs ds r' = Inr pf"
    if "length u = 64" "Scalar_from_bytes_mod_order_wide E u = proof_c pf"
    using programmed_challenge [OF E refl] that fit
    by (subst generated [OF program_hash_laws [OF E that(1)]])
      (simp_all add: s_def commits batch_fits_def)
  moreover have "verify_proof E a b cs ds pf = Inr () \<longleftrightarrow> dleq_challenge E b m z ?t2 ?t3 = proof_c pf"
    by (auto simp: verify_spec [OF E len] fit commits simp flip: m z)
  moreover have "generate_proof_with_r E k a b cs ds r' = Inr pf \<longleftrightarrow>
      r' = r \<and> dleq_challenge E b m z ?t2 ?t3 = proof_c pf" for r'
    using generated [OF E fit] by simp
  ultimately show ?thesis by auto
qed

theorem dleq_simulation_witness:
  "\<exists>s. \<exists>!r. generate_proof_with_r (program_hash E3 s HASH_TO_SCALAR_DST (pad64 [2])) T2 T1 T2 [T1] [T2] r =
    Inr \<lparr>proof_c = T2, proof_s = T1\<rparr>"
proof -
  obtain m z where "compute_composites E3 T2 [T1] [T2] = Inr (m, z)"
    by (simp add: composites_spec batch_fits_def)
  then have "length (pad64 [2]) = 64 \<and> Scalar_from_bytes_mod_order_wide E3 (pad64 [2]) = T2 \<longrightarrow>
      (\<exists>!r. generate_proof_with_r (program_hash E3
        (case verify_commitments E3 T1 T2 m z \<lparr>proof_c = T2, proof_s = T1\<rparr> of
          (t2, t3) \<Rightarrow> dleq_transcript E3 T2 m z t2 t3)
        HASH_TO_SCALAR_DST (pad64 [2])) T2 T1 T2 [T1] [T2] r = Inr \<lparr>proof_c = T2, proof_s = T1\<rparr>)"
    using dleq_simulation [of E3 T1 T2 T2 "[T2]" "[T1]" m z "pad64 [2]" "\<lparr>proof_c = T2, proof_s = T1\<rparr>"]
    by (simp del: length_0_conv)
  moreover have "length (pad64 [2]) = 64 \<and> Scalar_from_bytes_mod_order_wide E3 (pad64 [2]) = T2"
    by (simp add: toy_def pad64_def tri_of_byte_def)
  ultimately show ?thesis by blast
qed

end
