(* ===== verification/Serde.thy ===== *)
theory Serde
  imports Poprf_Client Poprf_Server
begin

text \<open>
  \<open>poprf-ristretto/src/serde_util.rs\<close> and the serde impls of the seven wire types: hex for
  human-readable formats, raw bytes for the others. A \<open>&str\<close> is its UTF-8 bytes. What the
  code exchanges with a format is the call it makes on the serializer, and the visitor method
  the format calls back with: \<open>ser_call\<close> and \<open>de_call\<close>.

  The impls share one shape, so that their lemmas are proved once, in \<open>serde_type\<close>, from the
  laws of a wire codec; the interpretations at the end supply the seven types.
\<close>

section \<open>The data model of serde\<close>

datatype ser_call = SerializeStr bytes | SerializeBytes bytes

datatype de_error = Custom string | Invalid_length nat | Invalid_type | Format_error string

text \<open>A panic inside the conversion would pass through the deserializer unchanged.\<close>

datatype serde_fault = De de_error | Unwinds fault

text \<open>
  The elements a sequence access still yields: its own errors, or bytes. The visitor methods
  serde forwards by default, \<open>visit_borrowed_str\<close> and \<open>visit_string\<close>, are \<open>Visit_str\<close>.
\<close>

datatype de_call =
    Visit_str bytes
  | Visit_bytes bytes
  | Visit_borrowed_bytes bytes
  | Visit_byte_buf bytes
  | Visit_seq "(de_error + byte) list"
  | Visit_other

section \<open>The hex codec\<close>

definition NIBBLE :: bytes where
  "NIBBLE = ascii ''0123456789abcdef''"

fun hex_encode :: "bytes \<Rightarrow> bytes" where
  "hex_encode [] = []"
| "hex_encode (b # bs) =
     (let hi = NIBBLE ! unat (drop_bit 4 b);
          lo = NIBBLE ! unat (and b 0x0F)
      in hi # lo # hex_encode bs)"

definition nibble_from_hex :: "byte \<Rightarrow> byte option" where
  "nibble_from_hex b =
     (if 0x30 \<le> b \<and> b \<le> 0x39 then Some (b - 0x30)
      else if 0x61 \<le> b \<and> b \<le> 0x66 then Some (b - 0x61 + 10)
      else if 0x41 \<le> b \<and> b \<le> 0x46 then Some (b - 0x41 + 10)
      else None)"

text \<open>The loop \<open>for i in 0..N\<close> over the bytes that are left; out of range it would panic, which
  the length check before it excludes, so that this branch is \<open>None\<close> here.\<close>

fun hex_loop :: "nat \<Rightarrow> bytes \<Rightarrow> bytes option" where
  "hex_loop 0 bytes = Some []"
| "hex_loop (Suc n) (h # l # rest) =
     (case nibble_from_hex h of
        None \<Rightarrow> None
      | Some hi \<Rightarrow>
          (case nibble_from_hex l of
             None \<Rightarrow> None
           | Some lo \<Rightarrow>
               (case hex_loop n rest of
                  None \<Rightarrow> None
                | Some out \<Rightarrow> Some (or (push_bit 4 hi) lo # out))))"
| "hex_loop (Suc n) _ = None"

definition hex_decode :: "nat \<Rightarrow> bytes \<Rightarrow> bytes option" where
  "hex_decode n s = (if length s \<noteq> n * 2 then None else hex_loop n s)"

section \<open>Visitors\<close>

definition ser_fixed :: "bytes \<Rightarrow> bool \<Rightarrow> ser_call" where
  "ser_fixed bytes human_readable =
     (if human_readable then SerializeStr (hex_encode bytes) else SerializeBytes bytes)"

definition hex_visit_str :: "nat \<Rightarrow> bytes \<Rightarrow> de_error + bytes" where
  "hex_visit_str n v =
     (case hex_decode n v of None \<Rightarrow> Inl (Custom ''invalid hex'') | Some out \<Rightarrow> Inr out)"

definition bytes_visit_bytes :: "nat \<Rightarrow> bytes \<Rightarrow> de_error + bytes" where
  "bytes_visit_bytes n v = (if length v \<noteq> n then Inl (Invalid_length (length v)) else Inr v)"

text \<open>One slot per element; the loop also returns what the sequence still holds.\<close>

fun fill_slots :: "nat \<Rightarrow> nat \<Rightarrow> (de_error + byte) list \<Rightarrow> de_error + (bytes \<times> (de_error + byte) list)" where
  "fill_slots n 0 seq = Inr ([], seq)"
| "fill_slots n (Suc k) [] = Inl (Invalid_length n)"
| "fill_slots n (Suc k) (Inl e # seq) = Inl e"
| "fill_slots n (Suc k) (Inr b # seq) =
     rbind (fill_slots n k seq) (\<lambda>(out, rest). Inr (b # out, rest))"

definition bytes_visit_seq :: "nat \<Rightarrow> (de_error + byte) list \<Rightarrow> de_error + bytes" where
  "bytes_visit_seq n seq =
     rbind (fill_slots n n seq) (\<lambda>(out, rest).
     case rest of
       [] \<Rightarrow> Inr out
     | Inl e # _ \<Rightarrow> Inl e
     | Inr b # _ \<Rightarrow> Inl (Invalid_length (n + 1)))"

fun HexVisitor :: "nat \<Rightarrow> de_call \<Rightarrow> de_error + bytes" where
  "HexVisitor n (Visit_str v) = hex_visit_str n v"
| "HexVisitor n _ = Inl Invalid_type"

fun BytesVisitor :: "nat \<Rightarrow> de_call \<Rightarrow> de_error + bytes" where
  "BytesVisitor n (Visit_bytes v) = bytes_visit_bytes n v"
| "BytesVisitor n (Visit_borrowed_bytes v) = bytes_visit_bytes n v"
| "BytesVisitor n (Visit_byte_buf v) = bytes_visit_bytes n v"
| "BytesVisitor n (Visit_seq seq) = bytes_visit_seq n seq"
| "BytesVisitor n _ = Inl Invalid_type"

definition deser_fixed :: "nat \<Rightarrow> bool \<Rightarrow> de_call \<Rightarrow> de_error + bytes" where
  "deser_fixed n human_readable d = (if human_readable then HexVisitor n d else BytesVisitor n d)"

section \<open>The impls\<close>

text \<open>\<open>.map_err(serde::de::Error::custom)\<close>: the message is the error's display text.\<close>

definition map_err_custom :: "'a res \<Rightarrow> serde_fault + 'a" where
  "map_err_custom r =
     (case r of Inr x \<Rightarrow> Inr x | Inl (Err e) \<Rightarrow> Inl (De (Custom (error_fmt e))) | Inl f \<Rightarrow> Inl (Unwinds f))"

definition deserialize_with ::
  "nat \<Rightarrow> (bytes \<Rightarrow> 'a res) \<Rightarrow> bool \<Rightarrow> de_call \<Rightarrow> serde_fault + 'a" where
  "deserialize_with n from_bytes human_readable d =
     (case deser_fixed n human_readable d of
        Inl e \<Rightarrow> Inl (De e)
      | Inr bytes \<Rightarrow> map_err_custom (from_bytes bytes))"

definition SecretKey_serialize :: "('s, 'p, 't, 'h, 'r) env \<Rightarrow> 's SecretKey \<Rightarrow> bool \<Rightarrow> ser_call" where
  "SecretKey_serialize E sk hr = ser_fixed (SecretKey_to_bytes E sk) hr"

definition SecretKey_deserialize ::
  "('s, 'p, 't, 'h, 'r) env \<Rightarrow> bool \<Rightarrow> de_call \<Rightarrow> serde_fault + 's SecretKey" where
  "SecretKey_deserialize E hr d = deserialize_with SecretKey_LEN (SecretKey_from_bytes E) hr d"

definition PublicKey_serialize :: "('s, 'p, 't, 'h, 'r) env \<Rightarrow> 'p PublicKey \<Rightarrow> bool \<Rightarrow> ser_call" where
  "PublicKey_serialize E pk hr = ser_fixed (PublicKey_to_bytes E pk) hr"

definition PublicKey_deserialize ::
  "('s, 'p, 't, 'h, 'r) env \<Rightarrow> bool \<Rightarrow> de_call \<Rightarrow> serde_fault + 'p PublicKey" where
  "PublicKey_deserialize E hr d = deserialize_with PublicKey_LEN (PublicKey_from_bytes E) hr d"

definition BlindedElement_serialize :: "('s, 'p, 't, 'h, 'r) env \<Rightarrow> 'p BlindedElement \<Rightarrow> bool \<Rightarrow> ser_call" where
  "BlindedElement_serialize E b hr = ser_fixed (BlindedElement_to_bytes E b) hr"

definition BlindedElement_deserialize ::
  "('s, 'p, 't, 'h, 'r) env \<Rightarrow> bool \<Rightarrow> de_call \<Rightarrow> serde_fault + 'p BlindedElement" where
  "BlindedElement_deserialize E hr d = deserialize_with BlindedElement_LEN (BlindedElement_from_bytes E) hr d"

definition EvaluatedElement_serialize ::
  "('s, 'p, 't, 'h, 'r) env \<Rightarrow> 'p EvaluatedElement \<Rightarrow> bool \<Rightarrow> ser_call" where
  "EvaluatedElement_serialize E e hr = ser_fixed (EvaluatedElement_to_bytes E e) hr"

definition EvaluatedElement_deserialize ::
  "('s, 'p, 't, 'h, 'r) env \<Rightarrow> bool \<Rightarrow> de_call \<Rightarrow> serde_fault + 'p EvaluatedElement" where
  "EvaluatedElement_deserialize E hr d = deserialize_with EvaluatedElement_LEN (EvaluatedElement_from_bytes E) hr d"

definition Proof_serialize :: "('s, 'p, 't, 'h, 'r) env \<Rightarrow> 's Proof \<Rightarrow> bool \<Rightarrow> ser_call" where
  "Proof_serialize E pf hr = ser_fixed (Proof_to_bytes E pf) hr"

definition Proof_deserialize ::
  "('s, 'p, 't, 'h, 'r) env \<Rightarrow> bool \<Rightarrow> de_call \<Rightarrow> serde_fault + 's Proof" where
  "Proof_deserialize E hr d = deserialize_with Proof_LEN (Proof_from_bytes E) hr d"

definition PoprfBlindState_serialize ::
  "('s, 'p, 't, 'h, 'r) env \<Rightarrow> ('s, 'p) PoprfBlindState \<Rightarrow> bool \<Rightarrow> ser_call" where
  "PoprfBlindState_serialize E st hr = ser_fixed (PoprfBlindState_to_bytes E st) hr"

definition PoprfBlindState_deserialize ::
  "('s, 'p, 't, 'h, 'r) env \<Rightarrow> bool \<Rightarrow> de_call \<Rightarrow> serde_fault + ('s, 'p) PoprfBlindState" where
  "PoprfBlindState_deserialize E hr d = deserialize_with PoprfBlindState_LEN (PoprfBlindState_from_bytes E) hr d"

definition PoprfOutput_serialize :: "PoprfOutput \<Rightarrow> bool \<Rightarrow> ser_call" where
  "PoprfOutput_serialize out hr = ser_fixed (PoprfOutput_as_bytes out) hr"

definition PoprfOutput_deserialize :: "bool \<Rightarrow> de_call \<Rightarrow> serde_fault + PoprfOutput" where
  "PoprfOutput_deserialize hr d = deserialize_with PoprfOutput_LEN PoprfOutput_from_bytes hr d"

section \<open>What the hex codec accepts\<close>

text \<open>Letters of either case; encoding writes the lower case.\<close>

definition ascii_lower :: "byte \<Rightarrow> byte" where
  "ascii_lower b = (if 0x41 \<le> b \<and> b \<le> 0x5A then b + 0x20 else b)"

lemma byte_range:
  assumes "a \<le> (b :: byte)" and "b \<le> z"
  shows "b \<in> word_of_nat ` set [unat a..<Suc (unat z)]"
proof -
  have "unat b \<in> set [unat a..<Suc (unat z)]" using assms by (auto simp: word_le_nat_alt)
  then show ?thesis by (intro image_eqI [of _ _ "unat b"]) simp_all
qed

lemma all_digits:
  assumes "P 0" "P 1" "list_all P [2..<16]" and "n < 16"
  shows "P n"
proof (cases "n < 2")
  case True
  then have "n = 0 \<or> n = 1" by auto
  with assms show ?thesis by auto
next
  case False
  then have "n \<in> set [2..<16]" using assms(4) by (simp only: set_upt atLeastLessThan_iff) auto
  with assms(3) show ?thesis unfolding list_all_iff by blast
qed

lemmas digit_simps = upt_rec_numeral NIBBLE_def ascii_simps

lemma nibble_sound:
  assumes "nibble_from_hex c = Some x"
  shows "unat x < 16 \<and> NIBBLE ! unat x = ascii_lower c"
proof -
  have "c \<in> {48,49,50,51,52,53,54,55,56,57} \<union> {97,98,99,100,101,102} \<union> {65,66,67,68,69,70}"
    using assms byte_range [of 48 c 57] byte_range [of 97 c 102] byte_range [of 65 c 70]
    by (auto simp: nibble_from_hex_def upt_rec_numeral split: if_splits)
  then show ?thesis using assms
    by (auto simp: nibble_from_hex_def ascii_lower_def NIBBLE_def ascii_simps)
qed

lemma nibble_digit: "n < 16 \<Longrightarrow> nibble_from_hex (NIBBLE ! n) = Some (word_of_nat n)"
  by (rule all_digits [where P = "\<lambda>n. nibble_from_hex (NIBBLE ! n) = Some (word_of_nat n)"])
    (simp_all add: digit_simps nibble_from_hex_def)

lemma nibble_upper:
  "n < 16 \<Longrightarrow> 0x41 \<le> NIBBLE ! n - 0x20 \<Longrightarrow> NIBBLE ! n - 0x20 \<le> 0x5A \<Longrightarrow>
     nibble_from_hex (NIBBLE ! n - 0x20) = Some (word_of_nat n)"
  by (rule all_digits [where P = "\<lambda>n. 0x41 \<le> NIBBLE ! n - 0x20 \<longrightarrow> NIBBLE ! n - 0x20 \<le> 0x5A \<longrightarrow>
      nibble_from_hex (NIBBLE ! n - 0x20) = Some (word_of_nat n)", rule_format])
    (simp_all add: digit_simps nibble_from_hex_def)

lemma nibble_complete:
  assumes "n < 16" "ascii_lower c = NIBBLE ! n"
  shows "nibble_from_hex c = Some (word_of_nat n)"
proof (cases "0x41 \<le> c \<and> c \<le> 0x5A")
  case True
  then have "c = NIBBLE ! n - 0x20" using assms(2) by (auto simp: ascii_lower_def eq_diff_eq)
  then show ?thesis using nibble_upper [OF assms(1)] True by simp
next
  case False
  then have "c = NIBBLE ! n" using assms(2) by (auto simp: ascii_lower_def)
  then show ?thesis using nibble_digit assms(1) by simp
qed

lemma digit_lower: "n < 16 \<Longrightarrow> ascii_lower (NIBBLE ! n) = NIBBLE ! n"
  by (rule all_digits [where P = "\<lambda>n. ascii_lower (NIBBLE ! n) = NIBBLE ! n"])
    (simp_all add: digit_simps ascii_lower_def)

lemma digit_not_0: "n < 16 \<Longrightarrow> NIBBLE ! n \<noteq> 0"
  by (rule all_digits [where P = "\<lambda>n. NIBBLE ! n \<noteq> 0"]) (simp_all add: digit_simps)

lemma bit_15: "bit (0x0F :: int) n \<longleftrightarrow> n < 4"
proof -
  have "(0x0F :: int) = mask 4" by (simp add: mask_eq_exp_minus_1)
  then show ?thesis by (simp only: bit_mask_iff) auto
qed

lemma split_byte: "or (push_bit 4 (drop_bit 4 b)) (and b 0x0F) = (b :: byte)"
  by (rule bit_word_eqI) (auto simp: bit_simps bit_15)

lemma join_byte:
  assumes "unat hi < 16" "unat lo < 16"
  shows "drop_bit 4 (or (push_bit 4 hi) lo) = (hi :: byte)" "and (or (push_bit 4 hi) lo) 0x0F = (lo :: byte)"
proof -
  have "take_bit 4 hi = hi" "take_bit 4 lo = lo"
    using assms by (simp_all only: word_unat_eq_iff unsigned_take_bit_eq take_bit_nat_eq_self_iff) simp_all
  then have hi: "bit hi n \<Longrightarrow> n < 4" and lo: "bit lo n \<Longrightarrow> n < 4" for n
    by (metis bit_take_bit_iff)+
  have lo': "\<not> bit lo (4 + n)" for n using lo [of "4 + n"] by auto
  show "drop_bit 4 (or (push_bit 4 hi) lo) = hi"
    using hi lo' by (auto simp: bit_simps intro!: bit_word_eqI) fastforce?
  show "and (or (push_bit 4 hi) lo) 0x0F = lo"
    using lo by (auto simp: bit_simps bit_15 intro!: bit_word_eqI)
qed

lemma nibbles_below_16: "unat (drop_bit 4 (b :: byte)) < 16" "unat (and b 0x0F) < 16"
proof -
  have "unat b < 2 ^ LENGTH(8)" by (rule unsigned_less)
  then show "unat (drop_bit 4 b) < 16" by (simp add: drop_bit_eq_div unat_div)
  have "(0x0F :: byte) = mask 4" by (simp add: mask_eq_exp_minus_1)
  then have "and b 0x0F = take_bit 4 b" by (simp only: take_bit_eq_mask)
  then show "unat (and b 0x0F) < 16" by (simp add: take_bit_eq_mod unat_mod)
qed

lemma length_hex_encode [simp]: "length (hex_encode bs) = 2 * length bs"
  by (induction bs) (simp_all add: Let_def)

lemma hex_loop_iff:
  "length s = n * 2 \<Longrightarrow>
     hex_loop n s = Some out \<longleftrightarrow> length out = n \<and> map ascii_lower s = hex_encode out"
proof (induction n arbitrary: s out)
  case (Suc n)
  then obtain h l rest where s: "s = h # l # rest" and len: "length rest = n * 2"
    by (cases s; cases "tl s") auto
  show ?case
  proof
    assume "hex_loop (Suc n) s = Some out"
    then obtain hi lo out' where *: "nibble_from_hex h = Some hi" "nibble_from_hex l = Some lo"
      "hex_loop n rest = Some out'" "out = or (push_bit 4 hi) lo # out'"
      by (auto simp: s split: option.splits)
    note hi = nibble_sound [OF *(1)] and lo = nibble_sound [OF *(2)]
    then have "hex_encode out = ascii_lower h # ascii_lower l # hex_encode out'"
      unfolding *(4) by (simp only: hex_encode.simps Let_def join_byte)
    then show "length out = Suc n \<and> map ascii_lower s = hex_encode out"
      using *(3,4) Suc.IH [OF len] by (simp add: s)
  next
    assume out: "length out = Suc n \<and> map ascii_lower s = hex_encode out"
    then obtain b bs where b: "out = b # bs" by (cases out) auto
    have "nibble_from_hex h = Some (drop_bit 4 b)" "nibble_from_hex l = Some (and b 0x0F)"
      using out nibble_complete [OF nibbles_below_16(1)] nibble_complete [OF nibbles_below_16(2)]
      by (simp_all add: b s Let_def)
    moreover have "hex_loop n rest = Some bs" using out Suc.IH [OF len] by (simp add: b s Let_def)
    ultimately show "hex_loop (Suc n) s = Some out" by (simp add: b s split_byte)
  qed
qed auto

lemma hex_decode_iff:
  "hex_decode n s = Some out \<longleftrightarrow> length out = n \<and> map ascii_lower s = hex_encode out"
proof (cases "length s = n * 2")
  case True
  then show ?thesis by (simp add: hex_decode_def hex_loop_iff)
next
  case False
  then have "map ascii_lower s \<noteq> hex_encode out" if "length out = n"
    using that length_hex_encode [of out] by (metis length_map mult.commute)
  then show ?thesis using False by (auto simp: hex_decode_def)
qed

lemma lower_hex: "map ascii_lower (hex_encode bs) = hex_encode bs"
  by (induction bs) (simp_all add: Let_def nibbles_below_16 digit_lower)

lemma hex_decode_encode [simp]: "hex_decode (length bs) (hex_encode bs) = Some bs"
  by (simp add: hex_decode_iff lower_hex)

lemma fill_slots_iff:
  "fill_slots n k seq = Inr (out, rest) \<longleftrightarrow> length out = k \<and> seq = map Inr out @ rest"
proof (induction n k seq arbitrary: out rest rule: fill_slots.induct)
  case (4 n k b seq)
  then show ?case by (cases out) (auto simp: rbind_eq_Inr_iff)
qed (auto simp: Cons_eq_append_conv)

lemma visit_seq_iff: "bytes_visit_seq n seq = Inr out \<longleftrightarrow> length out = n \<and> seq = map Inr out"
proof -
  have "bytes_visit_seq n seq = Inr out \<longleftrightarrow> fill_slots n n seq = Inr (out, [])"
  proof (cases "fill_slots n n seq")
    case (Inr p)
    then show ?thesis
      by (cases p; cases "snd p"; cases "hd (snd p)") (auto simp: bytes_visit_seq_def)
  qed (simp add: bytes_visit_seq_def)
  then show ?thesis by (simp add: fill_slots_iff)
qed

text \<open>The calls of a format that carry a byte string, and how a format hands back what it was given.\<close>

fun carries :: "bool \<Rightarrow> de_call \<Rightarrow> bytes \<Rightarrow> bool" where
  "carries True (Visit_str v) bs \<longleftrightarrow> map ascii_lower v = hex_encode bs"
| "carries False (Visit_bytes v) bs \<longleftrightarrow> v = bs"
| "carries False (Visit_borrowed_bytes v) bs \<longleftrightarrow> v = bs"
| "carries False (Visit_byte_buf v) bs \<longleftrightarrow> v = bs"
| "carries False (Visit_seq seq) bs \<longleftrightarrow> seq = map Inr bs"
| "carries _ _ _ \<longleftrightarrow> False"

fun delivers :: "ser_call \<Rightarrow> de_call \<Rightarrow> bool" where
  "delivers (SerializeStr s) d \<longleftrightarrow> d = Visit_str s"
| "delivers (SerializeBytes b) d \<longleftrightarrow>
     d = Visit_bytes b \<or> d = Visit_borrowed_bytes b \<or> d = Visit_byte_buf b \<or> d = Visit_seq (map Inr b)"

lemma hex_visit_iff: "hex_visit_str n v = Inr bs \<longleftrightarrow> hex_decode n v = Some bs"
  by (auto simp: hex_visit_str_def split: option.splits)

lemma deser_fixed_iff: "deser_fixed n hr d = Inr bs \<longleftrightarrow> length bs = n \<and> carries hr d bs"
  by (cases hr; cases d)
    (auto simp: deser_fixed_def hex_visit_iff bytes_visit_bytes_def visit_seq_iff hex_decode_iff)

lemma delivers_carries: "delivers (ser_fixed bs hr) d \<Longrightarrow> carries hr d bs"
  by (cases hr) (auto simp: ser_fixed_def lower_hex)

section \<open>The shared shape of the impls\<close>

locale serde_type = wire_codec +
  fixes ser :: "'a \<Rightarrow> 'b \<Rightarrow> bool \<Rightarrow> ser_call"
    and de :: "'a \<Rightarrow> bool \<Rightarrow> de_call \<Rightarrow> serde_fault + 'b"
  assumes ser_eq: "ser e x hr = ser_fixed (enc e x) hr"
    and de_eq: "de e hr d = deserialize_with len (dec e) hr d"
begin

lemma map_err_custom_dec: "map_err_custom (dec e bs) = Inr x \<longleftrightarrow> dec e bs = Inr x"
  by (auto simp: map_err_custom_def split: sum.splits fault.splits)

lemma accepts_iff: "ok e \<Longrightarrow> de e hr d = Inr x \<longleftrightarrow> valid e x \<and> carries hr d (enc e x)"
  using enc_length [of e x]
  by (auto simp: de_eq deserialize_with_def map_err_custom_dec dec_iff deser_fixed_iff split: sum.splits)
     (metis deser_fixed_iff sum.inject(2) Inr_not_Inl)+

lemma round_trip: "ok e \<Longrightarrow> valid e x \<Longrightarrow> delivers (ser e x hr) d \<Longrightarrow> de e hr d = Inr x"
  by (simp add: accepts_iff ser_eq delivers_carries)

lemma never_unwinds: "de e hr d \<noteq> Inl (Unwinds f)"
  using dec_no_abort [of e]
  by (auto simp: de_eq deserialize_with_def map_err_custom_def no_abort_iff split: sum.splits fault.splits)

end

interpretation sk_serde: serde_type encoding_laws SCALAR_LEN valid_secret SecretKey_to_bytes
  SecretKey_from_bytes SecretKey_serialize SecretKey_deserialize
  by unfold_locales (simp_all add: SecretKey_serialize_def SecretKey_deserialize_def SecretKey_LEN_def)

interpretation pk_serde: serde_type encoding_laws ELEMENT_LEN valid_public PublicKey_to_bytes
  PublicKey_from_bytes PublicKey_serialize PublicKey_deserialize
  by unfold_locales (simp_all add: PublicKey_serialize_def PublicKey_deserialize_def PublicKey_LEN_def)

interpretation be_serde: serde_type encoding_laws ELEMENT_LEN valid_blinded BlindedElement_to_bytes
  BlindedElement_from_bytes BlindedElement_serialize BlindedElement_deserialize
  by unfold_locales (simp_all add: BlindedElement_serialize_def BlindedElement_deserialize_def BlindedElement_LEN_def)

interpretation ee_serde: serde_type encoding_laws ELEMENT_LEN valid_evaluated EvaluatedElement_to_bytes
  EvaluatedElement_from_bytes EvaluatedElement_serialize EvaluatedElement_deserialize
  by unfold_locales (simp_all add: EvaluatedElement_serialize_def EvaluatedElement_deserialize_def EvaluatedElement_LEN_def)

interpretation proof_serde: serde_type encoding_laws "SCALAR_LEN + SCALAR_LEN" "\<lambda>e z. True \<and> True"
  Proof_to_bytes Proof_from_bytes Proof_serialize Proof_deserialize
  by (intro serde_type.intro serde_type_axioms.intro proof_codec.whole.wire_codec_axioms)
    (simp_all add: Proof_serialize_def Proof_deserialize_def Proof_LEN_def mult_2)

interpretation bs_serde: serde_type encoding_laws "SCALAR_LEN + ELEMENT_LEN"
  "\<lambda>e z. True \<and> \<not> is_identity e (bs_tweaked_key z)"
  PoprfBlindState_to_bytes PoprfBlindState_from_bytes PoprfBlindState_serialize PoprfBlindState_deserialize
  by (intro serde_type.intro serde_type_axioms.intro bs_codec.whole.wire_codec_axioms)
    (simp_all add: PoprfBlindState_serialize_def PoprfBlindState_deserialize_def PoprfBlindState_LEN_def)

interpretation out_serde: serde_type "\<lambda>_. True" HASH_LEN "\<lambda>_ out. length (output_bytes out) = 64"
  "\<lambda>_. PoprfOutput_as_bytes" "\<lambda>_. PoprfOutput_from_bytes" "\<lambda>_. PoprfOutput_serialize"
  "\<lambda>_. PoprfOutput_deserialize"
  by unfold_locales (simp_all add: PoprfOutput_serialize_def PoprfOutput_deserialize_def PoprfOutput_LEN_def)

end
