(* ===== verification/Serde_Properties.thy ===== *)
theory Serde_Properties
  imports Serde Toy_Run
begin

text \<open>
  The properties of the serde impls: values survive serialisation in every format, and a
  deserializer accepts exactly the encodings of valid values.
\<close>

text \<open>Every wire type survives serialisation. Whatever the format, human-readable or not, and
  however it hands the written string or bytes back (as a slice, borrowed, owned or element by
  element), deserialising what was serialised gives the value back.\<close>

theorem serde_round_trip:
  assumes E: "encoding_laws E"
  shows "(valid_secret E sk \<and> delivers (SecretKey_serialize E sk hr) d \<longrightarrow>
      SecretKey_deserialize E hr d = Inr sk) \<and>
    (valid_public E pk \<and> delivers (PublicKey_serialize E pk hr) d \<longrightarrow>
      PublicKey_deserialize E hr d = Inr pk) \<and>
    (valid_blinded E bl \<and> delivers (BlindedElement_serialize E bl hr) d \<longrightarrow>
      BlindedElement_deserialize E hr d = Inr bl) \<and>
    (valid_evaluated E ev \<and> delivers (EvaluatedElement_serialize E ev hr) d \<longrightarrow>
      EvaluatedElement_deserialize E hr d = Inr ev) \<and>
    (delivers (Proof_serialize E pf hr) d \<longrightarrow> Proof_deserialize E hr d = Inr pf) \<and>
    (\<not> is_identity E (bs_tweaked_key st) \<and> delivers (PoprfBlindState_serialize E st hr) d \<longrightarrow>
      PoprfBlindState_deserialize E hr d = Inr st) \<and>
    (length (output_bytes out) = 64 \<and> delivers (PoprfOutput_serialize out hr) d \<longrightarrow>
      PoprfOutput_deserialize hr d = Inr out)"
  by (simp add: E sk_serde.round_trip pk_serde.round_trip be_serde.round_trip ee_serde.round_trip
      proof_serde.round_trip bs_serde.round_trip out_serde.round_trip)

theorem serde_round_trip_witness:
  "PublicKey_deserialize E3 True (Visit_str (hex_encode (tri_encode T2))) = Inr (PublicKey T2)"
proof -
  have "valid_public E3 (PublicKey T2) \<and>
      delivers (PublicKey_serialize E3 (PublicKey T2) True) (Visit_str (hex_encode (tri_encode T2)))"
    by (simp add: valid_public_def PublicKey_serialize_def ser_fixed_def PublicKey_to_bytes_def
        serialize_element_array_def)
  then show ?thesis using serde_round_trip [OF env_lawsD(3) [OF toy_laws]] by blast
qed

text \<open>C25: Deserialising accepts nothing else. Each impl yields a value exactly when the value is
  valid and the format delivered its encoding: as hex digits of either case to a human-readable
  format, as bytes or as a sequence of exactly that many bytes to the others. No input makes
  the conversion behind it panic.\<close>

theorem serde_accepts_exactly:
  assumes E: "encoding_laws E"
  shows "(SecretKey_deserialize E hr d = Inr sk \<longleftrightarrow> valid_secret E sk \<and> carries hr d (SecretKey_to_bytes E sk)) \<and>
    (PublicKey_deserialize E hr d = Inr pk \<longleftrightarrow> valid_public E pk \<and> carries hr d (PublicKey_to_bytes E pk)) \<and>
    (BlindedElement_deserialize E hr d = Inr bl \<longleftrightarrow>
      valid_blinded E bl \<and> carries hr d (BlindedElement_to_bytes E bl)) \<and>
    (EvaluatedElement_deserialize E hr d = Inr ev \<longleftrightarrow>
      valid_evaluated E ev \<and> carries hr d (EvaluatedElement_to_bytes E ev)) \<and>
    (Proof_deserialize E hr d = Inr pf \<longleftrightarrow> carries hr d (Proof_to_bytes E pf)) \<and>
    (PoprfBlindState_deserialize E hr d = Inr st \<longleftrightarrow>
      \<not> is_identity E (bs_tweaked_key st) \<and> carries hr d (PoprfBlindState_to_bytes E st)) \<and>
    (PoprfOutput_deserialize hr d = Inr out \<longleftrightarrow>
      length (output_bytes out) = 64 \<and> carries hr d (PoprfOutput_as_bytes out)) \<and>
    SecretKey_deserialize E hr d \<noteq> Inl (Unwinds f) \<and> PublicKey_deserialize E hr d \<noteq> Inl (Unwinds f) \<and>
    BlindedElement_deserialize E hr d \<noteq> Inl (Unwinds f) \<and> EvaluatedElement_deserialize E hr d \<noteq> Inl (Unwinds f) \<and>
    Proof_deserialize E hr d \<noteq> Inl (Unwinds f) \<and> PoprfBlindState_deserialize E hr d \<noteq> Inl (Unwinds f) \<and>
    PoprfOutput_deserialize hr d \<noteq> Inl (Unwinds f)"
  using sk_serde.accepts_iff [OF E, of hr d sk] pk_serde.accepts_iff [OF E, of hr d pk]
    be_serde.accepts_iff [OF E, of hr d bl] ee_serde.accepts_iff [OF E, of hr d ev]
    proof_serde.accepts_iff [OF E, of hr d pf] bs_serde.accepts_iff [OF E, of hr d st]
    out_serde.accepts_iff [OF TrueI, of hr d out]
  by (simp add: sk_serde.never_unwinds pk_serde.never_unwinds be_serde.never_unwinds
      ee_serde.never_unwinds proof_serde.never_unwinds bs_serde.never_unwinds out_serde.never_unwinds)

theorem serde_accepts_exactly_witness:
  "SecretKey_deserialize E3 True (Visit_str (map ascii_lower (hex_encode (tri_encode T2)))) = Inr (SecretKey T2) \<and>
    SecretKey_deserialize E3 False (Visit_str (hex_encode (tri_encode T2))) \<noteq> Inr (SecretKey T2)"
  using serde_accepts_exactly [OF env_lawsD(3) [OF toy_laws], where hr = True and sk = "SecretKey T2", THEN conjunct1]
    serde_accepts_exactly [OF env_lawsD(3) [OF toy_laws], where hr = False and sk = "SecretKey T2", THEN conjunct1]
  by (simp add: valid_secret_def SecretKey_to_bytes_def serialize_scalar_array_def lower_hex)

end
