(* ===== verification/Ffi.thy ===== *)
theory Ffi
  imports Poprf_Client Poprf_Server
begin

text \<open>
  \<open>poprf-ristretto-ffi/src/lib.rs\<close>: the C ABI. Its state is the heap of boxed objects behind
  opaque pointers, the thread's last error, and, as far as the functions touch it, the memory
  of the C caller. A function returns, aborts the process (a panic at an \<open>extern "C"\<close>
  boundary), loops, or has undefined behaviour: the use of a pointer against its \<open># Safety\<close>
  section. Every exported function is one definition, from the state to such an outcome.

  Strings are their UTF-8 bytes. \<open>NULL\<close> is the address 0.
\<close>

type_synonym addr = nat

abbreviation NULL :: addr where
  "NULL \<equiv> 0"

section \<open>State\<close>

text \<open>What a pointer of the library points to.\<close>

datatype ('s, 'p, 't, 'h) obj =
    SecretKeyObj "'s SecretKey"
  | PublicKeyObj "'p PublicKey"
  | BlindedObj "'p BlindedElement"
  | EvaluatedObj "'p EvaluatedElement"
  | ProofObj "'s Proof"
  | OutputObj PoprfOutput
  | TableObj "('p, 't, 'h) PoprfInputTable"
  | CStringObj bytes

text \<open>
  The caller's memory: readable byte regions, arrays of handles, and arrays of out slots, each
  by the address of its first element. A slot holds \<open>None\<close> while it is uninitialised.
\<close>

record ('s, 'p, 't, 'h, 'r) ffi =
  heap :: "addr \<Rightarrow> ('s, 'p, 't, 'h) obj option"
  LAST_ERROR :: "bytes option"
  c_bytes :: "addr \<Rightarrow> bytes option"
  c_handles :: "addr \<Rightarrow> addr list option"
  c_slots :: "addr \<Rightarrow> addr option list option"
  os_rng :: 'r

text \<open>What the crate calls beside the core crate: the base64 engine and the global allocator.\<close>

record ('s, 'p, 't, 'h, 'r) lib =
  core :: "('s, 'p, 't, 'h, 'r) env"
  B64_encode :: "bytes \<Rightarrow> bytes"
  B64_decode :: "bytes \<Rightarrow> bytes + bytes"
  malloc :: "(addr \<Rightarrow> ('s, 'p, 't, 'h) obj option) \<Rightarrow> addr"

definition b64_laws :: "('s, 'p, 't, 'h, 'r) lib \<Rightarrow> bool" where
  "b64_laws L \<longleftrightarrow>
     (\<forall>bs. B64_decode L (B64_encode L bs) = Inr bs) \<and> (\<forall>bs. 0 \<notin> set (B64_encode L bs))"

definition alloc_laws :: "('s, 'p, 't, 'h, 'r) lib \<Rightarrow> bool" where
  "alloc_laws L \<longleftrightarrow> (\<forall>h. finite (dom h) \<longrightarrow> malloc L h \<noteq> NULL \<and> h (malloc L h) = None)"

definition lib_laws :: "('s, 'p, 't, 'h, 'r) lib \<Rightarrow> bool" where
  "lib_laws L \<longleftrightarrow> env_laws (core L) \<and> b64_laws L \<and> alloc_laws L"

section \<open>Outcomes\<close>

datatype 'a outcome = Returns 'a | Undefined | Aborts | Hangs

fun obind :: "'a outcome \<Rightarrow> ('a \<Rightarrow> 'b outcome) \<Rightarrow> 'b outcome" where
  "obind (Returns x) f = f x"
| "obind Undefined f = Undefined"
| "obind Aborts f = Aborts"
| "obind Hangs f = Hangs"

text \<open>A call of the core crate: its value and its error go on, a panic or a loop does not.\<close>

fun on_result :: "'a res \<Rightarrow> ('a \<Rightarrow> 'b outcome) \<Rightarrow> (error \<Rightarrow> 'b outcome) \<Rightarrow> 'b outcome" where
  "on_result (Inr x) ok err = ok x"
| "on_result (Inl (Err e)) ok err = err e"
| "on_result (Inl Panic) ok err = Aborts"
| "on_result (Inl Diverge) ok err = Hangs"

section \<open>Last error, boxes, raw slices\<close>

text \<open>\<open>CString::new\<close> refuses interior NUL bytes.\<close>

definition set_error :: "bytes \<Rightarrow> ('s, 'p, 't, 'h, 'r) ffi \<Rightarrow> ('s, 'p, 't, 'h, 'r) ffi" where
  "set_error msg st = st\<lparr>LAST_ERROR := Some (if 0 \<in> set msg then ascii ''error'' else msg)\<rparr>"

definition clear_error :: "('s, 'p, 't, 'h, 'r) ffi \<Rightarrow> ('s, 'p, 't, 'h, 'r) ffi" where
  "clear_error st = st\<lparr>LAST_ERROR := None\<rparr>"

text \<open>\<open>set_error(..); return v\<close>\<close>

definition fail_with ::
  "'v \<Rightarrow> bytes \<Rightarrow> ('s, 'p, 't, 'h, 'r) ffi \<Rightarrow> ('v \<times> ('s, 'p, 't, 'h, 'r) ffi) outcome" where
  "fail_with v msg st = Returns (v, set_error msg st)"

text \<open>\<open>Box::into_raw(Box::new(x))\<close>, and the same for a list, in order.\<close>

definition into_raw :: "('s, 'p, 't, 'h, 'r) lib \<Rightarrow> ('s, 'p, 't, 'h) obj \<Rightarrow> ('s, 'p, 't, 'h, 'r) ffi \<Rightarrow>
    addr \<times> ('s, 'p, 't, 'h, 'r) ffi" where
  "into_raw L x st = (let p = malloc L (heap st) in (p, st\<lparr>heap := (heap st)(p \<mapsto> x)\<rparr>))"

fun into_raw_all :: "('s, 'p, 't, 'h, 'r) lib \<Rightarrow> ('s, 'p, 't, 'h) obj list \<Rightarrow>
    ('s, 'p, 't, 'h, 'r) ffi \<Rightarrow> addr list \<times> ('s, 'p, 't, 'h, 'r) ffi" where
  "into_raw_all L [] st = ([], st)"
| "into_raw_all L (x # xs) st =
     (let (p, st) = into_raw L x st; (ps, st) = into_raw_all L xs st in (p # ps, st))"

definition return_box :: "('s, 'p, 't, 'h, 'r) lib \<Rightarrow> ('s, 'p, 't, 'h) obj \<Rightarrow>
    ('s, 'p, 't, 'h, 'r) ffi \<Rightarrow> (addr \<times> ('s, 'p, 't, 'h, 'r) ffi) outcome" where
  "return_box L x st = Returns (into_raw L x st)"

text \<open>\<open>*p\<close> for a pointer to a live object of the type that \<open>sel\<close> selects.\<close>

definition deref :: "(('s, 'p, 't, 'h) obj \<Rightarrow> 'a option) \<Rightarrow> addr \<Rightarrow> ('s, 'p, 't, 'h, 'r) ffi \<Rightarrow> 'a outcome" where
  "deref sel p st =
     (case heap st p of
        None \<Rightarrow> Undefined
      | Some x \<Rightarrow> (case sel x of None \<Rightarrow> Undefined | Some v \<Rightarrow> Returns v))"

text \<open>\<open>if !p.is_null() { drop(Box::from_raw(p)) }\<close>, also for \<open>CString::from_raw\<close>.\<close>

definition drop_raw :: "(('s, 'p, 't, 'h) obj \<Rightarrow> 'a option) \<Rightarrow> addr \<Rightarrow> ('s, 'p, 't, 'h, 'r) ffi \<Rightarrow>
    (unit \<times> ('s, 'p, 't, 'h, 'r) ffi) outcome" where
  "drop_raw sel p st =
     (if p = NULL then Returns ((), st)
      else obind (deref sel p st) (\<lambda>_. Returns ((), st\<lparr>heap := (heap st)(p := None)\<rparr>)))"

fun as_secret_key where
  "as_secret_key (SecretKeyObj x) = Some x" | "as_secret_key _ = None"

fun as_public_key where
  "as_public_key (PublicKeyObj x) = Some x" | "as_public_key _ = None"

fun as_blinded where
  "as_blinded (BlindedObj x) = Some x" | "as_blinded _ = None"

fun as_evaluated where
  "as_evaluated (EvaluatedObj x) = Some x" | "as_evaluated _ = None"

fun as_proof where
  "as_proof (ProofObj x) = Some x" | "as_proof _ = None"

fun as_output where
  "as_output (OutputObj x) = Some x" | "as_output _ = None"

fun as_table where
  "as_table (TableObj x) = Some x" | "as_table _ = None"

fun as_cstring where
  "as_cstring (CStringObj x) = Some x" | "as_cstring _ = None"

text \<open>\<open>slice::from_raw_parts\<close> on the caller's memory; a slice of no bytes needs no region.\<close>

definition bytes_from_raw :: "('s, 'p, 't, 'h, 'r) ffi \<Rightarrow> addr \<Rightarrow> nat \<Rightarrow> bytes option outcome" where
  "bytes_from_raw st ptr len =
     (if ptr = NULL then Returns (if len = 0 then Some [] else None)
      else if len = 0 then Returns (Some [])
      else case c_bytes st ptr of
          None \<Rightarrow> Undefined
        | Some region \<Rightarrow> if len \<le> length region then Returns (Some (take len region)) else Undefined)"

definition handles_from_raw :: "('s, 'p, 't, 'h, 'r) ffi \<Rightarrow> addr \<Rightarrow> nat \<Rightarrow> addr list outcome" where
  "handles_from_raw st ptr n =
     (case c_handles st ptr of
        None \<Rightarrow> Undefined
      | Some ps \<Rightarrow> if n \<le> length ps then Returns (take n ps) else Undefined)"

text \<open>
  Writing \<open>n\<close> pointers to an out array. \<open>slice::from_raw_parts_mut\<close> at the type of the pointers
  requires initialised memory (\<open>init\<close>); at \<open>MaybeUninit\<close> of it, and for a plain store through
  a raw pointer, it does not.
\<close>

definition store_slots :: "bool \<Rightarrow> addr \<Rightarrow> addr list \<Rightarrow> ('s, 'p, 't, 'h, 'r) ffi \<Rightarrow>
    ('s, 'p, 't, 'h, 'r) ffi outcome" where
  "store_slots init out ps st =
     (case c_slots st out of
        None \<Rightarrow> Undefined
      | Some slots \<Rightarrow>
          if length ps \<le> length slots \<and> (init \<longrightarrow> None \<notin> set (take (length ps) slots))
          then Returns (st\<lparr>c_slots := (c_slots st)(out \<mapsto> map Some ps @ drop (length ps) slots)\<rparr>)
          else Undefined)"

section \<open>Exported functions: errors and strings\<close>

definition poprf_last_error_message ::
  "('s, 'p, 't, 'h, 'r) lib \<Rightarrow> ('s, 'p, 't, 'h, 'r) ffi \<Rightarrow> (addr \<times> ('s, 'p, 't, 'h, 'r) ffi) outcome" where
  "poprf_last_error_message L st =
     (case LAST_ERROR st of
        Some s \<Rightarrow> if 0 \<in> set s then Returns (NULL, st) else return_box L (CStringObj s) st
      | None \<Rightarrow> Returns (NULL, st))"

definition poprf_c_char_destroy ::
  "addr \<Rightarrow> ('s, 'p, 't, 'h, 'r) ffi \<Rightarrow> (unit \<times> ('s, 'p, 't, 'h, 'r) ffi) outcome" where
  "poprf_c_char_destroy s st = drop_raw as_cstring s st"

definition cstring_or_null :: "('s, 'p, 't, 'h, 'r) lib \<Rightarrow> bytes \<Rightarrow>
    ('s, 'p, 't, 'h, 'r) ffi \<Rightarrow> (addr \<times> ('s, 'p, 't, 'h, 'r) ffi) outcome" where
  "cstring_or_null L buf st =
     (let s = B64_encode L buf in
      if 0 \<in> set s then fail_with NULL (ascii ''internal: NUL in base64 output'') st
      else return_box L (CStringObj s) st)"

section \<open>Exported functions: keys\<close>

definition poprf_secret_key_from_seed ::
  "('s, 'p, 't, 'h, 'r) lib \<Rightarrow> addr \<Rightarrow> nat \<Rightarrow> addr \<Rightarrow> nat \<Rightarrow> ('s, 'p, 't, 'h, 'r) ffi \<Rightarrow> (addr \<times> ('s, 'p, 't, 'h, 'r) ffi) outcome" where
  "poprf_secret_key_from_seed L seed_ptr seed_len info_ptr info_len st =
     (let st = clear_error st in
      obind (bytes_from_raw st seed_ptr seed_len) (\<lambda>seed.
      case seed of
        None \<Rightarrow> fail_with NULL (ascii ''seed must be exactly 32 bytes'') st
      | Some seed \<Rightarrow>
          if length seed \<noteq> 32 then fail_with NULL (ascii ''seed must be exactly 32 bytes'') st
          else
            obind (bytes_from_raw st info_ptr info_len) (\<lambda>info.
            case info of
              None \<Rightarrow> fail_with NULL (ascii ''invalid info pointer'') st
            | Some info \<Rightarrow>
                on_result (derive_key_pair (core L) seed info)
                  (\<lambda>(sk, pk). return_box L (SecretKeyObj sk) st)
                  (\<lambda>e. fail_with NULL (ascii ''derive_key_pair: '' @ ascii (error_fmt e)) st))))"

definition poprf_secret_key_decode_base64 ::
  "('s, 'p, 't, 'h, 'r) lib \<Rightarrow> addr \<Rightarrow> nat \<Rightarrow> ('s, 'p, 't, 'h, 'r) ffi \<Rightarrow> (addr \<times> ('s, 'p, 't, 'h, 'r) ffi) outcome" where
  "poprf_secret_key_decode_base64 L s_ptr s_len st =
     (let st = clear_error st in
      obind (bytes_from_raw st s_ptr s_len) (\<lambda>s.
      case s of
        None \<Rightarrow> fail_with NULL (ascii ''invalid base64 pointer'') st
      | Some s \<Rightarrow>
          (case B64_decode L s of
             Inl e \<Rightarrow> fail_with NULL (ascii ''base64 decode: '' @ e) st
           | Inr bytes \<Rightarrow>
               on_result (SecretKey_from_bytes (core L) bytes)
                 (\<lambda>x. return_box L (SecretKeyObj x) st)
                 (\<lambda>e. fail_with NULL (ascii ''SecretKey::from_bytes: '' @ ascii (error_fmt e)) st))))"

definition poprf_secret_key_encode_base64 ::
  "('s, 'p, 't, 'h, 'r) lib \<Rightarrow> addr \<Rightarrow> ('s, 'p, 't, 'h, 'r) ffi \<Rightarrow> (addr \<times> ('s, 'p, 't, 'h, 'r) ffi) outcome" where
  "poprf_secret_key_encode_base64 L p st =
     (let st = clear_error st in
      if p = NULL then fail_with NULL (ascii ''null SecretKey'') st
      else obind (deref as_secret_key p st) (\<lambda>x. cstring_or_null L (SecretKey_to_bytes (core L) x) st))"

definition poprf_secret_key_destroy :: "addr \<Rightarrow> ('s, 'p, 't, 'h, 'r) ffi \<Rightarrow> (unit \<times> ('s, 'p, 't, 'h, 'r) ffi) outcome" where
  "poprf_secret_key_destroy p st = drop_raw as_secret_key p st"

definition poprf_public_key_from_secret ::
  "('s, 'p, 't, 'h, 'r) lib \<Rightarrow> addr \<Rightarrow> ('s, 'p, 't, 'h, 'r) ffi \<Rightarrow> (addr \<times> ('s, 'p, 't, 'h, 'r) ffi) outcome" where
  "poprf_public_key_from_secret L sk st =
     (let st = clear_error st in
      if sk = NULL then fail_with NULL (ascii ''null SecretKey'') st
      else
        obind (deref as_secret_key sk st) (\<lambda>sk.
        return_box L (PublicKeyObj (SecretKey_public_key (core L) sk)) st))"

definition poprf_public_key_encode_base64 ::
  "('s, 'p, 't, 'h, 'r) lib \<Rightarrow> addr \<Rightarrow> ('s, 'p, 't, 'h, 'r) ffi \<Rightarrow> (addr \<times> ('s, 'p, 't, 'h, 'r) ffi) outcome" where
  "poprf_public_key_encode_base64 L p st =
     (let st = clear_error st in
      if p = NULL then fail_with NULL (ascii ''null PublicKey'') st
      else obind (deref as_public_key p st) (\<lambda>x. cstring_or_null L (PublicKey_to_bytes (core L) x) st))"

definition poprf_public_key_destroy :: "addr \<Rightarrow> ('s, 'p, 't, 'h, 'r) ffi \<Rightarrow> (unit \<times> ('s, 'p, 't, 'h, 'r) ffi) outcome" where
  "poprf_public_key_destroy p st = drop_raw as_public_key p st"

section \<open>Exported functions: elements and proofs\<close>

definition poprf_blinded_element_decode_base64 ::
  "('s, 'p, 't, 'h, 'r) lib \<Rightarrow> addr \<Rightarrow> nat \<Rightarrow> ('s, 'p, 't, 'h, 'r) ffi \<Rightarrow> (addr \<times> ('s, 'p, 't, 'h, 'r) ffi) outcome" where
  "poprf_blinded_element_decode_base64 L s_ptr s_len st =
     (let st = clear_error st in
      obind (bytes_from_raw st s_ptr s_len) (\<lambda>s.
      case s of
        None \<Rightarrow> fail_with NULL (ascii ''invalid base64 pointer'') st
      | Some s \<Rightarrow>
          (case B64_decode L s of
             Inl e \<Rightarrow> fail_with NULL (ascii ''base64 decode: '' @ e) st
           | Inr bytes \<Rightarrow>
               on_result (BlindedElement_from_bytes (core L) bytes)
                 (\<lambda>x. return_box L (BlindedObj x) st)
                 (\<lambda>e. fail_with NULL (ascii ''BlindedElement::from_bytes: '' @ ascii (error_fmt e)) st))))"

definition poprf_blinded_element_destroy :: "addr \<Rightarrow> ('s, 'p, 't, 'h, 'r) ffi \<Rightarrow> (unit \<times> ('s, 'p, 't, 'h, 'r) ffi) outcome" where
  "poprf_blinded_element_destroy p st = drop_raw as_blinded p st"

definition poprf_evaluated_element_encode_base64 ::
  "('s, 'p, 't, 'h, 'r) lib \<Rightarrow> addr \<Rightarrow> ('s, 'p, 't, 'h, 'r) ffi \<Rightarrow> (addr \<times> ('s, 'p, 't, 'h, 'r) ffi) outcome" where
  "poprf_evaluated_element_encode_base64 L p st =
     (let st = clear_error st in
      if p = NULL then fail_with NULL (ascii ''null EvaluatedElement'') st
      else obind (deref as_evaluated p st) (\<lambda>x. cstring_or_null L (EvaluatedElement_to_bytes (core L) x) st))"

definition poprf_evaluated_element_destroy :: "addr \<Rightarrow> ('s, 'p, 't, 'h, 'r) ffi \<Rightarrow> (unit \<times> ('s, 'p, 't, 'h, 'r) ffi) outcome" where
  "poprf_evaluated_element_destroy p st = drop_raw as_evaluated p st"

definition poprf_proof_encode_base64 ::
  "('s, 'p, 't, 'h, 'r) lib \<Rightarrow> addr \<Rightarrow> ('s, 'p, 't, 'h, 'r) ffi \<Rightarrow> (addr \<times> ('s, 'p, 't, 'h, 'r) ffi) outcome" where
  "poprf_proof_encode_base64 L p st =
     (let st = clear_error st in
      if p = NULL then fail_with NULL (ascii ''null Proof'') st
      else obind (deref as_proof p st) (\<lambda>x. cstring_or_null L (Proof_to_bytes (core L) x) st))"

definition poprf_proof_destroy :: "addr \<Rightarrow> ('s, 'p, 't, 'h, 'r) ffi \<Rightarrow> (unit \<times> ('s, 'p, 't, 'h, 'r) ffi) outcome" where
  "poprf_proof_destroy p st = drop_raw as_proof p st"

section \<open>Exported functions: evaluation\<close>

text \<open>The loop that clones the elements behind the pointers; \<open>Inl i\<close> is a null pointer at \<open>i\<close>.\<close>

fun clone_blinded :: "('s, 'p, 't, 'h, 'r) ffi \<Rightarrow> nat \<Rightarrow> addr list \<Rightarrow> (nat + 'p BlindedElement list) outcome" where
  "clone_blinded st i [] = Returns (Inr [])"
| "clone_blinded st i (p # ps) =
     (if p = NULL then Returns (Inl i)
      else
        obind (deref as_blinded p st) (\<lambda>b.
        obind (clone_blinded st (i + 1) ps) (\<lambda>r.
        Returns (rbind r (\<lambda>bs. Inr (b # bs))))))"

definition poprf_blind_evaluate_batch ::
  "('s, 'p, 't, 'h, 'r) lib \<Rightarrow> addr \<Rightarrow> addr \<Rightarrow> nat \<Rightarrow> addr \<Rightarrow> nat \<Rightarrow> addr \<Rightarrow> addr \<Rightarrow>
    ('s, 'p, 't, 'h, 'r) ffi \<Rightarrow> (int \<times> ('s, 'p, 't, 'h, 'r) ffi) outcome" where
  "poprf_blind_evaluate_batch L sk blinded_arr n info_ptr info_len out_evaluated out_proof st =
     (let st = clear_error st in
      if sk = NULL \<or> blinded_arr = NULL \<or> out_evaluated = NULL \<or> out_proof = NULL
      then fail_with (- 1) (ascii ''null pointer in blind_evaluate_batch'') st
      else if n = 0 then fail_with (- 1) (ascii ''blind_evaluate_batch requires n >= 1'') st
      else
        obind (bytes_from_raw st info_ptr info_len) (\<lambda>info.
        case info of
          None \<Rightarrow> fail_with (- 1) (ascii ''invalid info pointer'') st
        | Some info \<Rightarrow>
            obind (handles_from_raw st blinded_arr n) (\<lambda>ptrs.
            obind (clone_blinded st 0 ptrs) (\<lambda>r.
            case r of
              Inl i \<Rightarrow> fail_with (- 1) (ascii ''null BlindedElement at index '' @ ascii (fmt_dec i)) st
            | Inr blindeds \<Rightarrow>
                obind (deref as_secret_key sk st) (\<lambda>sk.
                let server = PoprfServer_new sk in
                case PoprfServer_blind_evaluate_batch (core L) server (os_rng st) blindeds info of
                  (r, rng) \<Rightarrow>
                    let st = st\<lparr>os_rng := rng\<rparr> in
                    on_result r
                      (\<lambda>(evaluateds, proof).
                        if length evaluateds \<noteq> n
                        then fail_with (- 1) (ascii ''evaluated count mismatch'') st
                        else
                          let (ps, st) = into_raw_all L (map EvaluatedObj evaluateds) st in
                          obind (store_slots True out_evaluated ps st) (\<lambda>st.
                          let (p, st) = into_raw L (ProofObj proof) st in
                          obind (store_slots False out_proof [p] st) (\<lambda>st.
                          Returns (0, st))))
                      (\<lambda>e. fail_with (- 1)
                        (ascii ''blind_evaluate_batch: '' @ ascii (error_fmt e)) st))))))"

definition poprf_evaluate ::
  "('s, 'p, 't, 'h, 'r) lib \<Rightarrow> addr \<Rightarrow> addr \<Rightarrow> nat \<Rightarrow> addr \<Rightarrow> nat \<Rightarrow>
    ('s, 'p, 't, 'h, 'r) ffi \<Rightarrow> (addr \<times> ('s, 'p, 't, 'h, 'r) ffi) outcome" where
  "poprf_evaluate L sk input_ptr input_len info_ptr info_len st =
     (let st = clear_error st in
      if sk = NULL then fail_with NULL (ascii ''null SecretKey'') st
      else
        obind (bytes_from_raw st input_ptr input_len) (\<lambda>input.
        case input of
          None \<Rightarrow> fail_with NULL (ascii ''invalid input pointer'') st
        | Some input \<Rightarrow>
            obind (bytes_from_raw st info_ptr info_len) (\<lambda>info.
            case info of
              None \<Rightarrow> fail_with NULL (ascii ''invalid info pointer'') st
            | Some info \<Rightarrow>
                obind (deref as_secret_key sk st) (\<lambda>sk.
                let server = PoprfServer_new sk in
                on_result (PoprfServer_evaluate (core L) server input info)
                  (\<lambda>out. return_box L (OutputObj out) st)
                  (\<lambda>e. fail_with NULL (ascii ''evaluate: '' @ ascii (error_fmt e)) st)))))"

definition poprf_input_table_new ::
  "('s, 'p, 't, 'h, 'r) lib \<Rightarrow> addr \<Rightarrow> nat \<Rightarrow> ('s, 'p, 't, 'h, 'r) ffi \<Rightarrow> (addr \<times> ('s, 'p, 't, 'h, 'r) ffi) outcome" where
  "poprf_input_table_new L input_ptr input_len st =
     (let st = clear_error st in
      obind (bytes_from_raw st input_ptr input_len) (\<lambda>input.
      case input of
        None \<Rightarrow> fail_with NULL (ascii ''invalid input pointer'') st
      | Some input \<Rightarrow>
          on_result (PoprfInputTable_new (core L) input)
            (\<lambda>t. return_box L (TableObj t) st)
            (\<lambda>e. fail_with NULL (ascii ''PoprfInputTable::new: '' @ ascii (error_fmt e)) st)))"

definition poprf_input_table_destroy :: "addr \<Rightarrow> ('s, 'p, 't, 'h, 'r) ffi \<Rightarrow> (unit \<times> ('s, 'p, 't, 'h, 'r) ffi) outcome" where
  "poprf_input_table_destroy p st = drop_raw as_table p st"

text \<open>\<open>ptrs.iter().position(|p| p.is_null())\<close>, then the array read as references.\<close>

definition null_position :: "addr list \<Rightarrow> nat option" where
  "null_position ps = find (\<lambda>i. ps ! i = NULL) [0..<length ps]"

fun deref_tables :: "('s, 'p, 't, 'h, 'r) ffi \<Rightarrow> addr list \<Rightarrow> ('p, 't, 'h) PoprfInputTable list outcome" where
  "deref_tables st [] = Returns []"
| "deref_tables st (p # ps) =
     obind (deref as_table p st) (\<lambda>t. obind (deref_tables st ps) (\<lambda>ts. Returns (t # ts)))"

definition poprf_evaluate_tables ::
  "('s, 'p, 't, 'h, 'r) lib \<Rightarrow> addr \<Rightarrow> addr \<Rightarrow> nat \<Rightarrow> addr \<Rightarrow> nat \<Rightarrow> addr \<Rightarrow>
    ('s, 'p, 't, 'h, 'r) ffi \<Rightarrow> (int \<times> ('s, 'p, 't, 'h, 'r) ffi) outcome" where
  "poprf_evaluate_tables L sk tables_arr n info_ptr info_len out_outputs st =
     (let st = clear_error st in
      if sk = NULL \<or> tables_arr = NULL \<or> out_outputs = NULL
      then fail_with (- 1) (ascii ''null pointer in evaluate_tables'') st
      else if n = 0 then fail_with (- 1) (ascii ''evaluate_tables requires n >= 1'') st
      else
        obind (bytes_from_raw st info_ptr info_len) (\<lambda>info.
        case info of
          None \<Rightarrow> fail_with (- 1) (ascii ''invalid info pointer'') st
        | Some info \<Rightarrow>
            obind (handles_from_raw st tables_arr n) (\<lambda>ptrs.
            case null_position ptrs of
              Some i \<Rightarrow> fail_with (- 1) (ascii ''null PoprfInputTable at index '' @ ascii (fmt_dec i)) st
            | None \<Rightarrow>
                obind (deref_tables st ptrs) (\<lambda>tables.
                obind (deref as_secret_key sk st) (\<lambda>sk.
                let server = PoprfServer_new sk in
                on_result (PoprfServer_evaluate_tables (core L) server tables info)
                  (\<lambda>outputs.
                    if length outputs \<noteq> n then fail_with (- 1) (ascii ''output count mismatch'') st
                    else
                      let (ps, st) = into_raw_all L (map OutputObj outputs) st in
                      obind (store_slots False out_outputs ps st) (\<lambda>st. Returns (0, st)))
                  (\<lambda>e. fail_with (- 1) (ascii ''evaluate_tables: '' @ ascii (error_fmt e)) st))))))"

section \<open>Exported functions: outputs\<close>

definition poprf_output_encode_base64 ::
  "('s, 'p, 't, 'h, 'r) lib \<Rightarrow> addr \<Rightarrow> ('s, 'p, 't, 'h, 'r) ffi \<Rightarrow> (addr \<times> ('s, 'p, 't, 'h, 'r) ffi) outcome" where
  "poprf_output_encode_base64 L p st =
     (let st = clear_error st in
      if p = NULL then fail_with NULL (ascii ''null PoprfOutput'') st
      else obind (deref as_output p st) (\<lambda>x. cstring_or_null L (PoprfOutput_as_bytes x) st))"

definition poprf_output_eq_base64 ::
  "('s, 'p, 't, 'h, 'r) lib \<Rightarrow> addr \<Rightarrow> addr \<Rightarrow> nat \<Rightarrow> ('s, 'p, 't, 'h, 'r) ffi \<Rightarrow> (int \<times> ('s, 'p, 't, 'h, 'r) ffi) outcome" where
  "poprf_output_eq_base64 L p expected_ptr expected_len st =
     (let st = clear_error st in
      if p = NULL then fail_with (- 1) (ascii ''null PoprfOutput'') st
      else
        obind (bytes_from_raw st expected_ptr expected_len) (\<lambda>s.
        case s of
          None \<Rightarrow> fail_with (- 1) (ascii ''invalid expected b64 pointer'') st
        | Some s \<Rightarrow>
            (case B64_decode L s of
               Inl e \<Rightarrow> fail_with (- 1) (ascii ''base64 decode: '' @ e) st
             | Inr bytes \<Rightarrow>
                 on_result (PoprfOutput_from_bytes bytes)
                   (\<lambda>other.
                     obind (deref as_output p st) (\<lambda>out.
                     Returns (if PoprfOutput_eq (core L) out other then 1 else 0, st)))
                   (\<lambda>e. fail_with (- 1) (ascii ''PoprfOutput::from_bytes: '' @ ascii (error_fmt e)) st))))"

definition poprf_output_destroy :: "addr \<Rightarrow> ('s, 'p, 't, 'h, 'r) ffi \<Rightarrow> (unit \<times> ('s, 'p, 't, 'h, 'r) ffi) outcome" where
  "poprf_output_destroy p st = drop_raw as_output p st"

end
