(* ===== verification/Ffi_Safety.thy ===== *)
theory Ffi_Safety
  imports Ffi Protocol
begin

text \<open>
  The C ABI as a state machine: one call is one step, the caller may rewrite its own memory
  between calls, and a call is admissible when it meets the \<open># Safety\<close> sections. The heap is
  used through the interface \<open>handle_store\<close>. The lemmas give each function's outcome from the
  invariant; the sessions at the end are the reachable states.
\<close>

section \<open>The heap of handles\<close>

locale handle_store =
  fixes wf :: "'l \<Rightarrow> 'st \<Rightarrow> bool"
    and lookup :: "'st \<Rightarrow> addr \<Rightarrow> 'o option"
    and put :: "'l \<Rightarrow> 'o \<Rightarrow> 'st \<Rightarrow> addr \<times> 'st"
    and put_all :: "'l \<Rightarrow> 'o list \<Rightarrow> 'st \<Rightarrow> addr list \<times> 'st"
    and remove :: "addr \<Rightarrow> 'st \<Rightarrow> 'st"
  assumes put_fresh: "wf l st \<Longrightarrow> put l x st = (p, st') \<Longrightarrow> p \<noteq> NULL \<and> lookup st p = None"
    and put_lookup: "put l x st = (p, st') \<Longrightarrow> lookup st' = (lookup st)(p \<mapsto> x)"
    and put_wf: "wf l st \<Longrightarrow> put l x st = (p, st') \<Longrightarrow> wf l st'"
    and put_all_Nil: "put_all l [] st = ([], st)"
    and put_all_Cons: "put_all l (x # xs) st =
      (case put l x st of (p, st1) \<Rightarrow> case put_all l xs st1 of (ps, st2) \<Rightarrow> (p # ps, st2))"
    and remove_lookup: "lookup (remove p st) = (lookup st)(p := None)"
    and remove_wf: "wf l st \<Longrightarrow> wf l (remove p st)"
begin

lemma put_keeps:
  "wf l st \<Longrightarrow> put l x st = (p, st') \<Longrightarrow> lookup st q = Some y \<Longrightarrow> lookup st' q = Some y"
  using put_fresh put_lookup by fastforce

text \<open>A fresh handle is not any live one, and freeing it restores the heap.\<close>

lemma put_remove:
  "wf l st \<Longrightarrow> put l x st = (p, st') \<Longrightarrow> lookup (remove p st') = lookup st"
  using put_fresh [of l st x p st'] put_lookup [of l x st p st'] by (auto simp: remove_lookup)

lemma put_all_spec:
  assumes "wf l st" and "put_all l xs st = (ps, st')"
  shows "wf l st' \<and> length ps = length xs \<and> distinct ps \<and> NULL \<notin> set ps \<and>
    (\<forall>p \<in> set ps. lookup st p = None) \<and> (\<forall>i < length xs. lookup st' (ps ! i) = Some (xs ! i)) \<and>
    (\<forall>q. q \<notin> set ps \<longrightarrow> lookup st' q = lookup st q)"
  using assms
proof (induction xs arbitrary: st ps)
  case Nil
  then show ?case by (simp add: put_all_Nil)
next
  case (Cons x xs)
  obtain p st1 where p: "put l x st = (p, st1)" by fastforce
  obtain ps2 where ps: "put_all l xs st1 = (ps2, st')" "ps = p # ps2"
    using Cons.prems(2) p by (auto simp: put_all_Cons split: prod.splits)
  have wf1: "wf l st1" using put_wf Cons.prems(1) p by blast
  note IH = Cons.IH [OF wf1 ps(1)]
  have look: "lookup st1 = (lookup st)(p \<mapsto> x)" and fresh: "p \<noteq> NULL" "lookup st p = None"
    using put_lookup [OF p] put_fresh [OF Cons.prems(1) p] by auto
  have notin: "p \<notin> set ps2" using IH look by fastforce
  then have "lookup st' p = Some x" using IH look by simp
  moreover have "\<forall>q \<in> set ps2. lookup st q = None" using IH look by (metis fun_upd_apply option.distinct(1))
  moreover have "lookup st' ((p # ps2) ! i) = Some ((x # xs) ! i)" if "i < length (x # xs)" for i
    using that IH \<open>lookup st' p = Some x\<close> by (cases i) auto
  ultimately show ?case
    using IH notin fresh look by (auto simp: ps(2))
qed

end

definition heap_wf :: "('s, 'p, 't, 'h, 'r) lib \<Rightarrow> ('s, 'p, 't, 'h, 'r) ffi \<Rightarrow> bool" where
  "heap_wf L st \<longleftrightarrow> alloc_laws L \<and> finite (dom (heap st))"

definition free_handle :: "addr \<Rightarrow> ('s, 'p, 't, 'h, 'r) ffi \<Rightarrow> ('s, 'p, 't, 'h, 'r) ffi" where
  "free_handle p st = st\<lparr>heap := (heap st)(p := None)\<rparr>"

interpretation hs: handle_store heap_wf heap into_raw into_raw_all free_handle
  by unfold_locales
    (auto simp: heap_wf_def into_raw_def free_handle_def alloc_laws_def Let_def split: prod.splits)

section \<open>The invariant of the heap\<close>

fun valid_obj :: "('s, 'p, 't, 'h, 'r) env \<Rightarrow> ('s, 'p, 't, 'h) obj \<Rightarrow> bool" where
  "valid_obj E (SecretKeyObj sk) \<longleftrightarrow> valid_secret E sk"
| "valid_obj E (PublicKeyObj pk) \<longleftrightarrow> valid_public E pk"
| "valid_obj E (BlindedObj b) \<longleftrightarrow> valid_blinded E b"
| "valid_obj E (EvaluatedObj e) \<longleftrightarrow> valid_evaluated E e"
| "valid_obj E (ProofObj pf) \<longleftrightarrow> True"
| "valid_obj E (OutputObj out) \<longleftrightarrow> length (output_bytes out) = 64"
| "valid_obj E (TableObj tb) \<longleftrightarrow> (\<exists>input. PoprfInputTable_new E input = Inr tb)"
| "valid_obj E (CStringObj s) \<longleftrightarrow> 0 \<notin> set s"

definition ffi_inv :: "('s, 'p, 't, 'h, 'r) lib \<Rightarrow> ('s, 'p, 't, 'h, 'r) ffi \<Rightarrow> bool" where
  "ffi_inv L st \<longleftrightarrow>
     finite (dom (heap st)) \<and> heap st NULL = None \<and>
     (\<forall>p x. heap st p = Some x \<longrightarrow> valid_obj (core L) x) \<and>
     (\<forall>msg. LAST_ERROR st = Some msg \<longrightarrow> 0 \<notin> set msg)"

lemma ffi_inv_clear: "ffi_inv L st \<Longrightarrow> ffi_inv L (clear_error st)"
  by (simp add: clear_error_def ffi_inv_def)

lemma ffi_inv_set: "ffi_inv L st \<Longrightarrow> ffi_inv L (set_error msg st)"
  by (auto simp: set_error_def ffi_inv_def ascii_simps)

lemma ffi_inv_put:
  assumes "lib_laws L" and "ffi_inv L st" and "valid_obj (core L) x" and "into_raw L x st = (p, st')"
  shows "ffi_inv L st'"
proof -
  have wf: "heap_wf L st" using assms(1,2) by (simp add: heap_wf_def lib_laws_def ffi_inv_def)
  have "p \<noteq> NULL" "heap st' = (heap st)(p \<mapsto> x)"
    using hs.put_fresh [OF wf assms(4)] hs.put_lookup [OF assms(4)] by auto
  moreover have "LAST_ERROR st' = LAST_ERROR st" using assms(4) by (auto simp: into_raw_def Let_def)
  ultimately show ?thesis using assms(2,3) by (auto simp: ffi_inv_def)
qed

lemma ffi_inv_put_all:
  "lib_laws L \<Longrightarrow> ffi_inv L st \<Longrightarrow> \<forall>x \<in> set xs. valid_obj (core L) x \<Longrightarrow>
     into_raw_all L xs st = (ps, st') \<Longrightarrow> ffi_inv L st'"
proof (induction xs arbitrary: st ps)
  case (Cons x xs)
  obtain p st1 where p: "into_raw L x st = (p, st1)" by fastforce
  moreover obtain ps2 where "into_raw_all L xs st1 = (ps2, st')"
    using Cons.prems(4) p by (auto simp: Let_def split: prod.splits)
  ultimately show ?case using Cons ffi_inv_put by (metis list.set_intros(1,2))
qed simp

lemma ffi_inv_free: "ffi_inv L st \<Longrightarrow> ffi_inv L (free_handle p st)"
  by (auto simp: ffi_inv_def free_handle_def)

section \<open>Calls that return\<close>

fun runs :: "('a \<Rightarrow> bool) \<Rightarrow> 'a outcome \<Rightarrow> bool" where
  "runs Q (Returns x) \<longleftrightarrow> Q x"
| "runs Q _ \<longleftrightarrow> False"

lemma runs_iff: "runs Q r \<longleftrightarrow> (\<exists>x. r = Returns x \<and> Q x)"
  by (cases r) auto

lemma runs_mono: "runs P r \<Longrightarrow> (\<And>x. P x \<Longrightarrow> Q x) \<Longrightarrow> runs Q r"
  by (cases r) auto

lemma runs_obind [simp]: "runs Q (obind r f) \<longleftrightarrow> runs (\<lambda>x. runs Q (f x)) r"
  by (cases r) auto

lemma runs_on_result:
  "no_abort r \<Longrightarrow> (\<And>x. r = Inr x \<Longrightarrow> runs Q (ok x)) \<Longrightarrow> (\<And>e. r = Fail e \<Longrightarrow> runs Q (err e)) \<Longrightarrow>
     runs Q (on_result r ok err)"
  by (cases r rule: sum.exhaust) (auto simp: no_abort_def split: fault.splits)

lemma runs_fail_with [simp]: "runs Q (fail_with v msg st) \<longleftrightarrow> Q (v, set_error msg st)"
  by (simp add: fail_with_def)

lemma runs_return_box [simp]: "runs Q (return_box L x st) \<longleftrightarrow> Q (into_raw L x st)"
  by (simp add: return_box_def)

definition readable :: "('s, 'p, 't, 'h, 'r) ffi \<Rightarrow> addr \<Rightarrow> nat \<Rightarrow> bool" where
  "readable st ptr len \<longleftrightarrow> ptr = NULL \<or> len = 0 \<or>
     (\<exists>region. c_bytes st ptr = Some region \<and> len \<le> length region)"

definition live :: "(('s, 'p, 't, 'h) obj \<Rightarrow> 'a option) \<Rightarrow> addr \<Rightarrow> ('s, 'p, 't, 'h, 'r) ffi \<Rightarrow> bool" where
  "live sel p st \<longleftrightarrow> (\<exists>x v. heap st p = Some x \<and> sel x = Some v)"

lemma readable_returns: "readable st ptr len \<Longrightarrow> \<exists>b. bytes_from_raw st ptr len = Returns b"
  by (auto simp: readable_def bytes_from_raw_def)

lemma runs_bytes:
  "readable st ptr len \<Longrightarrow> (\<And>b. bytes_from_raw st ptr len = Returns b \<Longrightarrow> Q b) \<Longrightarrow>
     runs Q (bytes_from_raw st ptr len)"
  using readable_returns [of st ptr len] by auto

lemma deref_iff: "deref sel p st = Returns v \<longleftrightarrow> (\<exists>x. heap st p = Some x \<and> sel x = Some v)"
  by (auto simp: deref_def split: option.splits)

lemma runs_deref:
  "live sel p st \<Longrightarrow> (\<And>x v. heap st p = Some x \<Longrightarrow> sel x = Some v \<Longrightarrow> Q v) \<Longrightarrow> runs Q (deref sel p st)"
  by (auto simp: live_def deref_def)

lemma clear_error_simps [simp]:
  "heap (clear_error st) = heap st" "c_bytes (clear_error st) = c_bytes st"
  "c_handles (clear_error st) = c_handles st" "c_slots (clear_error st) = c_slots st"
  "os_rng (clear_error st) = os_rng st" "LAST_ERROR (clear_error st) = None"
  by (simp_all add: clear_error_def)

lemma set_error_simps [simp]:
  "heap (set_error msg st) = heap st" "c_bytes (set_error msg st) = c_bytes st"
  "c_handles (set_error msg st) = c_handles st" "c_slots (set_error msg st) = c_slots st"
  "os_rng (set_error msg st) = os_rng st"
  "LAST_ERROR (set_error msg st) = Some (if 0 \<in> set msg then ascii ''error'' else msg)"
  by (simp_all add: set_error_def)

lemma clear_error_reads [simp]:
  "bytes_from_raw (clear_error st) = bytes_from_raw st"
  "handles_from_raw (clear_error st) = handles_from_raw st"
  "deref sel p (clear_error st) = deref sel p st"
  "readable (clear_error st) = readable st" "live sel p (clear_error st) = live sel p st"
  by (simp_all add: bytes_from_raw_def handles_from_raw_def deref_def readable_def live_def fun_eq_iff
      cong: option.case_cong)

text \<open>
  What a function that returns a pointer leaves behind: \<open>NULL\<close>, an error message and the heap as
  it was, or no error and one new object, for which \<open>good\<close> holds. It writes nothing else.
\<close>

definition ptr_post :: "('s, 'p, 't, 'h, 'r) lib \<Rightarrow> ('s, 'p, 't, 'h, 'r) ffi \<Rightarrow>
    (('s, 'p, 't, 'h) obj \<Rightarrow> bool) \<Rightarrow> addr \<times> ('s, 'p, 't, 'h, 'r) ffi \<Rightarrow> bool" where
  "ptr_post L st good = (\<lambda>(p, st').
     ffi_inv L st' \<and> c_bytes st' = c_bytes st \<and> c_handles st' = c_handles st \<and> c_slots st' = c_slots st \<and>
     os_rng st' = os_rng st \<and>
     (if p = NULL then heap st' = heap st \<and> LAST_ERROR st' \<noteq> None
      else LAST_ERROR st' = None \<and> heap st p = None \<and> (\<exists>x. good x \<and> heap st' = (heap st)(p \<mapsto> x))))"

lemma ptr_fail: "ffi_inv L st \<Longrightarrow> ptr_post L st good (NULL, set_error msg (clear_error st))"
  by (simp add: ptr_post_def ffi_inv_set ffi_inv_clear)

lemma ptr_box:
  assumes L: "lib_laws L" and inv: "ffi_inv L st" and x: "valid_obj (core L) x" "good x"
  shows "ptr_post L st good (into_raw L x (clear_error st))"
proof -
  obtain p st' where p: "into_raw L x (clear_error st) = (p, st')" by fastforce
  have wf: "heap_wf L (clear_error st)" using L inv by (simp add: heap_wf_def lib_laws_def ffi_inv_def)
  have "p \<noteq> NULL" "heap st p = None" "heap st' = (heap st)(p \<mapsto> x)"
    using hs.put_fresh [OF wf p] hs.put_lookup [OF p] by auto
  moreover have "c_bytes st' = c_bytes st" "c_handles st' = c_handles st" "c_slots st' = c_slots st"
    "os_rng st' = os_rng st" "LAST_ERROR st' = None"
    using p by (auto simp: into_raw_def Let_def)
  ultimately show ?thesis
    using ffi_inv_put [OF L ffi_inv_clear [OF inv] x(1) p] x(2) by (auto simp: ptr_post_def p)
qed

lemma inv_valid: "ffi_inv L st \<Longrightarrow> heap st p = Some x \<Longrightarrow> valid_obj (core L) x"
  by (simp add: ffi_inv_def)

lemma as_object:
  "as_secret_key x = Some sk \<longleftrightarrow> x = SecretKeyObj sk" "as_blinded x = Some b \<longleftrightarrow> x = BlindedObj b"
  "as_table x = Some tb \<longleftrightarrow> x = TableObj tb" "as_output x = Some out \<longleftrightarrow> x = OutputObj out"
  by (cases x; simp)+

lemma inv_secret:
  "ffi_inv L st \<Longrightarrow> heap st p = Some x \<Longrightarrow> as_secret_key x = Some sk \<Longrightarrow> valid_secret (core L) sk"
  using inv_valid by (fastforce simp: as_object)

lemma core_laws: "lib_laws L \<Longrightarrow> env_laws (core L)"
  by (simp add: lib_laws_def)

lemma no_abort_decoders:
  assumes "env_laws E"
  shows "no_abort (SecretKey_from_bytes E bs)" "no_abort (BlindedElement_from_bytes E bs)"
    "no_abort (PoprfOutput_from_bytes bs)" "no_abort (derive_key_pair E seed info)"
    "no_abort (PoprfInputTable_new E input)" "no_abort (PoprfServer_evaluate E srv input info)"
  using assms sk_codec.dec_no_abort [of E] be_codec.dec_no_abort [of E] out_codec.dec_no_abort
  by (auto simp: derive_key_pair_eq env_lawsD Let_def input_table_spec evaluate_spec split: option.splits)

lemma evaluate_length:
  "env_laws E \<Longrightarrow> PoprfServer_evaluate E srv input info = Inr out \<Longrightarrow> length (output_bytes out) = 64"
  by (auto simp: evaluate_spec poprf_def split: if_splits)

section \<open>Functions that return a pointer\<close>

lemma from_seed_runs:
  assumes L: "lib_laws L" and inv: "ffi_inv L st"
    and "readable st seed_ptr seed_len" and "readable st info_ptr info_len"
  shows "runs (ptr_post L st (\<lambda>x. \<exists>seed info sk pk.
      bytes_from_raw st seed_ptr seed_len = Returns (Some seed) \<and>
      bytes_from_raw st info_ptr info_len = Returns (Some info) \<and>
      derive_key_pair (core L) seed info = Inr (sk, pk) \<and> x = SecretKeyObj sk))
    (poprf_secret_key_from_seed L seed_ptr seed_len info_ptr info_len st)"
  unfolding poprf_secret_key_from_seed_def Let_def
  using assms(3,4) derive_key_pair_valid [of "core L"]
  by (auto split: option.splits prod.splits intro!: runs_bytes runs_on_result ptr_fail ptr_box inv L
      no_abort_decoders core_laws)

lemma encode_runs:
  assumes L: "lib_laws L" and inv: "ffi_inv L st" and "p = NULL \<or> live sel p st"
  shows "runs (ptr_post L st (\<lambda>x. \<exists>y v. heap st p = Some y \<and> sel y = Some v \<and>
      x = CStringObj (B64_encode L (to_bytes v))))
    (let st = clear_error st in
     if p = NULL then fail_with NULL msg st
     else obind (deref sel p st) (\<lambda>x. cstring_or_null L (to_bytes x) st))"
  using assms L
  by (auto simp: Let_def cstring_or_null_def lib_laws_def b64_laws_def
      intro!: runs_deref ptr_fail ptr_box)

lemma secret_key_decode_runs:
  assumes L: "lib_laws L" and inv: "ffi_inv L st" and "readable st s_ptr s_len"
  shows "runs (ptr_post L st (\<lambda>x. \<exists>s bytes v. bytes_from_raw st s_ptr s_len = Returns (Some s) \<and>
      B64_decode L s = Inr bytes \<and> SecretKey_from_bytes (core L) bytes = Inr v \<and> x = SecretKeyObj v))
    (poprf_secret_key_decode_base64 L s_ptr s_len st)"
  unfolding poprf_secret_key_decode_base64_def Let_def
  using assms(3) sk_codec.dec_Inr [OF env_lawsD(3) [OF core_laws [OF L]]]
  by (auto split: option.splits sum.splits intro!: runs_bytes runs_on_result ptr_fail ptr_box inv L
      no_abort_decoders core_laws)

lemma blinded_decode_runs:
  assumes L: "lib_laws L" and inv: "ffi_inv L st" and "readable st s_ptr s_len"
  shows "runs (ptr_post L st (\<lambda>x. \<exists>s bytes v. bytes_from_raw st s_ptr s_len = Returns (Some s) \<and>
      B64_decode L s = Inr bytes \<and> BlindedElement_from_bytes (core L) bytes = Inr v \<and> x = BlindedObj v))
    (poprf_blinded_element_decode_base64 L s_ptr s_len st)"
  unfolding poprf_blinded_element_decode_base64_def Let_def
  using assms(3) be_codec.dec_Inr [OF env_lawsD(3) [OF core_laws [OF L]]]
  by (auto split: option.splits sum.splits intro!: runs_bytes runs_on_result ptr_fail ptr_box inv L
      no_abort_decoders core_laws)

lemma public_key_runs:
  assumes L: "lib_laws L" and inv: "ffi_inv L st" and "p = NULL \<or> live as_secret_key p st"
  shows "runs (ptr_post L st (\<lambda>x. \<exists>y sk. heap st p = Some y \<and> as_secret_key y = Some sk \<and>
      x = PublicKeyObj (SecretKey_public_key (core L) sk)))
    (poprf_public_key_from_secret L p st)"
  unfolding poprf_public_key_from_secret_def Let_def
  using assms(3) public_key_valid [OF group_okI [OF core_laws [OF L]] inv_secret [OF inv]]
  by (auto intro!: runs_deref ptr_fail ptr_box inv L)

lemma evaluate_runs:
  assumes L: "lib_laws L" and inv: "ffi_inv L st" and "p = NULL \<or> live as_secret_key p st"
    and "readable st input_ptr input_len" and "readable st info_ptr info_len"
  shows "runs (ptr_post L st (\<lambda>x. \<exists>y sk input info out. heap st p = Some y \<and> as_secret_key y = Some sk \<and>
      bytes_from_raw st input_ptr input_len = Returns (Some input) \<and>
      bytes_from_raw st info_ptr info_len = Returns (Some info) \<and>
      PoprfServer_evaluate (core L) (PoprfServer_new sk) input info = Inr out \<and> x = OutputObj out))
    (poprf_evaluate L p input_ptr input_len info_ptr info_len st)"
  unfolding poprf_evaluate_def Let_def
  using assms(3-5) evaluate_length [OF core_laws [OF L]]
  by (auto split: option.splits intro!: runs_bytes runs_deref runs_on_result ptr_fail ptr_box inv L
      no_abort_decoders core_laws)

lemma table_new_runs:
  assumes L: "lib_laws L" and inv: "ffi_inv L st" and "readable st input_ptr input_len"
  shows "runs (ptr_post L st (\<lambda>x. \<exists>input tb. bytes_from_raw st input_ptr input_len = Returns (Some input) \<and>
      PoprfInputTable_new (core L) input = Inr tb \<and> x = TableObj tb))
    (poprf_input_table_new L input_ptr input_len st)"
  unfolding poprf_input_table_new_def Let_def
  using assms(3)
  by (auto split: option.splits intro!: runs_bytes runs_on_result ptr_fail ptr_box inv L
      no_abort_decoders core_laws) blast

text \<open>The message call is the one that neither clears the error nor reports one.\<close>

lemma last_error_runs:
  assumes L: "lib_laws L" and inv: "ffi_inv L st"
  shows "runs (\<lambda>(p, st'). ffi_inv L st' \<and> LAST_ERROR st' = LAST_ERROR st \<and>
      (case LAST_ERROR st of
         None \<Rightarrow> p = NULL \<and> st' = st
       | Some msg \<Rightarrow> p \<noteq> NULL \<and> heap st p = None \<and> heap st' = (heap st)(p \<mapsto> CStringObj msg)))
    (poprf_last_error_message L st)"
proof (cases "LAST_ERROR st")
  case (Some msg)
  obtain p st' where p: "into_raw L (CStringObj msg) st = (p, st')" by fastforce
  have msg: "0 \<notin> set msg" using inv Some by (simp add: ffi_inv_def)
  have wf: "heap_wf L st" using L inv by (simp add: heap_wf_def lib_laws_def ffi_inv_def)
  have "LAST_ERROR st' = LAST_ERROR st" using p by (auto simp: into_raw_def Let_def)
  with hs.put_fresh [OF wf p] hs.put_lookup [OF p] ffi_inv_put [OF L inv _ p] msg Some show ?thesis
    by (simp add: poprf_last_error_message_def p)
qed (simp add: poprf_last_error_message_def inv)

lemma drop_runs:
  assumes inv: "ffi_inv L st" and "p = NULL \<or> live sel p st"
  shows "runs (\<lambda>(u, st'). ffi_inv L st' \<and> st' = (if p = NULL then st else free_handle p st))
    (drop_raw sel p st)"
  using assms ffi_inv_free [OF inv, of p]
  by (auto simp: drop_raw_def free_handle_def intro!: runs_deref)

section \<open>Functions that return a status\<close>

lemma output_eq_runs:
  assumes L: "lib_laws L" and inv: "ffi_inv L st" and "p = NULL \<or> live as_output p st"
    and "readable st s_ptr s_len"
  shows "runs (\<lambda>(r, st'). ffi_inv L st' \<and> st' = st\<lparr>LAST_ERROR := LAST_ERROR st'\<rparr> \<and>
      (r = - 1 \<and> LAST_ERROR st' \<noteq> None \<or>
       LAST_ERROR st' = None \<and> (\<exists>s out bytes. heap st p = Some (OutputObj out) \<and>
         bytes_from_raw st s_ptr s_len = Returns (Some s) \<and> B64_decode L s = Inr bytes \<and>
         length bytes = 64 \<and> r = (if output_bytes out = bytes then 1 else 0))))
    (poprf_output_eq_base64 L p s_ptr s_len st)"
proof -
  have eq: "PoprfOutput_eq (core L) out other \<longleftrightarrow> output_bytes out = output_bytes other" for out other
    using core_laws [OF L] by (simp add: PoprfOutput_eq_def env_lawsD)
  have dec: "PoprfOutput_from_bytes bytes = Inr other \<Longrightarrow> length bytes = 64 \<and> output_bytes other = bytes"
    for bytes other
    using out_codec.dec_Inr [OF TrueI, where bs = bytes and x = other] by (auto simp: PoprfOutput_as_bytes_def)
  have "clear_error st = st\<lparr>LAST_ERROR := None\<rparr>"
    "\<And>msg. set_error msg (clear_error st) = st\<lparr>LAST_ERROR := LAST_ERROR (set_error msg (clear_error st))\<rparr>"
    by (simp_all add: clear_error_def set_error_def)
  note states = this
  show ?thesis
    unfolding poprf_output_eq_base64_def Let_def
    using assms(3,4) states ffi_inv_clear [OF inv] ffi_inv_set [OF ffi_inv_clear [OF inv]] dec
    by (auto split: option.splits sum.splits simp: eq as_object
        intro!: runs_bytes runs_deref runs_on_result no_abort_decoders core_laws L) metis
qed

definition handles_ok :: "(('s, 'p, 't, 'h) obj \<Rightarrow> 'a option) \<Rightarrow> ('s, 'p, 't, 'h, 'r) ffi \<Rightarrow> addr \<Rightarrow> nat \<Rightarrow> bool" where
  "handles_ok sel st arr n \<longleftrightarrow> arr = NULL \<or>
     (\<exists>ps. c_handles st arr = Some ps \<and> n \<le> length ps \<and> (\<forall>p \<in> set (take n ps). p = NULL \<or> live sel p st))"

definition slots_ok :: "bool \<Rightarrow> ('s, 'p, 't, 'h, 'r) ffi \<Rightarrow> addr \<Rightarrow> nat \<Rightarrow> bool" where
  "slots_ok init st out n \<longleftrightarrow> out = NULL \<or>
     (\<exists>slots. c_slots st out = Some slots \<and> n \<le> length slots \<and> (init \<longrightarrow> None \<notin> set (take n slots)))"

lemma runs_handles:
  assumes "handles_ok sel st arr n" and "arr \<noteq> NULL"
    and "\<And>ps. handles_from_raw st arr n = Returns ps \<Longrightarrow> length ps = n \<Longrightarrow> \<forall>p \<in> set ps. p = NULL \<or> live sel p st \<Longrightarrow> Q ps"
  shows "runs Q (handles_from_raw st arr n)"
  using assms by (auto simp: handles_ok_def handles_from_raw_def)

lemma null_position_None: "null_position ps = None \<longleftrightarrow> NULL \<notin> set ps"
  by (auto simp: null_position_def find_None_iff in_set_conv_nth)

lemma deref_tables_returns:
  assumes "\<forall>p \<in> set ps. live as_table p st"
  shows "\<exists>ts. deref_tables st ps = Returns ts \<and> list_all2 (\<lambda>p t. heap st p = Some (TableObj t)) ps ts"
  using assms
proof (induction ps)
  case (Cons p ps)
  then obtain t ts where "heap st p = Some (TableObj t)" "deref_tables st ps = Returns ts"
    "list_all2 (\<lambda>p t. heap st p = Some (TableObj t)) ps ts"
    by (auto simp: live_def as_object)
  then show ?case by (simp add: deref_def)
qed simp

text \<open>Every table in the heap was made from some input.\<close>

lemma tables_have_inputs:
  assumes inv: "ffi_inv L st" and "list_all2 (\<lambda>p t. heap st p = Some (TableObj t)) ps ts"
  obtains inputs where "list_all2 (\<lambda>input tb. PoprfInputTable_new (core L) input = Inr tb) inputs ts"
proof -
  have "\<exists>inputs. list_all2 (\<lambda>input tb. PoprfInputTable_new (core L) input = Inr tb) inputs ts"
    using assms(2)
  proof (induction rule: list_all2_induct)
    case (Cons p ps t ts)
    then obtain input inputs where "PoprfInputTable_new (core L) input = Inr t"
      "list_all2 (\<lambda>input tb. PoprfInputTable_new (core L) input = Inr tb) inputs ts"
      using inv_valid [OF inv Cons.hyps(1)] by auto
    then have "list_all2 (\<lambda>input tb. PoprfInputTable_new (core L) input = Inr tb) (input # inputs) (t # ts)"
      by simp
    then show ?case by blast
  qed simp
  then show ?thesis using that by blast
qed

text \<open>The new objects of a status function: one per pointer, fresh, in order.\<close>

definition stored :: "('s, 'p, 't, 'h) obj list \<Rightarrow> addr list \<Rightarrow> ('s, 'p, 't, 'h, 'r) ffi \<Rightarrow>
    ('s, 'p, 't, 'h, 'r) ffi \<Rightarrow> bool" where
  "stored xs ps st st' \<longleftrightarrow> length ps = length xs \<and> distinct ps \<and> NULL \<notin> set ps \<and>
     (\<forall>p \<in> set ps. heap st p = None) \<and> (\<forall>i < length xs. heap st' (ps ! i) = Some (xs ! i)) \<and>
     (\<forall>q. q \<notin> set ps \<longrightarrow> heap st' q = heap st q)"

lemma into_raw_all_spec:
  assumes L: "lib_laws L" and inv: "ffi_inv L st" and valid: "\<forall>x \<in> set xs. valid_obj (core L) x"
    and put: "into_raw_all L xs st = (ps, st')"
  shows "ffi_inv L st' \<and> stored xs ps st st' \<and> st' = st\<lparr>heap := heap st'\<rparr>"
proof -
  have wf: "heap_wf L st" using L inv by (simp add: heap_wf_def lib_laws_def ffi_inv_def)
  have "st' = st\<lparr>heap := heap st'\<rparr>" using put
    by (induction xs arbitrary: st ps) (fastforce simp: into_raw_def Let_def split: prod.splits)+
  then show ?thesis
    using ffi_inv_put_all [OF L inv valid put] hs.put_all_spec [OF wf put] by (simp add: stored_def)
qed

lemma evaluate_tables_runs:
  assumes L: "lib_laws L" and inv: "ffi_inv L st" and sk: "p = NULL \<or> live as_secret_key p st"
    and arr: "handles_ok as_table st tables_arr n" and info: "readable st info_ptr info_len"
    and out: "slots_ok False st out n"
  shows "runs (\<lambda>(r, st'). ffi_inv L st' \<and> os_rng st' = os_rng st \<and> c_bytes st' = c_bytes st \<and> c_handles st' = c_handles st \<and>
      (r = - 1 \<and> LAST_ERROR st' \<noteq> None \<and> heap st' = heap st \<and> c_slots st' = c_slots st \<or>
       r = 0 \<and> LAST_ERROR st' = None \<and> (\<exists>sk ptrs tables info outs ps slots.
         heap st p = Some (SecretKeyObj sk) \<and> handles_from_raw st tables_arr n = Returns ptrs \<and>
         list_all2 (\<lambda>q t. heap st q = Some (TableObj t)) ptrs tables \<and>
         bytes_from_raw st info_ptr info_len = Returns (Some info) \<and>
         PoprfServer_evaluate_tables (core L) (PoprfServer_new sk) tables info = Inr outs \<and>
         length outs = n \<and> stored (map OutputObj outs) ps st st' \<and> c_slots st out = Some slots \<and>
         c_slots st' = (c_slots st)(out \<mapsto> map Some ps @ drop n slots))))
    (poprf_evaluate_tables L p tables_arr n info_ptr info_len out st)"
    (is "runs ?Q _")
proof -
  let ?st = "clear_error st"
  note E = core_laws [OF L]
  have fail: "?Q (- 1, set_error msg ?st)" for msg
    by (simp add: ffi_inv_set ffi_inv_clear inv)
  have eval: "runs ?Q (on_result (PoprfServer_evaluate_tables (core L) (PoprfServer_new sk) tables info)
      (\<lambda>outputs. if length outputs \<noteq> n then fail_with (- 1) (ascii ''output count mismatch'') ?st
        else let (ps, st) = into_raw_all L (map OutputObj outputs) ?st in
          obind (store_slots False out ps st) (\<lambda>st. Returns (0, st)))
      (\<lambda>e. fail_with (- 1) (ascii ''evaluate_tables: '' @ ascii (error_fmt e)) ?st))"
    if *: "heap st p = Some (SecretKeyObj sk)" "handles_from_raw st tables_arr n = Returns ptrs"
      "list_all2 (\<lambda>q t. heap st q = Some (TableObj t)) ptrs tables"
      "bytes_from_raw st info_ptr info_len = Returns (Some info)" "out \<noteq> NULL" for sk ptrs tables info
  proof (rule runs_on_result)
    fix outs assume outs: "PoprfServer_evaluate_tables (core L) (PoprfServer_new sk) tables info = Inr outs"
    obtain ps st1 where put: "into_raw_all L (map OutputObj outs) ?st = (ps, st1)" by fastforce
    obtain inputs where "list_all2 (\<lambda>input tb. PoprfInputTable_new (core L) input = Inr tb) inputs tables"
      by (rule tables_have_inputs [OF inv *(3)])
    then have "\<forall>x \<in> set (map OutputObj outs). valid_obj (core L) x"
      using outs E by (auto simp: evaluate_tables_spec poprf_def split: if_splits)
    note st1 = into_raw_all_spec [OF L ffi_inv_clear [OF inv] this put]
    then have keeps: "c_slots st1 = c_slots st" "c_bytes st1 = c_bytes st" "c_handles st1 = c_handles st"
      "os_rng st1 = os_rng st" "LAST_ERROR st1 = None" "length ps = length outs" "stored (map OutputObj outs) ps st st1"
      by (simp_all add: stored_def) (metis clear_error_simps ffi.select_convs ffi.surjective ffi.update_convs(1))+
    obtain slots where slots: "c_slots st out = Some slots" "n \<le> length slots"
      using out *(5) by (auto simp: slots_ok_def)
    show "runs ?Q (if length outs \<noteq> n then fail_with (- 1) (ascii ''output count mismatch'') ?st
        else let (ps, st) = into_raw_all L (map OutputObj outs) ?st in
          obind (store_slots False out ps st) (\<lambda>st. Returns (0, st)))"
      using fail st1 keeps * outs slots
      by (auto simp: put store_slots_def ffi_inv_def stored_def)
  qed (use fail no_abort_tables [OF E] in auto)
  show ?thesis
  proof (cases "p = NULL \<or> tables_arr = NULL \<or> out = NULL \<or> n = 0")
    case True
    then show ?thesis using fail by (auto simp: poprf_evaluate_tables_def Let_def)
  next
    case False
    obtain b where b: "bytes_from_raw st info_ptr info_len = Returns b"
      using readable_returns [OF info] by blast
    obtain ptrs where ptrs: "handles_from_raw st tables_arr n = Returns ptrs"
      "\<forall>p \<in> set ptrs. p = NULL \<or> live as_table p st"
      using arr False by (auto simp: handles_ok_def handles_from_raw_def)
    obtain sk' where key: "heap st p = Some (SecretKeyObj sk')"
      using sk False by (auto simp: live_def as_object)
    show ?thesis
    proof (cases "b = None \<or> NULL \<in> set ptrs")
      case True
      then have "b = None \<or> (\<exists>i. null_position ptrs = Some i)"
        using null_position_None [of ptrs] by auto
      then show ?thesis
        using False b ptrs fail by (auto simp: poprf_evaluate_tables_def Let_def split: option.splits)
    next
      case ok: False
      then obtain info' where info': "b = Some info'" by auto
      have "null_position ptrs = None" using ok null_position_None by blast
      moreover obtain tables where tables: "deref_tables st ptrs = Returns tables"
        "list_all2 (\<lambda>q t. heap st q = Some (TableObj t)) ptrs tables"
        using deref_tables_returns [of ptrs st] ptrs(2) ok by metis
      moreover have "deref_tables ?st ptrs = deref_tables st ptrs"
        by (induction ptrs) simp_all
      ultimately show ?thesis
        using eval [OF key ptrs(1) tables(2) b [unfolded info']] False b ptrs(1) info' key
        by (simp add: poprf_evaluate_tables_def Let_def deref_def)
    qed
  qed
qed

lemma clone_blinded_returns:
  assumes "\<forall>p \<in> set ps. p = NULL \<or> live as_blinded p st"
  shows "\<exists>r. clone_blinded st i ps = Returns r \<and>
    (case r of
       Inl j \<Rightarrow> NULL \<in> set ps
     | Inr bs \<Rightarrow> list_all2 (\<lambda>p b. heap st p = Some (BlindedObj b)) ps bs)"
  using assms
proof (induction ps arbitrary: i)
  case (Cons p ps)
  show ?case
  proof (cases "p = NULL")
    case False
    then obtain b where b: "heap st p = Some (BlindedObj b)"
      using Cons.prems by (auto simp: live_def as_object)
    obtain r where "clone_blinded st (i + 1) ps = Returns r" "case r of
       Inl j \<Rightarrow> NULL \<in> set ps
     | Inr bs \<Rightarrow> list_all2 (\<lambda>p b. heap st p = Some (BlindedObj b)) ps bs"
      using Cons.IH [of "i + 1"] Cons.prems by auto
    with b False show ?thesis by (cases r) (simp_all add: deref_def)
  qed simp
qed simp

lemma clone_blinded_clear [simp]: "clone_blinded (clear_error st) i ps = clone_blinded st i ps"
  by (induction ps arbitrary: i) simp_all

lemma stored_snoc:
  assumes "stored xs ps st st1" and "heap_wf L st2" and "heap st2 = heap st1" and "into_raw L x st2 = (q, st4)"
  shows "stored (xs @ [x]) (ps @ [q]) st st4"
proof -
  have q: "q \<noteq> NULL" "heap st1 q = None" "heap st4 = (heap st1)(q \<mapsto> x)"
    using hs.put_fresh [OF assms(2,4)] hs.put_lookup [OF assms(4)] assms(3) by auto
  then have "q \<notin> set ps" using assms(1) by (auto simp: stored_def in_set_conv_nth)
  moreover from this have "heap st q = None" using assms(1) q(2) by (simp add: stored_def)
  moreover have "heap st4 ((ps @ [q]) ! i) = Some ((xs @ [x]) ! i)" if "i < Suc (length xs)" for i
  proof (cases "i < length xs")
    case True
    then have "ps ! i \<noteq> q" using \<open>q \<notin> set ps\<close> assms(1) by (auto simp: stored_def)
    with True assms(1) q(3) show ?thesis by (simp add: stored_def nth_append)
  next
    case False
    with that assms(1) q(3) show ?thesis by (simp add: stored_def nth_append less_Suc_eq)
  qed
  ultimately show ?thesis using assms(1) q by (auto simp: stored_def)
qed

text \<open>What a batch evaluation leaves behind: an error and the heap and out arrays as they were, or
  the new objects in order and their handles in the out arrays.\<close>

definition batch_post :: "('s, 'p, 't, 'h, 'r) lib \<Rightarrow> addr \<Rightarrow> addr \<Rightarrow> nat \<Rightarrow> addr \<Rightarrow> nat \<Rightarrow> addr \<Rightarrow> addr \<Rightarrow>
    ('s, 'p, 't, 'h, 'r) ffi \<Rightarrow> int \<times> ('s, 'p, 't, 'h, 'r) ffi \<Rightarrow> bool" where
  "batch_post L p arr n info_ptr info_len out_e out_p st = (\<lambda>(r, st').
     ffi_inv L st' \<and> c_bytes st' = c_bytes st \<and> c_handles st' = c_handles st \<and>
     (r = - 1 \<and> LAST_ERROR st' \<noteq> None \<and> heap st' = heap st \<and> c_slots st' = c_slots st \<or>
      r = 0 \<and> LAST_ERROR st' = None \<and> (\<exists>sk ptrs bls info evs pf ps q slots rest.
        heap st p = Some (SecretKeyObj sk) \<and> handles_from_raw st arr n = Returns ptrs \<and>
        list_all2 (\<lambda>q b. heap st q = Some (BlindedObj b)) ptrs bls \<and>
        bytes_from_raw st info_ptr info_len = Returns (Some info) \<and>
        PoprfServer_blind_evaluate_batch (core L) (PoprfServer_new sk) (os_rng st) bls info =
          (Inr (evs, pf), os_rng st') \<and>
        stored (map EvaluatedObj evs @ [ProofObj pf]) (ps @ [q]) st st' \<and>
        c_slots st' = (c_slots st)(out_e \<mapsto> map Some ps @ slots, out_p \<mapsto> Some q # rest))))"

text \<open>The part of a batch evaluation after the core crate's answer.\<close>

lemma batch_stores:
  assumes L: "lib_laws L" and inv: "ffi_inv L st" and key: "heap st p = Some (SecretKeyObj sk)"
    and ptrs: "handles_from_raw st arr n = Returns ptrs"
    and all: "list_all2 (\<lambda>q b. heap st q = Some (BlindedObj b)) ptrs bls"
    and info: "bytes_from_raw st info_ptr info_len = Returns (Some info)"
    and call: "PoprfServer_blind_evaluate_batch (core L) (PoprfServer_new sk) (os_rng st) bls info = (res, rng)"
    and na: "no_abort res" and valid: "\<And>evs pf. res = Inr (evs, pf) \<Longrightarrow> \<forall>e \<in> set evs. valid_evaluated (core L) e"
    and len: "length bls = n"
    and slots: "c_slots st out_e = Some slots" "n \<le> length slots" "None \<notin> set (take n slots)"
      "c_slots st out_p = Some rest" "1 \<le> length rest"
  shows "runs (batch_post L p arr n info_ptr info_len out_e out_p st) (on_result res
      (\<lambda>(evaluateds, proof).
        if length evaluateds \<noteq> n
        then fail_with (- 1) (ascii ''evaluated count mismatch'') (clear_error st\<lparr>os_rng := rng\<rparr>)
        else
          let (ps, st) = into_raw_all L (map EvaluatedObj evaluateds) (clear_error st\<lparr>os_rng := rng\<rparr>) in
          obind (store_slots True out_e ps st) (\<lambda>st.
          let (p, st) = into_raw L (ProofObj proof) st in
          obind (store_slots False out_p [p] st) (\<lambda>st.
          Returns (0, st))))
      (\<lambda>e. fail_with (- 1) (ascii ''blind_evaluate_batch: '' @ ascii (error_fmt e)) (clear_error st\<lparr>os_rng := rng\<rparr>)))"
    (is "runs ?Q _")
proof (rule runs_on_result [OF na])
  let ?st = "clear_error st\<lparr>os_rng := rng\<rparr>"
  have inv0: "ffi_inv L ?st" using inv by (simp add: ffi_inv_def clear_error_def)
  show "runs ?Q (fail_with (- 1) (ascii ''blind_evaluate_batch: '' @ ascii (error_fmt e)) ?st)" for e
    using ffi_inv_set [OF inv0] by (simp add: batch_post_def)
  fix x assume res: "res = Inr x"
  obtain evs pf where x: "x = (evs, pf)" by fastforce
  have lev: "length evs = n"
    using batch_evaluated(4) [OF core_laws [OF L]] batch_call_evaluated call len res x by (metis length_map)
  obtain ps st1 where put: "into_raw_all L (map EvaluatedObj evs) ?st = (ps, st1)" by fastforce
  have "\<forall>x \<in> set (map EvaluatedObj evs). valid_obj (core L) x" using valid [of evs pf] res x by simp
  note st1 = into_raw_all_spec [OF L inv0 this put]
  then have lps: "length ps = n" and keeps: "c_slots st1 = c_slots st" "c_bytes st1 = c_bytes st"
    "c_handles st1 = c_handles st" "os_rng st1 = rng" "LAST_ERROR st1 = None"
    using lev by (simp_all add: stored_def)
      (metis clear_error_simps ffi.select_convs ffi.surjective ffi.update_convs(1,6))+
  let ?new = "(c_slots st)(out_e \<mapsto> map Some ps @ drop n slots)"
  let ?st2 = "st1\<lparr>c_slots := ?new\<rparr>"
  have store1: "store_slots True out_e ps st1 = Returns ?st2"
    using slots lps keeps by (simp add: store_slots_def)
  obtain q st4 where q: "into_raw L (ProofObj pf) ?st2 = (q, st4)" by fastforce
  have inv2: "ffi_inv L ?st2" using st1 by (simp add: ffi_inv_def)
  have inv4: "ffi_inv L st4" using ffi_inv_put [OF L inv2 _ q] by simp
  have keeps4: "c_slots st4 = ?new" "c_bytes st4 = c_bytes st" "c_handles st4 = c_handles st"
    "os_rng st4 = rng" "LAST_ERROR st4 = None"
    using q keeps by (auto simp: into_raw_def Let_def)
  obtain rest' where rest': "?new out_p = Some rest'" "1 \<le> length rest'"
    using slots lps by (cases "out_p = out_e") auto
  have store2: "store_slots False out_p [q] st4 = Returns (st4\<lparr>c_slots := ?new(out_p \<mapsto> Some q # drop 1 rest')\<rparr>)"
    using rest' keeps4 by (simp add: store_slots_def)
  have "heap_wf L ?st2" using L inv2 by (simp add: heap_wf_def lib_laws_def ffi_inv_def)
  then have "stored (map EvaluatedObj evs @ [ProofObj pf]) (ps @ [q]) st st4"
    using stored_snoc [OF _ _ _ q, of "map EvaluatedObj evs" ps st st1] st1 by (simp add: stored_def)
  moreover define st5 where "st5 = st4\<lparr>c_slots := ?new(out_p \<mapsto> Some q # drop 1 rest')\<rparr>"
  ultimately have st5: "stored (map EvaluatedObj evs @ [ProofObj pf]) (ps @ [q]) st st5"
    "c_slots st5 = (c_slots st)(out_e \<mapsto> map Some ps @ drop n slots, out_p \<mapsto> Some q # drop 1 rest')"
    and frame: "ffi_inv L st5" "c_bytes st5 = c_bytes st" "c_handles st5 = c_handles st" "LAST_ERROR st5 = None"
    using inv4 keeps4 by (simp_all add: stored_def ffi_inv_def)
  have call': "PoprfServer_blind_evaluate_batch (core L) (PoprfServer_new sk) (os_rng st) bls info =
      (Inr (evs, pf), os_rng st5)"
    using call res x keeps4 by (simp add: st5_def)
  have post: "?Q (0, st4\<lparr>c_slots := ?new(out_p \<mapsto> Some q # drop 1 rest')\<rparr>)"
    unfolding st5_def [symmetric] batch_post_def prod.case
    by (intro conjI disjI2 exI) (fact frame refl key ptrs all info call' st5)+
  show "runs ?Q (case x of (evaluateds, proof) \<Rightarrow>
        if length evaluateds \<noteq> n then fail_with (- 1) (ascii ''evaluated count mismatch'') ?st
        else
          let (ps, st) = into_raw_all L (map EvaluatedObj evaluateds) ?st in
          obind (store_slots True out_e ps st) (\<lambda>st.
          let (p, st) = into_raw L (ProofObj proof) st in
          obind (store_slots False out_p [p] st) (\<lambda>st.
          Returns (0, st))))"
    using post by (simp add: x lev put store1 q store2)
qed

lemma blind_evaluate_batch_runs:
  assumes L: "lib_laws L" and inv: "ffi_inv L st" and sk: "p = NULL \<or> live as_secret_key p st"
    and arr: "handles_ok as_blinded st arr n" and info: "readable st info_ptr info_len"
    and out: "slots_ok True st out_e n" "slots_ok False st out_p 1"
    and fits: "n \<le> 65536 \<or> \<not> debug_assertions (core L)" and rng: "random_scalar (core L) (os_rng st) \<noteq> None"
  shows "runs (batch_post L p arr n info_ptr info_len out_e out_p st)
    (poprf_blind_evaluate_batch L p arr n info_ptr info_len out_e out_p st)"
proof (cases "p = NULL \<or> arr = NULL \<or> out_e = NULL \<or> out_p = NULL \<or> n = 0")
  case True
  then show ?thesis
    using ffi_inv_set [OF ffi_inv_clear [OF inv]]
    by (auto simp: poprf_blind_evaluate_batch_def Let_def batch_post_def)
next
  case False
  let ?st = "clear_error st"
  note E = core_laws [OF L]
  obtain b where b: "bytes_from_raw st info_ptr info_len = Returns b"
    using readable_returns [OF info] by blast
  obtain ptrs where ptrs: "handles_from_raw st arr n = Returns ptrs" "length ptrs = n"
    "\<forall>p \<in> set ptrs. p = NULL \<or> live as_blinded p st"
    using arr False by (auto simp: handles_ok_def handles_from_raw_def)
  obtain cl where cl: "clone_blinded st 0 ptrs = Returns cl" "case cl of Inl j \<Rightarrow> NULL \<in> set ptrs
     | Inr bs \<Rightarrow> list_all2 (\<lambda>p b. heap st p = Some (BlindedObj b)) ptrs bs"
    using clone_blinded_returns [OF ptrs(3), of 0] by blast
  obtain sk' where key: "heap st p = Some (SecretKeyObj sk')"
    using sk False by (auto simp: live_def as_object)
  obtain slots rest where slots: "c_slots st out_e = Some slots" "n \<le> length slots" "None \<notin> set (take n slots)"
    "c_slots st out_p = Some rest" "1 \<le> length rest"
    using out False by (auto simp: slots_ok_def)
  show ?thesis
  proof (cases "b = None \<or> (\<exists>j. cl = Inl j)")
    case True
    then show ?thesis
      using False b ptrs cl ffi_inv_set [OF ffi_inv_clear [OF inv]]
      by (auto simp: poprf_blind_evaluate_batch_def Let_def batch_post_def split: option.splits)
  next
    case ok: False
    then obtain info' bls where info': "b = Some info'" and bls: "cl = Inr bls"
      by (metis option.exhaust sum.exhaust)
    have all: "list_all2 (\<lambda>p b. heap st p = Some (BlindedObj b)) ptrs bls" using cl(2) bls by simp
    note valid = evaluated_valid [OF E]
    have len: "length bls = n" using list_all2_lengthD [OF all] ptrs(2) by simp
    obtain res rng' where call: "PoprfServer_blind_evaluate_batch (core L) (PoprfServer_new sk') (os_rng st)
        bls info' = (res, rng')" by fastforce
    obtain r0 rng0 where r0: "random_scalar (core L) (os_rng st) = Some (r0, rng0)" using rng by auto
    have fit: "batch_fits (core L) (length bls)" using fits len by (auto simp: batch_fits_def)
    have na: "no_abort res" using no_abort_batch_r [OF E fit] call by (auto simp: batch_draws r0)
    have valid': "\<forall>e \<in> set evs. valid_evaluated (core L) e" if "res = Inr (evs, pf)" for evs pf
      using valid call that by blast
    note stores = batch_stores [OF L inv key ptrs(1) all b [unfolded info'] call na valid' len slots]
    show ?thesis
      using stores False b ptrs cl bls info' key call
      by (simp add: poprf_blind_evaluate_batch_def Let_def deref_def)
  qed
qed

end
