(* ===== verification/Ffi_Session.thy ===== *)
theory Ffi_Session
  imports Ffi_Safety
begin

text \<open>
  Sessions of a C program with the library: the calls, one step per call, the conditions the
  \<open># Safety\<close> sections put on them, and the states a session can reach.
\<close>

section \<open>Calls\<close>

datatype ffi_call =
    Call_last_error_message
  | Call_c_char_destroy addr
  | Call_secret_key_from_seed addr nat addr nat
  | Call_secret_key_decode_base64 addr nat
  | Call_secret_key_encode_base64 addr
  | Call_secret_key_destroy addr
  | Call_public_key_from_secret addr
  | Call_public_key_encode_base64 addr
  | Call_public_key_destroy addr
  | Call_blinded_element_decode_base64 addr nat
  | Call_blinded_element_destroy addr
  | Call_evaluated_element_encode_base64 addr
  | Call_evaluated_element_destroy addr
  | Call_proof_encode_base64 addr
  | Call_proof_destroy addr
  | Call_blind_evaluate_batch addr addr nat addr nat addr addr
  | Call_evaluate addr addr nat addr nat
  | Call_input_table_new addr nat
  | Call_input_table_destroy addr
  | Call_evaluate_tables addr addr nat addr nat addr
  | Call_output_encode_base64 addr
  | Call_output_eq_base64 addr addr nat
  | Call_output_destroy addr

datatype ffi_ret = RetPtr addr | RetInt int | RetUnit

definition omap :: "('a \<Rightarrow> ffi_ret) \<Rightarrow> ('a \<times> 'b) outcome \<Rightarrow> (ffi_ret \<times> 'b) outcome" where
  "omap f r = obind r (\<lambda>(x, st). Returns (f x, st))"

fun ffi_exec :: "('s, 'p, 't, 'h, 'r) lib \<Rightarrow> ffi_call \<Rightarrow> ('s, 'p, 't, 'h, 'r) ffi \<Rightarrow>
    (ffi_ret \<times> ('s, 'p, 't, 'h, 'r) ffi) outcome" where
  "ffi_exec L Call_last_error_message st = omap RetPtr (poprf_last_error_message L st)"
| "ffi_exec L (Call_c_char_destroy s) st = omap (\<lambda>_. RetUnit) (poprf_c_char_destroy s st)"
| "ffi_exec L (Call_secret_key_from_seed s sl i il) st = omap RetPtr (poprf_secret_key_from_seed L s sl i il st)"
| "ffi_exec L (Call_secret_key_decode_base64 s sl) st = omap RetPtr (poprf_secret_key_decode_base64 L s sl st)"
| "ffi_exec L (Call_secret_key_encode_base64 p) st = omap RetPtr (poprf_secret_key_encode_base64 L p st)"
| "ffi_exec L (Call_secret_key_destroy p) st = omap (\<lambda>_. RetUnit) (poprf_secret_key_destroy p st)"
| "ffi_exec L (Call_public_key_from_secret p) st = omap RetPtr (poprf_public_key_from_secret L p st)"
| "ffi_exec L (Call_public_key_encode_base64 p) st = omap RetPtr (poprf_public_key_encode_base64 L p st)"
| "ffi_exec L (Call_public_key_destroy p) st = omap (\<lambda>_. RetUnit) (poprf_public_key_destroy p st)"
| "ffi_exec L (Call_blinded_element_decode_base64 s sl) st = omap RetPtr (poprf_blinded_element_decode_base64 L s sl st)"
| "ffi_exec L (Call_blinded_element_destroy p) st = omap (\<lambda>_. RetUnit) (poprf_blinded_element_destroy p st)"
| "ffi_exec L (Call_evaluated_element_encode_base64 p) st = omap RetPtr (poprf_evaluated_element_encode_base64 L p st)"
| "ffi_exec L (Call_evaluated_element_destroy p) st = omap (\<lambda>_. RetUnit) (poprf_evaluated_element_destroy p st)"
| "ffi_exec L (Call_proof_encode_base64 p) st = omap RetPtr (poprf_proof_encode_base64 L p st)"
| "ffi_exec L (Call_proof_destroy p) st = omap (\<lambda>_. RetUnit) (poprf_proof_destroy p st)"
| "ffi_exec L (Call_blind_evaluate_batch sk arr n i il oe op) st =
     omap RetInt (poprf_blind_evaluate_batch L sk arr n i il oe op st)"
| "ffi_exec L (Call_evaluate sk x xl i il) st = omap RetPtr (poprf_evaluate L sk x xl i il st)"
| "ffi_exec L (Call_input_table_new x xl) st = omap RetPtr (poprf_input_table_new L x xl st)"
| "ffi_exec L (Call_input_table_destroy p) st = omap (\<lambda>_. RetUnit) (poprf_input_table_destroy p st)"
| "ffi_exec L (Call_evaluate_tables sk arr n i il out) st =
     omap RetInt (poprf_evaluate_tables L sk arr n i il out st)"
| "ffi_exec L (Call_output_encode_base64 p) st = omap RetPtr (poprf_output_encode_base64 L p st)"
| "ffi_exec L (Call_output_eq_base64 p s sl) st = omap RetInt (poprf_output_eq_base64 L p s sl st)"
| "ffi_exec L (Call_output_destroy p) st = omap (\<lambda>_. RetUnit) (poprf_output_destroy p st)"

section \<open>The safety sections\<close>

text \<open>A handle argument is null or a live pointer of its type.\<close>

definition handle :: "(('s, 'p, 't, 'h) obj \<Rightarrow> 'a option) \<Rightarrow> addr \<Rightarrow> ('s, 'p, 't, 'h, 'r) ffi \<Rightarrow> bool" where
  "handle sel p st \<longleftrightarrow> p = NULL \<or> live sel p st"

fun admissible :: "('s, 'p, 't, 'h, 'r) ffi \<Rightarrow> ffi_call \<Rightarrow> bool" where
  "admissible st Call_last_error_message \<longleftrightarrow> True"
| "admissible st (Call_c_char_destroy s) \<longleftrightarrow> handle as_cstring s st"
| "admissible st (Call_secret_key_from_seed s sl i il) \<longleftrightarrow> readable st s sl \<and> readable st i il"
| "admissible st (Call_secret_key_decode_base64 s sl) \<longleftrightarrow> readable st s sl"
| "admissible st (Call_secret_key_encode_base64 p) \<longleftrightarrow> handle as_secret_key p st"
| "admissible st (Call_secret_key_destroy p) \<longleftrightarrow> handle as_secret_key p st"
| "admissible st (Call_public_key_from_secret p) \<longleftrightarrow> handle as_secret_key p st"
| "admissible st (Call_public_key_encode_base64 p) \<longleftrightarrow> handle as_public_key p st"
| "admissible st (Call_public_key_destroy p) \<longleftrightarrow> handle as_public_key p st"
| "admissible st (Call_blinded_element_decode_base64 s sl) \<longleftrightarrow> readable st s sl"
| "admissible st (Call_blinded_element_destroy p) \<longleftrightarrow> handle as_blinded p st"
| "admissible st (Call_evaluated_element_encode_base64 p) \<longleftrightarrow> handle as_evaluated p st"
| "admissible st (Call_evaluated_element_destroy p) \<longleftrightarrow> handle as_evaluated p st"
| "admissible st (Call_proof_encode_base64 p) \<longleftrightarrow> handle as_proof p st"
| "admissible st (Call_proof_destroy p) \<longleftrightarrow> handle as_proof p st"
| "admissible st (Call_blind_evaluate_batch sk arr n i il oe op) \<longleftrightarrow>
     handle as_secret_key sk st \<and> handles_ok as_blinded st arr n \<and> readable st i il \<and>
     slots_ok True st oe n \<and> slots_ok False st op 1"
| "admissible st (Call_evaluate sk x xl i il) \<longleftrightarrow>
     handle as_secret_key sk st \<and> readable st x xl \<and> readable st i il"
| "admissible st (Call_input_table_new x xl) \<longleftrightarrow> readable st x xl"
| "admissible st (Call_input_table_destroy p) \<longleftrightarrow> handle as_table p st"
| "admissible st (Call_evaluate_tables sk arr n i il out) \<longleftrightarrow>
     handle as_secret_key sk st \<and> handles_ok as_table st arr n \<and> readable st i il \<and> slots_ok False st out n"
| "admissible st (Call_output_encode_base64 p) \<longleftrightarrow> handle as_output p st"
| "admissible st (Call_output_eq_base64 p s sl) \<longleftrightarrow> handle as_output p st \<and> readable st s sl"
| "admissible st (Call_output_destroy p) \<longleftrightarrow> handle as_output p st"

text \<open>The two conditions on the core crate: a batch within the index, a generator that returns.\<close>

fun call_fits :: "('s, 'p, 't, 'h, 'r) lib \<Rightarrow> ('s, 'p, 't, 'h, 'r) ffi \<Rightarrow> ffi_call \<Rightarrow> bool" where
  "call_fits L st (Call_blind_evaluate_batch sk arr n i il oe op) \<longleftrightarrow>
     (n \<le> 65536 \<or> \<not> debug_assertions (core L)) \<and> random_scalar (core L) (os_rng st) \<noteq> None"
| "call_fits L st _ \<longleftrightarrow> True"

section \<open>Every admissible call returns\<close>

text \<open>How a call reports: a null pointer or \<open>-1\<close> for a failure; destructors do not fail.\<close>

fun ret_failed :: "ffi_ret \<Rightarrow> bool" where
  "ret_failed (RetPtr p) \<longleftrightarrow> p = NULL"
| "ret_failed (RetInt r) \<longleftrightarrow> r = - 1"
| "ret_failed RetUnit \<longleftrightarrow> False"

fun reports_error :: "ffi_call \<Rightarrow> bool" where
  "reports_error Call_last_error_message \<longleftrightarrow> False"
| "reports_error (Call_c_char_destroy s) \<longleftrightarrow> False"
| "reports_error (Call_secret_key_destroy p) \<longleftrightarrow> False"
| "reports_error (Call_public_key_destroy p) \<longleftrightarrow> False"
| "reports_error (Call_blinded_element_destroy p) \<longleftrightarrow> False"
| "reports_error (Call_evaluated_element_destroy p) \<longleftrightarrow> False"
| "reports_error (Call_proof_destroy p) \<longleftrightarrow> False"
| "reports_error (Call_input_table_destroy p) \<longleftrightarrow> False"
| "reports_error (Call_output_destroy p) \<longleftrightarrow> False"
| "reports_error _ \<longleftrightarrow> True"

definition call_post :: "('s, 'p, 't, 'h, 'r) lib \<Rightarrow> ('s, 'p, 't, 'h, 'r) ffi \<Rightarrow> ffi_call \<Rightarrow>
    ffi_ret \<times> ('s, 'p, 't, 'h, 'r) ffi \<Rightarrow> bool" where
  "call_post L st c = (\<lambda>(r, st'). ffi_inv L st' \<and>
     c_bytes st' = c_bytes st \<and> c_handles st' = c_handles st \<and>
     (if reports_error c
      then (LAST_ERROR st' \<noteq> None \<longleftrightarrow> ret_failed r) \<and>
           (ret_failed r \<longrightarrow> heap st' = heap st \<and> c_slots st' = c_slots st)
      else LAST_ERROR st' = LAST_ERROR st \<and> c_slots st' = c_slots st))"

lemma runs_omap [simp]: "runs Q (omap f r) \<longleftrightarrow> runs (\<lambda>(x, st). Q (f x, st)) r"
  by (cases r) (auto simp: omap_def split: prod.splits)

lemma ptr_call:
  assumes "runs (ptr_post L st good) r" and "reports_error c"
  shows "runs (call_post L st c) (omap RetPtr r)"
  unfolding runs_omap using assms
  by (auto elim!: runs_mono simp: ptr_post_def call_post_def split: if_splits)

lemma drop_call:
  assumes "ffi_inv L st" and "handle sel p st" and "\<not> reports_error c"
  shows "runs (call_post L st c) (omap (\<lambda>_. RetUnit) (drop_raw sel p st))"
  unfolding runs_omap using drop_runs [OF assms(1), of p sel] assms
  by (auto elim!: runs_mono simp: call_post_def handle_def free_handle_def split: if_splits)

lemmas destroy_defs = poprf_c_char_destroy_def poprf_secret_key_destroy_def poprf_public_key_destroy_def
  poprf_blinded_element_destroy_def poprf_evaluated_element_destroy_def poprf_proof_destroy_def
  poprf_input_table_destroy_def poprf_output_destroy_def

lemmas encode_defs = poprf_secret_key_encode_base64_def poprf_public_key_encode_base64_def
  poprf_evaluated_element_encode_base64_def poprf_proof_encode_base64_def poprf_output_encode_base64_def

lemma call_runs:
  assumes L: "lib_laws L" and inv: "ffi_inv L st" and adm: "admissible st c" and fits: "call_fits L st c"
  shows "runs (call_post L st c) (ffi_exec L c st)"
proof (cases c)
  case Call_last_error_message
  then show ?thesis
    using last_error_runs [OF L inv]
    by (auto elim!: runs_mono simp: call_post_def poprf_last_error_message_def return_box_def into_raw_def Let_def
        split: option.splits)
next
  case (Call_secret_key_from_seed s sl i il)
  then show ?thesis using ptr_call [OF from_seed_runs [OF L inv]] adm by simp
next
  case (Call_secret_key_decode_base64 s sl)
  then show ?thesis using ptr_call [OF secret_key_decode_runs [OF L inv]] adm by simp
next
  case (Call_blinded_element_decode_base64 s sl)
  then show ?thesis using ptr_call [OF blinded_decode_runs [OF L inv]] adm by simp
next
  case (Call_public_key_from_secret p)
  then show ?thesis using ptr_call [OF public_key_runs [OF L inv]] adm by (simp add: handle_def)
next
  case (Call_evaluate sk x xl i il)
  then show ?thesis using ptr_call [OF evaluate_runs [OF L inv]] adm by (simp add: handle_def)
next
  case (Call_input_table_new x xl)
  then show ?thesis using ptr_call [OF table_new_runs [OF L inv]] adm by simp
next
  case (Call_blind_evaluate_batch sk arr n i il oe op)
  then have "runs (batch_post L sk arr n i il oe op st) (poprf_blind_evaluate_batch L sk arr n i il oe op st)"
    using adm fits by (intro blind_evaluate_batch_runs [OF L inv]) (simp_all add: handle_def)
  then show ?thesis
    unfolding Call_blind_evaluate_batch ffi_exec.simps runs_omap
    by (rule runs_mono) (auto simp: call_post_def batch_post_def)
next
  case (Call_evaluate_tables sk arr n i il out)
  then show ?thesis
    using evaluate_tables_runs [OF L inv, of sk arr n i il out] adm
    by (auto elim!: runs_mono simp: call_post_def handle_def)
next
  case (Call_output_eq_base64 p s sl)
  then show ?thesis
    using output_eq_runs [OF L inv, of p s sl] adm
    by (auto elim!: runs_mono simp: call_post_def handle_def split: if_splits)
next
  case (Call_secret_key_encode_base64 p)
  then show ?thesis
    using ptr_call [OF encode_runs [OF L inv, of p as_secret_key]] adm by (simp add: handle_def encode_defs)
next
  case (Call_public_key_encode_base64 p)
  then show ?thesis
    using ptr_call [OF encode_runs [OF L inv, of p as_public_key]] adm by (simp add: handle_def encode_defs)
next
  case (Call_evaluated_element_encode_base64 p)
  then show ?thesis
    using ptr_call [OF encode_runs [OF L inv, of p as_evaluated]] adm by (simp add: handle_def encode_defs)
next
  case (Call_proof_encode_base64 p)
  then show ?thesis
    using ptr_call [OF encode_runs [OF L inv, of p as_proof]] adm by (simp add: handle_def encode_defs)
next
  case (Call_output_encode_base64 p)
  then show ?thesis
    using ptr_call [OF encode_runs [OF L inv, of p as_output]] adm by (simp add: handle_def encode_defs)
qed (use adm inv in \<open>auto simp: destroy_defs simp del: runs_omap intro!: drop_call\<close>)

section \<open>Sessions\<close>

text \<open>A step is an admissible call that returns, or a change the caller makes to its own memory.\<close>

inductive ffi_step :: "('s, 'p, 't, 'h, 'r) lib \<Rightarrow> ('s, 'p, 't, 'h, 'r) ffi \<Rightarrow> ('s, 'p, 't, 'h, 'r) ffi \<Rightarrow> bool"
  for L where
  step_call: "admissible st c \<Longrightarrow> call_fits L st c \<Longrightarrow> ffi_exec L c st = Returns (r, st') \<Longrightarrow> ffi_step L st st'"
| step_caller: "ffi_step L st (st\<lparr>c_bytes := b, c_handles := h, c_slots := s\<rparr>)"

inductive_cases ffi_stepE: "ffi_step L st st'"

inductive ffi_session :: "('s, 'p, 't, 'h, 'r) lib \<Rightarrow> ('s, 'p, 't, 'h, 'r) ffi \<Rightarrow> bool"
  for L where
  session_start: "heap st = Map.empty \<Longrightarrow> LAST_ERROR st = None \<Longrightarrow> ffi_session L st"
| session_step: "ffi_session L st \<Longrightarrow> ffi_step L st st' \<Longrightarrow> ffi_session L st'"

lemma step_inv:
  assumes L: "lib_laws L" and inv: "ffi_inv L st" and step: "ffi_step L st st'"
  shows "ffi_inv L st'"
  using step
proof (rule ffi_stepE)
  fix c r assume "admissible st c" "call_fits L st c" "ffi_exec L c st = Returns (r, st')"
  then show ?thesis using call_runs [OF L inv, of c] by (simp add: call_post_def)
next
  fix b h s assume "st' = st\<lparr>c_bytes := b, c_handles := h, c_slots := s\<rparr>"
  then show ?thesis using inv by (simp add: ffi_inv_def)
qed

lemma session_inv:
  assumes L: "lib_laws L" and "ffi_session L st"
  shows "ffi_inv L st"
  using assms(2)
proof (induction rule: ffi_session.induct)
  case (session_start st)
  then show ?case by (simp add: ffi_inv_def)
next
  case (session_step st st')
  then show ?case using step_inv [OF L] by blast
qed

end
