(* ===== verification/Ffi_Spec.thy ===== *)
theory Ffi_Spec
  imports Ffi_Session
begin

text \<open>
  What the C ABI promises, without pointers into memory, allocation or undefined behaviour: each
  call is a pure function from its arguments' values to an error message or the values it makes
  (\<open>ffi_spec\<close>), and one rule per shape of call says how such an answer reaches the caller
  (\<open>realise\<close>). The exported functions refine it.
\<close>

section \<open>Answers\<close>

datatype ('s, 'p, 't, 'h, 'r) effect =
    Create "bytes + ('s, 'p, 't, 'h) obj"
  | Say "bytes option"
  | Destroy addr
  | Reply "bytes + int"
  | Fill addr "bytes + ('s, 'p, 't, 'h) obj list"
  | Fill_and_prove addr addr "bytes + (('s, 'p, 't, 'h) obj list \<times> ('s, 'p, 't, 'h) obj)" 'r

definition failed :: "ffi_ret \<Rightarrow> bytes \<Rightarrow> ('s, 'p, 't, 'h, 'r) ffi \<Rightarrow> ffi_ret \<times> ('s, 'p, 't, 'h, 'r) ffi" where
  "failed r msg st = (r, set_error msg (clear_error st))"

text \<open>The messages of the core crate reach the caller as they are.\<close>

lemma own_message:
  assumes "0 \<notin> set (ascii msg)"
  shows "LAST_ERROR (snd (failed r (ascii msg @ ascii (error_fmt e)) st)) = Some (ascii msg @ ascii (error_fmt e))"
  using assms error_fmt_no_nul by (simp add: failed_def set_error_def)

definition fill :: "addr \<Rightarrow> addr list \<Rightarrow> ('s, 'p, 't, 'h, 'r) ffi \<Rightarrow> ('s, 'p, 't, 'h, 'r) ffi" where
  "fill out ps st = st\<lparr>c_slots := (c_slots st)(out \<mapsto> map Some ps @ drop (length ps) (the (c_slots st out)))\<rparr>"

fun realise :: "('s, 'p, 't, 'h, 'r) lib \<Rightarrow> ('s, 'p, 't, 'h, 'r) effect \<Rightarrow> ('s, 'p, 't, 'h, 'r) ffi \<Rightarrow>
    ffi_ret \<times> ('s, 'p, 't, 'h, 'r) ffi" where
  "realise L (Create (Inl msg)) st = failed (RetPtr NULL) msg st"
| "realise L (Create (Inr x)) st = (let (p, st) = into_raw L x (clear_error st) in (RetPtr p, st))"
| "realise L (Say None) st = (RetPtr NULL, st)"
| "realise L (Say (Some msg)) st = (let (p, st) = into_raw L (CStringObj msg) st in (RetPtr p, st))"
| "realise L (Destroy p) st = (RetUnit, if p = NULL then st else free_handle p st)"
| "realise L (Reply (Inl msg)) st = failed (RetInt (- 1)) msg st"
| "realise L (Reply (Inr i)) st = (RetInt i, clear_error st)"
| "realise L (Fill out (Inl msg)) st = failed (RetInt (- 1)) msg st"
| "realise L (Fill out (Inr xs)) st =
     (let (ps, st) = into_raw_all L xs (clear_error st) in (RetInt 0, fill out ps st))"
| "realise L (Fill_and_prove out out_p (Inl msg) rng) st = failed (RetInt (- 1)) msg (st\<lparr>os_rng := rng\<rparr>)"
| "realise L (Fill_and_prove out out_p (Inr (xs, y)) rng) st =
     (let (ps, st) = into_raw_all L xs (clear_error st\<lparr>os_rng := rng\<rparr>);
          (q, st) = into_raw L y (fill out ps st) in (RetInt 0, fill out_p [q] st))"

section \<open>The specification of the calls\<close>

definition arg :: "('s, 'p, 't, 'h, 'r) ffi \<Rightarrow> addr \<Rightarrow> nat \<Rightarrow> string \<Rightarrow> bytes + bytes" where
  "arg st ptr len msg =
     (case bytes_from_raw st ptr len of Returns (Some b) \<Rightarrow> Inr b | _ \<Rightarrow> Inl (ascii msg))"

definition object :: "(('s, 'p, 't, 'h) obj \<Rightarrow> 'a option) \<Rightarrow> addr \<Rightarrow> ('s, 'p, 't, 'h, 'r) ffi \<Rightarrow> string \<Rightarrow>
    bytes + 'a" where
  "object sel p st msg =
     (case if p = NULL then None else Option.bind (heap st p) sel of Some v \<Rightarrow> Inr v | None \<Rightarrow> Inl (ascii msg))"

fun answer :: "string \<Rightarrow> 'a res \<Rightarrow> bytes + 'a" where
  "answer msg (Inr x) = Inr x"
| "answer msg (Inl (Err e)) = Inl (ascii msg @ ascii (error_fmt e))"
| "answer msg (Inl _) = Inl []"

fun decoded :: "bytes + bytes \<Rightarrow> bytes + bytes" where
  "decoded (Inr b) = Inr b"
| "decoded (Inl e) = Inl (ascii ''base64 decode: '' @ e)"

definition check :: "bool \<Rightarrow> bytes \<Rightarrow> bytes + unit" where
  "check ok msg = (if ok then Inr () else Inl msg)"

text \<open>The values behind an array of handles, when none is null.\<close>

definition array :: "(('s, 'p, 't, 'h) obj \<Rightarrow> 'a option) \<Rightarrow> addr \<Rightarrow> nat \<Rightarrow> ('s, 'p, 't, 'h, 'r) ffi \<Rightarrow> string \<Rightarrow>
    bytes + 'a list" where
  "array sel arr n st what =
     (let ps = take n (the (c_handles st arr)) in
      case null_position ps of
        Some i \<Rightarrow> Inl (ascii (''null '' @ what @ '' at index '') @ ascii (fmt_dec i))
      | None \<Rightarrow> Inr (map (\<lambda>p. the (sel (the (heap st p)))) ps))"

definition text_of :: "('s, 'p, 't, 'h, 'r) lib \<Rightarrow> ('a \<Rightarrow> bytes) \<Rightarrow> bytes + 'a \<Rightarrow> ('s, 'p, 't, 'h, 'r) effect" where
  "text_of L to_bytes r = Create (rbind r (\<lambda>x. Inr (CStringObj (B64_encode L (to_bytes x)))))"

fun ffi_spec :: "('s, 'p, 't, 'h, 'r) lib \<Rightarrow> ffi_call \<Rightarrow> ('s, 'p, 't, 'h, 'r) ffi \<Rightarrow>
    ('s, 'p, 't, 'h, 'r) effect" where
  "ffi_spec L Call_last_error_message st = Say (LAST_ERROR st)"
| "ffi_spec L (Call_c_char_destroy p) st = Destroy p"
| "ffi_spec L (Call_secret_key_from_seed s sl i il) st = Create (
     rbind (arg st s sl ''seed must be exactly 32 bytes'') (\<lambda>seed.
     rbind (check (length seed = 32) (ascii ''seed must be exactly 32 bytes'')) (\<lambda>_.
     rbind (arg st i il ''invalid info pointer'') (\<lambda>info.
     rbind (answer ''derive_key_pair: '' (derive_key_pair (core L) seed info)) (\<lambda>(sk, pk).
     Inr (SecretKeyObj sk))))))"
| "ffi_spec L (Call_secret_key_decode_base64 s sl) st = Create (
     rbind (arg st s sl ''invalid base64 pointer'') (\<lambda>s.
     rbind (decoded (B64_decode L s)) (\<lambda>b.
     rbind (answer ''SecretKey::from_bytes: '' (SecretKey_from_bytes (core L) b)) (\<lambda>x. Inr (SecretKeyObj x)))))"
| "ffi_spec L (Call_secret_key_encode_base64 p) st =
     text_of L (SecretKey_to_bytes (core L)) (object as_secret_key p st ''null SecretKey'')"
| "ffi_spec L (Call_secret_key_destroy p) st = Destroy p"
| "ffi_spec L (Call_public_key_from_secret p) st = Create (
     rbind (object as_secret_key p st ''null SecretKey'') (\<lambda>sk. Inr (PublicKeyObj (SecretKey_public_key (core L) sk))))"
| "ffi_spec L (Call_public_key_encode_base64 p) st =
     text_of L (PublicKey_to_bytes (core L)) (object as_public_key p st ''null PublicKey'')"
| "ffi_spec L (Call_public_key_destroy p) st = Destroy p"
| "ffi_spec L (Call_blinded_element_decode_base64 s sl) st = Create (
     rbind (arg st s sl ''invalid base64 pointer'') (\<lambda>s.
     rbind (decoded (B64_decode L s)) (\<lambda>b.
     rbind (answer ''BlindedElement::from_bytes: '' (BlindedElement_from_bytes (core L) b)) (\<lambda>x. Inr (BlindedObj x)))))"
| "ffi_spec L (Call_blinded_element_destroy p) st = Destroy p"
| "ffi_spec L (Call_evaluated_element_encode_base64 p) st =
     text_of L (EvaluatedElement_to_bytes (core L)) (object as_evaluated p st ''null EvaluatedElement'')"
| "ffi_spec L (Call_evaluated_element_destroy p) st = Destroy p"
| "ffi_spec L (Call_proof_encode_base64 p) st =
     text_of L (Proof_to_bytes (core L)) (object as_proof p st ''null Proof'')"
| "ffi_spec L (Call_proof_destroy p) st = Destroy p"
| "ffi_spec L (Call_blind_evaluate_batch p arr n i il oe op) st =
     (case rbind (check (p \<noteq> NULL \<and> arr \<noteq> NULL \<and> oe \<noteq> NULL \<and> op \<noteq> NULL) (ascii ''null pointer in blind_evaluate_batch'')) (\<lambda>_.
           rbind (check (n \<noteq> 0) (ascii ''blind_evaluate_batch requires n >= 1'')) (\<lambda>_.
           rbind (arg st i il ''invalid info pointer'') (\<lambda>info.
           rbind (array as_blinded arr n st ''BlindedElement'') (\<lambda>bls. Inr (info, bls))))) of
        Inl msg \<Rightarrow> Fill_and_prove oe op (Inl msg) (os_rng st)
      | Inr (info, bls) \<Rightarrow>
          (case PoprfServer_blind_evaluate_batch (core L) (PoprfServer_new (the (as_secret_key (the (heap st p)))))
                  (os_rng st) bls info of
             (r, rng) \<Rightarrow> Fill_and_prove oe op
               (rbind (answer ''blind_evaluate_batch: '' r) (\<lambda>(evs, pf). Inr (map EvaluatedObj evs, ProofObj pf))) rng))"
| "ffi_spec L (Call_evaluate p x xl i il) st = Create (
     rbind (object as_secret_key p st ''null SecretKey'') (\<lambda>sk.
     rbind (arg st x xl ''invalid input pointer'') (\<lambda>input.
     rbind (arg st i il ''invalid info pointer'') (\<lambda>info.
     rbind (answer ''evaluate: '' (PoprfServer_evaluate (core L) (PoprfServer_new sk) input info)) (\<lambda>out.
     Inr (OutputObj out))))))"
| "ffi_spec L (Call_input_table_new x xl) st = Create (
     rbind (arg st x xl ''invalid input pointer'') (\<lambda>input.
     rbind (answer ''PoprfInputTable::new: '' (PoprfInputTable_new (core L) input)) (\<lambda>tb. Inr (TableObj tb))))"
| "ffi_spec L (Call_input_table_destroy p) st = Destroy p"
| "ffi_spec L (Call_evaluate_tables p arr n i il out) st = Fill out (
     rbind (check (p \<noteq> NULL \<and> arr \<noteq> NULL \<and> out \<noteq> NULL) (ascii ''null pointer in evaluate_tables'')) (\<lambda>_.
     rbind (check (n \<noteq> 0) (ascii ''evaluate_tables requires n >= 1'')) (\<lambda>_.
     rbind (arg st i il ''invalid info pointer'') (\<lambda>info.
     rbind (array as_table arr n st ''PoprfInputTable'') (\<lambda>tables.
     rbind (answer ''evaluate_tables: ''
       (PoprfServer_evaluate_tables (core L) (PoprfServer_new (the (as_secret_key (the (heap st p))))) tables info)) (\<lambda>outs.
     Inr (map OutputObj outs)))))))"
| "ffi_spec L (Call_output_encode_base64 p) st =
     text_of L PoprfOutput_as_bytes (object as_output p st ''null PoprfOutput'')"
| "ffi_spec L (Call_output_eq_base64 p s sl) st = Reply (
     rbind (object as_output p st ''null PoprfOutput'') (\<lambda>out.
     rbind (arg st s sl ''invalid expected b64 pointer'') (\<lambda>s.
     rbind (decoded (B64_decode L s)) (\<lambda>b.
     rbind (answer ''PoprfOutput::from_bytes: '' (PoprfOutput_from_bytes b)) (\<lambda>other.
     Inr (if PoprfOutput_eq (core L) out other then 1 else 0))))))"
| "ffi_spec L (Call_output_destroy p) st = Destroy p"

end
