(* ===== verification/Ffi_Refinement.thy ===== *)
theory Ffi_Refinement
  imports Ffi_Spec
begin

text \<open>
  The exported functions refine \<open>ffi_spec\<close>: on admissible arguments, each returns what \<open>realise\<close>
  makes of the specification's answer. One lemma per function or shape of functions, then
  \<open>exec_refines\<close> for all calls.
\<close>

section \<open>Refinement\<close>

lemma readable_arg:
  assumes "readable st ptr len"
  obtains b where "bytes_from_raw st ptr len = Returns (Some b)" "\<And>msg. arg st ptr len msg = Inr b"
  | "bytes_from_raw st ptr len = Returns None" "\<And>msg. arg st ptr len msg = Inl (ascii msg)"
  using readable_returns [OF assms] by (auto simp: arg_def) (metis option.exhaust option.simps outcome.simps)

lemma handle_object:
  assumes "handle sel p st"
  obtains v where "p \<noteq> NULL" "deref sel p st = Returns v" "\<And>msg. object sel p st msg = Inr v"
  | "p = NULL" "\<And>msg. object sel p st msg = Inl (ascii msg)"
  using assms by (cases "p = NULL") (auto simp: handle_def live_def deref_def object_def)

lemma answer_cases:
  assumes "no_abort r"
  obtains x where "r = Inr x" | e where "r = Fail e"
  using assms by (cases r rule: sum.exhaust) (auto simp: no_abort_def split: fault.splits)

lemmas realise_simps = failed_def omap_def fail_with_def return_box_def clear_error_reads Let_def check_def

lemma create_answer:
  "no_abort r \<Longrightarrow> omap RetPtr (on_result r (\<lambda>x. return_box L (f x) (clear_error st))
      (\<lambda>e. fail_with NULL (ascii msg @ ascii (error_fmt e)) (clear_error st))) =
    Returns (realise L (Create (rbind (answer msg r) (\<lambda>x. Inr (f x)))) st)"
  by (erule answer_cases) (simp_all add: realise_simps split: prod.splits)

lemma create_failed: "omap RetPtr (fail_with NULL msg (clear_error st)) = Returns (failed (RetPtr NULL) msg st)"
  by (simp add: realise_simps)

lemma destroy_refines:
  assumes "handle sel p st"
  shows "omap (\<lambda>_. RetUnit) (drop_raw sel p st) = Returns (realise L (Destroy p) st)"
  using assms by (rule handle_object) (simp_all add: drop_raw_def omap_def free_handle_def)

lemma encode_refines:
  assumes L: "lib_laws L" and "handle sel p st"
  shows "omap RetPtr (if p = NULL then fail_with NULL (ascii msg) (clear_error st)
      else obind (deref sel p (clear_error st)) (\<lambda>x. cstring_or_null L (to_bytes x) (clear_error st))) =
    Returns (realise L (text_of L to_bytes (object sel p st msg)) st)"
proof -
  have "0 \<notin> set (B64_encode L bs)" for bs using L by (simp add: lib_laws_def b64_laws_def)
  then show ?thesis
    using assms(2) by (elim handle_object) (simp_all add: cstring_or_null_def text_of_def realise_simps split: prod.splits)
qed

lemma decode_refines:
  assumes "readable st ptr len" and "\<And>bs. no_abort (dec bs)"
  shows "omap RetPtr (obind (bytes_from_raw (clear_error st) ptr len) (\<lambda>s.
      case s of
        None \<Rightarrow> fail_with NULL (ascii ''invalid base64 pointer'') (clear_error st)
      | Some s \<Rightarrow>
          (case B64_decode L s of
             Inl e \<Rightarrow> fail_with NULL (ascii ''base64 decode: '' @ e) (clear_error st)
           | Inr bytes \<Rightarrow>
               on_result (dec bytes)
                 (\<lambda>x. return_box L (mk x) (clear_error st))
                 (\<lambda>e. fail_with NULL (ascii msg @ ascii (error_fmt e)) (clear_error st))))) =
    Returns (realise L (Create (
     rbind (arg st ptr len ''invalid base64 pointer'') (\<lambda>s.
     rbind (decoded (B64_decode L s)) (\<lambda>b.
     rbind (answer msg (dec b)) (\<lambda>x. Inr (mk x)))))) st)"
  using assms(1)
proof (rule readable_arg)
  fix b assume "bytes_from_raw st ptr len = Returns (Some b)" "\<And>msg. arg st ptr len msg = Inr b"
  then show ?thesis
    using create_answer [OF assms(2)] create_failed by (cases "B64_decode L b") simp_all
qed (simp add: create_failed)

lemma from_seed_refines:
  assumes L: "lib_laws L" and "readable st s sl" "readable st i il"
  shows "omap RetPtr (poprf_secret_key_from_seed L s sl i il st) =
    Returns (realise L (ffi_spec L (Call_secret_key_from_seed s sl i il) st) st)"
  using assms(2)
proof (rule readable_arg)
  fix seed assume seed: "bytes_from_raw st s sl = Returns (Some seed)" "\<And>msg. arg st s sl msg = Inr seed"
  show ?thesis using assms(3)
  proof (rule readable_arg)
    fix info assume info: "bytes_from_raw st i il = Returns (Some info)" "\<And>msg. arg st i il msg = Inr info"
    have "no_abort (derive_key_pair (core L) seed info)" using no_abort_decoders [OF core_laws [OF L]] by simp
    from create_answer [OF this, of L "\<lambda>(sk, pk). SecretKeyObj sk" st "''derive_key_pair: ''"] show ?thesis
      using seed info by (simp add: poprf_secret_key_from_seed_def Let_def create_failed check_def case_prod_beta')
  next
    assume "bytes_from_raw st i il = Returns None" "\<And>msg. arg st i il msg = Inl (ascii msg)"
    then show ?thesis using seed by (simp add: poprf_secret_key_from_seed_def Let_def create_failed check_def)
  qed
qed (simp add: poprf_secret_key_from_seed_def Let_def create_failed)

lemma evaluate_refines_spec:
  assumes L: "lib_laws L" and sk: "handle as_secret_key p st" and "readable st x xl" "readable st i il"
  shows "omap RetPtr (poprf_evaluate L p x xl i il st) = Returns (realise L (ffi_spec L (Call_evaluate p x xl i il) st) st)"
  using sk
proof (rule handle_object)
  fix sk assume sk: "p \<noteq> NULL" "deref as_secret_key p st = Returns sk" "\<And>msg. object as_secret_key p st msg = Inr sk"
  show ?thesis using assms(3)
  proof (rule readable_arg)
    fix input assume input: "bytes_from_raw st x xl = Returns (Some input)" "\<And>msg. arg st x xl msg = Inr input"
    show ?thesis using assms(4)
    proof (rule readable_arg)
      fix info assume info: "bytes_from_raw st i il = Returns (Some info)" "\<And>msg. arg st i il msg = Inr info"
      have "no_abort (PoprfServer_evaluate (core L) (PoprfServer_new sk) input info)"
        using no_abort_decoders [OF core_laws [OF L]] by simp
      from create_answer [OF this, of L OutputObj st "''evaluate: ''"] show ?thesis
        using sk input info by (simp add: poprf_evaluate_def Let_def)
    qed (use sk input in \<open>simp add: poprf_evaluate_def Let_def create_failed\<close>)
  qed (use sk in \<open>simp add: poprf_evaluate_def Let_def create_failed\<close>)
qed (simp add: poprf_evaluate_def Let_def create_failed)

lemma table_new_refines:
  assumes L: "lib_laws L" and "readable st x xl"
  shows "omap RetPtr (poprf_input_table_new L x xl st) = Returns (realise L (ffi_spec L (Call_input_table_new x xl) st) st)"
  using assms(2)
proof (rule readable_arg)
  fix input assume input: "bytes_from_raw st x xl = Returns (Some input)" "\<And>msg. arg st x xl msg = Inr input"
  have "no_abort (PoprfInputTable_new (core L) input)" using no_abort_decoders [OF core_laws [OF L]] by simp
  from create_answer [OF this, of L TableObj st "''PoprfInputTable::new: ''"] show ?thesis
    using input by (simp add: poprf_input_table_new_def Let_def)
qed (simp add: poprf_input_table_new_def Let_def create_failed)

lemma public_key_refines:
  assumes "handle as_secret_key p st"
  shows "omap RetPtr (poprf_public_key_from_secret L p st) =
    Returns (realise L (ffi_spec L (Call_public_key_from_secret p) st) st)"
  using assms by (rule handle_object) (simp_all add: poprf_public_key_from_secret_def realise_simps split: prod.splits)

lemma last_error_refines:
  assumes "ffi_inv L st"
  shows "omap RetPtr (poprf_last_error_message L st) = Returns (realise L (Say (LAST_ERROR st)) st)"
  using assms by (cases "LAST_ERROR st")
    (auto simp: poprf_last_error_message_def realise_simps ffi_inv_def split: prod.splits)

lemma output_eq_refines:
  assumes out: "handle as_output p st" and "readable st s sl"
  shows "omap RetInt (poprf_output_eq_base64 L p s sl st) =
    Returns (realise L (ffi_spec L (Call_output_eq_base64 p s sl) st) st)"
  using out
proof (rule handle_object)
  fix out assume out: "p \<noteq> NULL" "deref as_output p st = Returns out" "\<And>msg. object as_output p st msg = Inr out"
  show ?thesis using assms(2)
  proof (rule readable_arg)
    fix b assume b: "bytes_from_raw st s sl = Returns (Some b)" "\<And>msg. arg st s sl msg = Inr b"
    show ?thesis
    proof (cases "B64_decode L b")
      case (Inr bytes)
      have "no_abort (PoprfOutput_from_bytes bytes)" by (rule out_codec.dec_no_abort)
      then show ?thesis
        by (rule answer_cases) (use out b Inr in \<open>simp_all add: poprf_output_eq_base64_def realise_simps\<close>)
    qed (use out b in \<open>simp add: poprf_output_eq_base64_def realise_simps\<close>)
  qed (use out in \<open>simp add: poprf_output_eq_base64_def realise_simps\<close>)
qed (simp add: poprf_output_eq_base64_def realise_simps)

section \<open>Refinement of the functions over arrays\<close>

lemma find_map_option: "find P (map f xs) = map_option f (find (P \<circ> f) xs)"
  by (induction xs) simp_all

lemma null_position_simps [simp]:
  "null_position [] = None"
  "null_position (p # ps) = (if p = NULL then Some 0 else map_option Suc (null_position ps))"
proof -
  have "[0..<length (p # ps)] = 0 # map Suc [0..<length ps]" by (simp only: map_Suc_upt list.size upt_conv_Cons [OF zero_less_Suc] add_Suc_right add_0_right)
  then show "null_position (p # ps) = (if p = NULL then Some 0 else map_option Suc (null_position ps))"
    unfolding null_position_def by (simp only: find.simps find_map_option comp_def nth_Cons_0 nth_Cons_Suc)
qed (simp add: null_position_def)

lemma clone_blinded_eq:
  "\<forall>p \<in> set ps. p = NULL \<or> live as_blinded p st \<Longrightarrow> clone_blinded st i ps =
     Returns (case null_position ps of
       Some j \<Rightarrow> Inl (i + j) | None \<Rightarrow> Inr (map (\<lambda>p. the (as_blinded (the (heap st p)))) ps))"
proof (induction ps arbitrary: i)
  case (Cons p ps)
  show ?case
  proof (cases "p = NULL")
    case False
    then obtain x b where "heap st p = Some x" "as_blinded x = Some b" using Cons.prems by (auto simp: live_def)
    then show ?thesis
      using Cons False by (cases "null_position ps") (simp_all add: deref_def)
  qed simp
qed simp

lemma deref_tables_eq:
  "\<forall>p \<in> set ps. live as_table p st \<Longrightarrow>
     deref_tables st ps = Returns (map (\<lambda>p. the (as_table (the (heap st p)))) ps)"
  by (induction ps) (auto simp: live_def deref_def)

lemma deref_tables_clear: "deref_tables (clear_error st) ps = deref_tables st ps"
  by (induction ps) simp_all

lemma array_live:
  assumes "handles_ok sel st arr n" and "arr \<noteq> NULL"
  obtains ps where "handles_from_raw st arr n = Returns ps" "length ps = n" "\<forall>p \<in> set ps. p = NULL \<or> live sel p st"
    "\<And>what. array sel arr n st what = (case null_position ps of
       Some i \<Rightarrow> Inl (ascii (''null '' @ what @ '' at index '') @ ascii (fmt_dec i))
     | None \<Rightarrow> Inr (map (\<lambda>p. the (sel (the (heap st p)))) ps))"
  using assms by (auto simp: handles_ok_def handles_from_raw_def array_def)

lemma into_raw_all_keeps:
  "into_raw_all L xs st = (ps, st') \<Longrightarrow> length ps = length xs \<and> c_slots st' = c_slots st"
  by (induction xs arbitrary: st ps) (fastforce simp: into_raw_def Let_def split: prod.splits)+

lemma store_fill:
  assumes "slots_ok init st out n" and "out \<noteq> NULL" and "length ps \<le> n" and "c_slots st' out = c_slots st out"
    and "init \<longrightarrow> length ps = n"
  shows "store_slots init out ps st' = Returns (fill out ps st')"
  using assms by (auto simp: slots_ok_def store_slots_def fill_def dest: in_set_takeD)

lemma tables_count:
  assumes "lib_laws L" and "ffi_inv L st" and "\<forall>p \<in> set ps. live as_table p st"
    and "PoprfServer_evaluate_tables (core L) srv (map (\<lambda>p. the (as_table (the (heap st p)))) ps) info = Inr outs"
  shows "length outs = length ps"
proof -
  have "list_all2 (\<lambda>p t. heap st p = Some (TableObj t)) ps (map (\<lambda>p. the (as_table (the (heap st p)))) ps)"
    using assms(3) by (auto simp: list_all2_conv_all_nth live_def as_object) (metis as_object(3) nth_mem option.sel)
  then obtain inputs where
    "list_all2 (\<lambda>x tb. PoprfInputTable_new (core L) x = Inr tb) inputs (map (\<lambda>p. the (as_table (the (heap st p)))) ps)"
    by (rule tables_have_inputs [OF assms(2)])
  with evaluate_tables_spec [OF core_laws [OF assms(1)] this, of srv info] assms(4) show ?thesis
    by (auto split: if_splits dest: list_all2_lengthD)
qed

lemma tables_refines:
  assumes L: "lib_laws L" and inv: "ffi_inv L st" and adm: "admissible st (Call_evaluate_tables p arr n i il out)"
  shows "omap RetInt (poprf_evaluate_tables L p arr n i il out st) =
    Returns (realise L (ffi_spec L (Call_evaluate_tables p arr n i il out) st) st)"
proof (cases "p = NULL \<or> arr = NULL \<or> out = NULL \<or> n = 0")
  case True
  then show ?thesis by (auto simp: poprf_evaluate_tables_def realise_simps)
next
  case False
  then obtain ps where ps: "handles_from_raw st arr n = Returns ps" "length ps = n" "\<forall>p \<in> set ps. p = NULL \<or> live as_table p st"
    "\<And>what. array as_table arr n st what = (case null_position ps of
       Some i \<Rightarrow> Inl (ascii (''null '' @ what @ '' at index '') @ ascii (fmt_dec i))
     | None \<Rightarrow> Inr (map (\<lambda>p. the (as_table (the (heap st p)))) ps))"
    using array_live [of as_table st arr n] adm by auto
  obtain sk where sk: "heap st p = Some (SecretKeyObj sk)"
    using adm False by (auto simp: handle_def live_def as_object)
  have "readable st i il" using adm by simp
  then show ?thesis
  proof (rule readable_arg)
    fix info assume info: "bytes_from_raw st i il = Returns (Some info)" "\<And>msg. arg st i il msg = Inr info"
    show ?thesis
    proof (cases "null_position ps")
      case None
      then have live: "\<forall>p \<in> set ps. live as_table p st" using ps(3) null_position_None by metis
      let ?tables = "map (\<lambda>p. the (as_table (the (heap st p)))) ps"
      have tables: "deref_tables (clear_error st) ps = Returns ?tables"
        using deref_tables_eq [OF live] by (simp add: deref_tables_clear)
      have "no_abort (PoprfServer_evaluate_tables (core L) (PoprfServer_new sk) ?tables info)"
        by (rule no_abort_tables [OF core_laws [OF L]])
      then show ?thesis
      proof (rule answer_cases)
        fix outs assume outs: "PoprfServer_evaluate_tables (core L) (PoprfServer_new sk) ?tables info = Inr outs"
        have "length outs = n" using tables_count [OF L inv live outs] ps(2) by simp
        moreover obtain qs st1 where put: "into_raw_all L (map OutputObj outs) (clear_error st) = (qs, st1)" by fastforce
        moreover have "store_slots False out qs st1 = Returns (fill out qs st1)"
          using into_raw_all_keeps [OF put] \<open>length outs = n\<close> adm False by (intro store_fill) auto
        ultimately show ?thesis
          using False sk info ps None tables outs
          by (simp add: poprf_evaluate_tables_def realise_simps deref_def)
      next
        fix e assume "PoprfServer_evaluate_tables (core L) (PoprfServer_new sk) ?tables info = Fail e"
        then show ?thesis
          using False sk info ps None tables by (simp add: poprf_evaluate_tables_def realise_simps deref_def)
      qed
    qed (use False info ps in \<open>simp add: poprf_evaluate_tables_def realise_simps\<close>)
  qed (use False in \<open>simp add: poprf_evaluate_tables_def realise_simps\<close>)
qed

lemma batch_refines:
  assumes L: "lib_laws L" and inv: "ffi_inv L st"
    and adm: "admissible st (Call_blind_evaluate_batch p arr n i il oe op)"
    and fits: "call_fits L st (Call_blind_evaluate_batch p arr n i il oe op)"
  shows "omap RetInt (poprf_blind_evaluate_batch L p arr n i il oe op st) =
    Returns (realise L (ffi_spec L (Call_blind_evaluate_batch p arr n i il oe op) st) st)"
proof (cases "p = NULL \<or> arr = NULL \<or> oe = NULL \<or> op = NULL \<or> n = 0")
  case True
  then show ?thesis by (auto simp: poprf_blind_evaluate_batch_def realise_simps clear_error_def)
next
  case False
  then obtain ps where ps: "handles_from_raw st arr n = Returns ps" "length ps = n" "\<forall>p \<in> set ps. p = NULL \<or> live as_blinded p st"
    "\<And>what. array as_blinded arr n st what = (case null_position ps of
       Some i \<Rightarrow> Inl (ascii (''null '' @ what @ '' at index '') @ ascii (fmt_dec i))
     | None \<Rightarrow> Inr (map (\<lambda>p. the (as_blinded (the (heap st p)))) ps))"
    using array_live [of as_blinded st arr n] adm by auto
  obtain sk where sk: "heap st p = Some (SecretKeyObj sk)"
    using adm False by (auto simp: handle_def live_def as_object)
  let ?bls = "map (\<lambda>p. the (as_blinded (the (heap st p)))) ps"
  note cl = clone_blinded_eq [OF ps(3), of 0]
  have "readable st i il" using adm by simp
  then show ?thesis
  proof (rule readable_arg)
    fix info assume info: "bytes_from_raw st i il = Returns (Some info)" "\<And>msg. arg st i il msg = Inr info"
    show ?thesis
    proof (cases "null_position ps")
      case None
      obtain r rng where call: "PoprfServer_blind_evaluate_batch (core L) (PoprfServer_new sk) (os_rng st) ?bls info = (r, rng)"
        by fastforce
      obtain r0 rng0 where r0: "random_scalar (core L) (os_rng st) = Some (r0, rng0)" using fits by auto
      have "batch_fits (core L) (length ?bls)" using fits ps(2) by (auto simp: batch_fits_def)
      then have "no_abort r" using no_abort_batch_r [OF core_laws [OF L]] call by (auto simp: batch_draws r0)
      then show ?thesis
      proof (rule answer_cases)
        fix x assume r: "r = Inr x"
        obtain evs pf where x: "x = (evs, pf)" by fastforce
        obtain r1 where ev: "blind_evaluate_batch_with_r_inner (core L) (PoprfServer_new sk) ?bls info r1 = Inr (evs, pf)"
          using batch_call_evaluated [OF call [unfolded r x]] by blast
        have len: "length evs = n" using batch_evaluated(4) [OF core_laws [OF L] ev] ps(2) by simp
        obtain qs st1 where put: "into_raw_all L (map EvaluatedObj evs) (clear_error st\<lparr>os_rng := rng\<rparr>) = (qs, st1)"
          by fastforce
        note kept = into_raw_all_keeps [OF put]
        have one: "store_slots True oe qs st1 = Returns (fill oe qs st1)"
          using kept len adm False by (intro store_fill [where n = n and st = st]) auto
        obtain q st2 where put2: "into_raw L (ProofObj pf) (fill oe qs st1) = (q, st2)" by fastforce
        have "\<exists>slots. c_slots st2 op = Some slots \<and> 1 \<le> length slots"
          using adm False kept len put2 by (auto simp: slots_ok_def into_raw_def fill_def Let_def)
        then have two: "store_slots False op [q] st2 = Returns (fill op [q] st2)"
          by (auto simp: store_slots_def fill_def)
        show ?thesis
          using False sk info ps None cl call r x len put one put2 two
          by (simp add: poprf_blind_evaluate_batch_def realise_simps deref_def)
      next
        fix e assume "r = Fail e"
        then show ?thesis
          using False sk info ps None cl call
          by (simp add: poprf_blind_evaluate_batch_def realise_simps deref_def)
      qed
    next
      case (Some j)
      then show ?thesis
        using False info ps cl by (simp add: poprf_blind_evaluate_batch_def realise_simps)
    qed
  qed (use False in \<open>simp add: poprf_blind_evaluate_batch_def realise_simps\<close>)
qed

section \<open>All calls\<close>

lemma exec_refines:
  assumes L: "lib_laws L" and inv: "ffi_inv L st" and adm: "admissible st c" and fits: "call_fits L st c"
  shows "ffi_exec L c st = Returns (realise L (ffi_spec L c st) st)"
proof (cases c)
  case Call_last_error_message
  then show ?thesis using last_error_refines [OF inv] by simp
next
  case (Call_secret_key_decode_base64 s sl)
  have "\<And>bs. no_abort (SecretKey_from_bytes (core L) bs)" using no_abort_decoders [OF core_laws [OF L]] by simp
  from decode_refines [where L = L and st = st and mk = SecretKeyObj and msg = "''SecretKey::from_bytes: ''", OF _ this] adm show ?thesis
    by (simp add: Call_secret_key_decode_base64 poprf_secret_key_decode_base64_def Let_def)
next
  case (Call_blinded_element_decode_base64 s sl)
  have "\<And>bs. no_abort (BlindedElement_from_bytes (core L) bs)" using no_abort_decoders [OF core_laws [OF L]] by simp
  from decode_refines [where L = L and st = st and mk = BlindedObj and msg = "''BlindedElement::from_bytes: ''", OF _ this] adm show ?thesis
    by (simp add: Call_blinded_element_decode_base64 poprf_blinded_element_decode_base64_def Let_def)
next
  case (Call_secret_key_encode_base64 p)
  then show ?thesis using encode_refines [OF L, where sel = as_secret_key and st = st and p = p] adm by (simp add: encode_defs Let_def)
next
  case (Call_public_key_encode_base64 p)
  then show ?thesis using encode_refines [OF L, where sel = as_public_key and st = st and p = p] adm by (simp add: encode_defs Let_def)
next
  case (Call_evaluated_element_encode_base64 p)
  then show ?thesis using encode_refines [OF L, where sel = as_evaluated and st = st and p = p] adm by (simp add: encode_defs Let_def)
next
  case (Call_proof_encode_base64 p)
  then show ?thesis using encode_refines [OF L, where sel = as_proof and st = st and p = p] adm by (simp add: encode_defs Let_def)
next
  case (Call_output_encode_base64 p)
  then show ?thesis using encode_refines [OF L, where sel = as_output and st = st and p = p] adm by (simp add: encode_defs Let_def)
qed (use adm fits in \<open>auto simp: destroy_defs Let_def simp del: realise.simps
      intro: destroy_refines from_seed_refines [OF L, simplified]
        public_key_refines [simplified] evaluate_refines_spec [OF L, simplified] table_new_refines [OF L, simplified]
        output_eq_refines [simplified] tables_refines [OF L inv, simplified] batch_refines [OF L inv, simplified]\<close>)

end
