(* ===== verification/Ffi_Threads.thy ===== *)
theory Ffi_Threads
  imports Ffi_Session
begin

text \<open>
  Threads of a C program on the library. The heap, the caller's memory and the generator of the
  operating system are shared; the last error is a \<open>thread_local!\<close> of \<open>lib.rs\<close>, one per thread.
  A step is one call, made by one thread and run in one piece. Calls do overlap, and a destructor
  may meet a call on the same handle: Ffi_Races models the calls in flight, and shows that under
  the README's rule on destructors each of them ends as it does here.
\<close>

section \<open>Threads\<close>

type_synonym tid = nat

text \<open>\<open>LAST_ERROR\<close> of the shared part is not used.\<close>

record ('s, 'p, 't, 'h, 'r) threads =
  shared :: "('s, 'p, 't, 'h, 'r) ffi"
  thread_error :: "tid \<Rightarrow> bytes option"

text \<open>What thread \<open>t\<close> sees, and the state after it has changed what it sees.\<close>

definition view :: "tid \<Rightarrow> ('s, 'p, 't, 'h, 'r) threads \<Rightarrow> ('s, 'p, 't, 'h, 'r) ffi" where
  "view t ts = (shared ts)\<lparr>LAST_ERROR := thread_error ts t\<rparr>"

definition update_view :: "tid \<Rightarrow> ('s, 'p, 't, 'h, 'r) ffi \<Rightarrow> ('s, 'p, 't, 'h, 'r) threads \<Rightarrow>
    ('s, 'p, 't, 'h, 'r) threads" where
  "update_view t st ts =
     \<lparr>shared = st\<lparr>LAST_ERROR := None\<rparr>, thread_error = (thread_error ts)(t := LAST_ERROR st)\<rparr>"

definition thread_exec :: "('s, 'p, 't, 'h, 'r) lib \<Rightarrow> tid \<Rightarrow> ffi_call \<Rightarrow> ('s, 'p, 't, 'h, 'r) threads \<Rightarrow>
    (ffi_ret \<times> ('s, 'p, 't, 'h, 'r) threads) outcome" where
  "thread_exec L t c ts =
     obind (ffi_exec L c (view t ts)) (\<lambda>(r, st). Returns (r, update_view t st ts))"

inductive thread_step :: "('s, 'p, 't, 'h, 'r) lib \<Rightarrow> tid \<Rightarrow> ('s, 'p, 't, 'h, 'r) threads \<Rightarrow>
    ('s, 'p, 't, 'h, 'r) threads \<Rightarrow> bool" for L where
  thread_call: "admissible (view t ts) c \<Longrightarrow> call_fits L (view t ts) c \<Longrightarrow>
    thread_exec L t c ts = Returns (r, ts') \<Longrightarrow> thread_step L t ts ts'"
| thread_caller: "thread_step L t ts
    (ts\<lparr>shared := (shared ts)\<lparr>c_bytes := b, c_handles := h, c_slots := s\<rparr>\<rparr>)"

inductive_cases thread_stepE: "thread_step L t ts ts'"

text \<open>The steps of a set of threads, in any order.\<close>

inductive thread_run :: "('s, 'p, 't, 'h, 'r) lib \<Rightarrow> tid set \<Rightarrow> ('s, 'p, 't, 'h, 'r) threads \<Rightarrow>
    ('s, 'p, 't, 'h, 'r) threads \<Rightarrow> bool" for L T where
  run_refl: "thread_run L T ts ts"
| run_step: "thread_run L T ts ts1 \<Longrightarrow> t \<in> T \<Longrightarrow> thread_step L t ts1 ts2 \<Longrightarrow> thread_run L T ts ts2"

definition threads_start :: "('s, 'p, 't, 'h, 'r) threads \<Rightarrow> bool" where
  "threads_start ts \<longleftrightarrow> heap (shared ts) = Map.empty \<and> LAST_ERROR (shared ts) = None \<and>
     (\<forall>t. thread_error ts t = None)"

section \<open>The invariant, for every thread\<close>

lemma view_fields [simp]:
  "heap (view t ts) = heap (shared ts)" "c_bytes (view t ts) = c_bytes (shared ts)"
  "c_handles (view t ts) = c_handles (shared ts)" "c_slots (view t ts) = c_slots (shared ts)"
  "os_rng (view t ts) = os_rng (shared ts)" "LAST_ERROR (view t ts) = thread_error ts t"
  by (simp_all add: view_def)

lemma view_update: "view u (update_view t st ts) = (if u = t then st else st\<lparr>LAST_ERROR := thread_error ts u\<rparr>)"
  by (simp add: view_def update_view_def)

definition threads_inv :: "('s, 'p, 't, 'h, 'r) lib \<Rightarrow> ('s, 'p, 't, 'h, 'r) threads \<Rightarrow> bool" where
  "threads_inv L ts \<longleftrightarrow> (\<forall>t. ffi_inv L (view t ts))"

lemma inv_other_error:
  "ffi_inv L st \<Longrightarrow> ffi_inv L st' \<Longrightarrow> ffi_inv L (st\<lparr>LAST_ERROR := LAST_ERROR st'\<rparr>)"
  by (simp add: ffi_inv_def)

lemma thread_exec_runs:
  assumes L: "lib_laws L" and inv: "threads_inv L ts"
    and c: "admissible (view t ts) c" "call_fits L (view t ts) c"
  shows "runs (\<lambda>(r, ts'). threads_inv L ts' \<and> (\<forall>u. u \<noteq> t \<longrightarrow> thread_error ts' u = thread_error ts u) \<and>
      call_post L (view t ts) c (r, view t ts')) (thread_exec L t c ts)"
proof -
  have "ffi_inv L (view t ts)" using inv by (simp add: threads_inv_def)
  from call_runs [OF L this c] obtain r st where ret: "ffi_exec L c (view t ts) = Returns (r, st)"
    and post: "call_post L (view t ts) c (r, st)" by (auto simp: runs_iff)
  have st: "ffi_inv L st" using post by (simp add: call_post_def)
  have "ffi_inv L (view u (update_view t st ts))" for u
    using inv_other_error [OF st, of "view u ts"] inv st by (simp add: view_update threads_inv_def)
  then have "threads_inv L (update_view t st ts)" by (simp add: threads_inv_def)
  then show ?thesis using post by (simp add: thread_exec_def ret view_update) (simp add: update_view_def)
qed

lemma thread_step_keeps:
  assumes L: "lib_laws L" and inv: "threads_inv L ts" and step: "thread_step L t ts ts'"
  shows "threads_inv L ts' \<and> (\<forall>u. u \<noteq> t \<longrightarrow> thread_error ts' u = thread_error ts u)"
  using step
proof (rule thread_stepE)
  fix c r assume "admissible (view t ts) c" "call_fits L (view t ts) c" "thread_exec L t c ts = Returns (r, ts')"
  then show ?thesis using thread_exec_runs [OF L inv, of t c] by simp
next
  fix b h s assume "ts' = ts\<lparr>shared := (shared ts)\<lparr>c_bytes := b, c_handles := h, c_slots := s\<rparr>\<rparr>"
  then show ?thesis using inv by (simp add: threads_inv_def ffi_inv_def view_def)
qed

lemma thread_run_keeps:
  assumes L: "lib_laws L" and inv: "threads_inv L ts" and run: "thread_run L T ts ts'"
  shows "threads_inv L ts' \<and> (\<forall>u. u \<notin> T \<longrightarrow> thread_error ts' u = thread_error ts u)"
  using run inv
proof (induction rule: thread_run.induct)
  case (run_step ts ts1 t ts2)
  then show ?case using thread_step_keeps [OF L, of ts1 t ts2] by metis
qed simp

lemma start_inv: "threads_start ts \<Longrightarrow> threads_inv L ts"
  by (simp add: threads_start_def threads_inv_def ffi_inv_def)

end
