(* ===== verification/Ffi_Properties.thy ===== *)
theory Ffi_Properties
  imports Ffi_Session Serde
begin

text \<open>
  The properties of the C ABI, and a concrete library to witness them: the environment of
  \<open>Toy\<close>, hex in place of base64, and an allocator that returns the least free address.
\<close>

section \<open>A concrete library\<close>

definition lib3 :: "(tri, tri, tri, bytes, nat) lib" where
  "lib3 = \<lparr> core = E3, B64_encode = hex_encode,
     B64_decode = (\<lambda>s. case hex_decode (length s div 2) s of None \<Rightarrow> Inl (ascii ''bad'') | Some b \<Rightarrow> Inr b),
     malloc = (\<lambda>h. LEAST p. p \<noteq> NULL \<and> h p = None) \<rparr>"

lemma lib3_core [simp]: "core lib3 = E3"
  by (simp add: lib3_def)

lemma hex_no_nul: "0 \<notin> set (hex_encode bs)"
  using digit_not_0 [OF nibbles_below_16(1)] digit_not_0 [OF nibbles_below_16(2)]
  by (induction bs) (auto simp: Let_def)

lemma least_free:
  assumes "finite (dom h)"
  shows "(LEAST p. p \<noteq> NULL \<and> h p = None) \<noteq> NULL \<and> h (LEAST p. p \<noteq> NULL \<and> h p = None) = None"
proof -
  obtain p where "p \<notin> insert NULL (dom h)"
    using assms ex_new_if_finite [OF infinite_UNIV_nat, of "insert NULL (dom h)"] by (auto simp only: finite_insert)
  then have "p \<noteq> NULL \<and> h p = None" by auto
  then show ?thesis by (rule LeastI)
qed

lemma lib3_laws [simp]: "lib_laws lib3"
proof -
  have "alloc_laws lib3" unfolding alloc_laws_def lib3_def lib.select_convs by (blast dest: least_free)
  moreover have "b64_laws lib3" by (simp add: b64_laws_def lib3_def hex_no_nul)
  ultimately show ?thesis by (simp add: lib_laws_def)
qed

text \<open>
  A state of the witnesses: a key at 1, a blinded element at 2, a table at 3; the caller's
  bytes at 40 and 41, its arrays of handles at 10 and 11, its out slots from 20 on.
\<close>

definition tb3 :: "(tri, tri, bytes) PoprfInputTable" where
  "tb3 = \<lparr>it_prefix = lp [0], it_input_len = 1, it_base = WindowTable T1\<rparr>"

definition ffi3 :: "(tri, tri, tri, bytes, nat) ffi" where
  "ffi3 = \<lparr>heap = [1 \<mapsto> SecretKeyObj (SecretKey T1), 2 \<mapsto> BlindedObj (BlindedElement T1), 3 \<mapsto> TableObj tb3],
     LAST_ERROR = None, c_bytes = [40 \<mapsto> [0], 41 \<mapsto> [1]], c_handles = [10 \<mapsto> [2], 11 \<mapsto> [3]],
     c_slots = [20 \<mapsto> [None], 21 \<mapsto> [Some NULL], 30 \<mapsto> [None]], os_rng = 1\<rparr>"

lemma ffi3_fields [simp]:
  "heap ffi3 = [1 \<mapsto> SecretKeyObj (SecretKey T1), 2 \<mapsto> BlindedObj (BlindedElement T1), 3 \<mapsto> TableObj tb3]"
  "LAST_ERROR ffi3 = None" "c_bytes ffi3 = [40 \<mapsto> [0], 41 \<mapsto> [1]]" "c_handles ffi3 = [10 \<mapsto> [2], 11 \<mapsto> [3]]"
  "c_slots ffi3 = [20 \<mapsto> [None], 21 \<mapsto> [Some NULL], 30 \<mapsto> [None]]" "os_rng ffi3 = 1"
  by (simp_all add: ffi3_def)

lemma tb3_made: "PoprfInputTable_new E3 [0] = Inr tb3"
  by (simp add: input_table_spec toy_bytes tb3_def fixed_base_def)

lemma ffi3_inv: "ffi_inv lib3 ffi3"
  using tb3_made by (auto simp: ffi_inv_def valid_secret_def valid_blinded_def)

lemma stored_objects:
  "stored xs ps st st' \<Longrightarrow> list_all2 (\<lambda>p x. heap st' p = Some x) ps xs"
  by (simp add: stored_def list_all2_conv_all_nth)

lemma stored_snoc_objects:
  assumes "stored (map EvaluatedObj evs @ [ProofObj pf]) (ps @ [q]) st st'"
  shows "list_all2 (\<lambda>q ev. heap st' q = Some (EvaluatedObj ev)) ps evs \<and> heap st' q = Some (ProofObj pf)"
proof -
  have "length ps = length evs" using assms by (simp add: stored_def)
  then show ?thesis
    using stored_objects [OF assms] by (simp add: list_all2_append list_all2_map2)
qed

section \<open>Properties\<close>

text \<open>No session corrupts the library. In every state a session of admissible calls reaches, each
  object behind a handle is valid, and each further admissible call returns, to a state of the
  session again: no undefined behaviour, no abort, no loop.\<close>

theorem ffi_sessions_safe:
  assumes L: "lib_laws L" and session: "ffi_session L st"
  shows "(\<forall>p x. heap st p = Some x \<longrightarrow> p \<noteq> NULL \<and> valid_obj (core L) x) \<and>
    (\<forall>c. admissible st c \<and> call_fits L st c \<longrightarrow>
       (\<exists>r st'. ffi_exec L c st = Returns (r, st') \<and> ffi_session L st'))"
proof (intro conjI allI impI)
  note inv = session_inv [OF L session]
  show "valid_obj (core L) x" if "heap st p = Some x" for p x by (rule inv_valid [OF inv that])
  show "p \<noteq> NULL" if "heap st p = Some x" for p x using inv that by (cases "p = NULL") (auto simp: ffi_inv_def)
  fix c assume c: "admissible st c \<and> call_fits L st c"
  then obtain r st' where "ffi_exec L c st = Returns (r, st')"
    using call_runs [OF L inv, of c] by (auto simp: runs_iff)
  with c session show "\<exists>r st'. ffi_exec L c st = Returns (r, st') \<and> ffi_session L st'"
    using ffi_session.session_step ffi_step.step_call by metis
qed

theorem ffi_sessions_safe_witness:
  "\<exists>r st'. ffi_exec lib3 (Call_input_table_new 40 1) (ffi3\<lparr>heap := Map.empty\<rparr>) = Returns (r, st') \<and>
    ffi_session lib3 st'"
proof -
  let ?st = "ffi3\<lparr>heap := Map.empty\<rparr>" and ?c = "Call_input_table_new 40 1"
  have "admissible ?st ?c \<and> call_fits lib3 ?st ?c" by (simp add: readable_def)
  moreover have "ffi_session lib3 ?st" by (simp add: ffi_session.session_start)
  ultimately show ?thesis
    using ffi_sessions_safe [OF lib3_laws, of ?st] by (blast del: exE)
qed

text \<open>C24: The error protocol. Of the calls that can fail, one sets the last error exactly when its
  return value says so, a null pointer or -1, and then it has created no object and written no
  out slot; a call that succeeds leaves no error behind.\<close>

theorem ffi_error_protocol:
  assumes L: "lib_laws L" and session: "ffi_session L st"
    and c: "admissible st c" "call_fits L st c" "reports_error c"
    and ret: "ffi_exec L c st = Returns (r, st')"
  shows "(LAST_ERROR st' \<noteq> None \<longleftrightarrow> ret_failed r) \<and>
    (ret_failed r \<longrightarrow> heap st' = heap st \<and> c_slots st' = c_slots st)"
  using call_runs [OF L session_inv [OF L session] c(1,2)] ret c(3) by (simp add: call_post_def)

theorem ffi_error_protocol_witness:
  "\<exists>st'. ffi_exec lib3 (Call_evaluate NULL 40 1 41 1) (ffi3\<lparr>heap := Map.empty\<rparr>) = Returns (RetPtr NULL, st') \<and>
    LAST_ERROR st' \<noteq> None \<and> heap st' = Map.empty"
proof -
  let ?st = "ffi3\<lparr>heap := Map.empty\<rparr>"
  have "ffi_exec lib3 (Call_evaluate NULL 40 1 41 1) ?st =
      Returns (RetPtr NULL, set_error (ascii ''null SecretKey'') (clear_error ?st))"
    by (simp add: poprf_evaluate_def fail_with_def omap_def Let_def)
  with ffi_error_protocol [OF lib3_laws ffi_session.session_start [of ?st] _ _ _ this] show ?thesis
    by (simp add: handle_def readable_def)
qed

text \<open>The protocol across the C boundary. When \<open>poprf_blind_evaluate_batch\<close> reports success on
  handles of elements a client blinded, its out array holds one fresh handle per element and the
  proof slot one more; a client given the objects behind them accepts them and obtains, for every
  input, the output of the server's own evaluation.\<close>

theorem ffi_batch_run_correct:
  assumes L: "lib_laws L" and inv: "ffi_inv L st"
    and adm: "admissible st (Call_blind_evaluate_batch p arr n info_ptr info_len out_e out_p)"
      "call_fits L st (Call_blind_evaluate_batch p arr n info_ptr info_len out_e out_p)" "out_e \<noteq> out_p"
    and key: "heap st p = Some (SecretKeyObj sk)" and info: "bytes_from_raw st info_ptr info_len = Returns (Some info)"
    and ptrs: "handles_from_raw st arr n = Returns ptrs"
      "list_all2 (\<lambda>q b. heap st q = Some (BlindedObj b)) ptrs bls"
    and bb: "blinded_batch (core L) (client_of (core L) (PoprfServer_new sk)) info inputs states bls"
    and ret: "poprf_blind_evaluate_batch L p arr n info_ptr info_len out_e out_p st = Returns (0, st')"
  shows "\<exists>ps q slots rest evs pf outs. c_slots st' out_e = Some (map Some ps @ slots) \<and>
    c_slots st' out_p = Some (Some q # rest) \<and>
    distinct (ps @ [q]) \<and> (\<forall>q' \<in> set (ps @ [q]). q' \<noteq> NULL \<and> heap st q' = None) \<and>
    list_all2 (\<lambda>q ev. heap st' q = Some (EvaluatedObj ev)) ps evs \<and> heap st' q = Some (ProofObj pf) \<and>
    PoprfClient_finalize_batch (core L) (client_of (core L) (PoprfServer_new sk)) inputs states evs bls pf info =
      Inr outs \<and>
    rmap (\<lambda>x. PoprfServer_evaluate (core L) (PoprfServer_new sk) x info) inputs = Inr outs"
proof -
  have "runs (batch_post L p arr n info_ptr info_len out_e out_p st)
      (poprf_blind_evaluate_batch L p arr n info_ptr info_len out_e out_p st)"
    using adm by (intro blind_evaluate_batch_runs [OF L inv]) (simp_all add: handle_def)
  then obtain bls' evs pf ps q slots rest where post:
    "list_all2 (\<lambda>q b. heap st q = Some (BlindedObj b)) ptrs bls'"
    "PoprfServer_blind_evaluate_batch (core L) (PoprfServer_new sk) (os_rng st) bls' info = (Inr (evs, pf), os_rng st')"
    "stored (map EvaluatedObj evs @ [ProofObj pf]) (ps @ [q]) st st'"
    "c_slots st' = (c_slots st)(out_e \<mapsto> map Some ps @ slots, out_p \<mapsto> Some q # rest)"
    unfolding runs_iff using ret key info ptrs(1) by (auto simp: batch_post_def)
  have "bls' = bls"
    using ptrs(2) post(1) by (auto simp: list_all2_conv_all_nth intro!: nth_equalityI)
  then obtain r where ev: "blind_evaluate_batch_with_r_inner (core L) (PoprfServer_new sk) bls info r = Inr (evs, pf)"
    using batch_call_evaluated [OF post(2)] by blast
  have objs: "list_all2 (\<lambda>q ev. heap st' q = Some (EvaluatedObj ev)) ps evs \<and> heap st' q = Some (ProofObj pf)"
    using stored_snoc_objects [OF post(3)] by simp
  have "c_slots st' out_e = Some (map Some ps @ slots)" "c_slots st' out_p = Some (Some q # rest)"
    using post(4) adm(3) by simp_all
  moreover have "distinct (ps @ [q])" "\<forall>q' \<in> set (ps @ [q]). q' \<noteq> NULL \<and> heap st q' = None"
    using post(3) unfolding stored_def by (blast, metis)
  ultimately show ?thesis
    using objs batch_finalized [OF core_laws [OF L] bb ev] batch_evaluates [OF core_laws [OF L] bb ev] by blast
qed

lemma batch3_returns:
  "\<exists>st'. poprf_blind_evaluate_batch lib3 1 10 1 41 1 21 30 ffi3 = Returns (0, st')"
proof -
  have "PoprfServer_blind_evaluate_batch E3 (PoprfServer_new (SecretKey T1)) 1 [BlindedElement T1] [1] =
      (Inr ([EvaluatedElement T1], pf3), 2)"
    by (simp add: batch_draws batch_r_spec toy_run toy_bytes check_no_identity_eq)
  then show ?thesis
    by (simp add: poprf_blind_evaluate_batch_def Let_def bytes_from_raw_def handles_from_raw_def deref_def
        into_raw_def store_slots_def)
qed

theorem ffi_batch_run_correct_witness:
  "\<exists>st' q pq ev pf. poprf_blind_evaluate_batch lib3 1 10 1 41 1 21 30 ffi3 = Returns (0, st') \<and>
    heap st' q = Some (EvaluatedObj ev) \<and> heap st' pq = Some (ProofObj pf) \<and>
    PoprfClient_finalize_batch E3 cl3 [[0]] [st3] [ev] [BlindedElement T1] pf [1] =
      rmap (\<lambda>x. PoprfServer_evaluate E3 srv3 x [1]) [[0]]"
proof -
  obtain st' where ret: "poprf_blind_evaluate_batch lib3 1 10 1 41 1 21 30 ffi3 = Returns (0, st')"
    using batch3_returns by blast
  have bb: "blinded_batch (core lib3) (client_of (core lib3) srv3) [1] [[0]] [st3] [BlindedElement T1]"
    using toy_blind by (auto simp: blinded_batch_def)
  have adm: "admissible ffi3 (Call_blind_evaluate_batch 1 10 1 41 1 21 30)"
    by (simp add: handle_def live_def handles_ok_def readable_def slots_ok_def)
  obtain ps q evs pf outs where "list_all2 (\<lambda>q ev. heap st' q = Some (EvaluatedObj ev)) ps evs"
    "heap st' q = Some (ProofObj pf)"
    "PoprfClient_finalize_batch E3 cl3 [[0]] [st3] evs [BlindedElement T1] pf [1] = Inr outs"
    "rmap (\<lambda>x. PoprfServer_evaluate E3 srv3 x [1]) [[0]] = Inr outs"
    using ffi_batch_run_correct [OF lib3_laws ffi3_inv adm _ _ _ _ _ _ bb ret]
    by (auto simp: bytes_from_raw_def handles_from_raw_def)
  moreover from this(3) obtain ev where "evs = [ev]"
    by (cases evs) (auto simp: PoprfClient_finalize_batch_def split: if_splits)
  ultimately show ?thesis using ret by (auto simp: list_all2_Cons2)
qed

text \<open>Tables across the C boundary. When \<open>poprf_evaluate_tables\<close> reports success, its out array
  holds one fresh handle per table, and the outputs behind them are, in order, those of evaluating
  the inputs the tables were made from.\<close>

theorem ffi_tables_correct:
  assumes L: "lib_laws L" and inv: "ffi_inv L st"
    and adm: "admissible st (Call_evaluate_tables p arr n info_ptr info_len out)"
    and key: "heap st p = Some (SecretKeyObj sk)" and info: "bytes_from_raw st info_ptr info_len = Returns (Some info)"
    and ptrs: "handles_from_raw st arr n = Returns ptrs"
      "list_all2 (\<lambda>q tb. heap st q = Some (TableObj tb)) ptrs tables"
    and inputs: "list_all2 (\<lambda>x tb. PoprfInputTable_new (core L) x = Inr tb) inputs tables"
    and ret: "poprf_evaluate_tables L p arr n info_ptr info_len out st = Returns (0, st')"
  shows "\<exists>ps rest outs. c_slots st' out = Some (map Some ps @ rest) \<and> distinct ps \<and>
    (\<forall>q \<in> set ps. q \<noteq> NULL \<and> heap st q = None) \<and>
    list_all2 (\<lambda>q o'. heap st' q = Some (OutputObj o')) ps outs \<and>
    rmap (\<lambda>x. PoprfServer_evaluate (core L) (PoprfServer_new sk) x info) inputs = Inr outs"
proof -
  obtain tables' outs ps slots where post:
    "list_all2 (\<lambda>q t. heap st q = Some (TableObj t)) ptrs tables'"
    "PoprfServer_evaluate_tables (core L) (PoprfServer_new sk) tables' info = Inr outs"
    "stored (map OutputObj outs) ps st st'" "c_slots st' = (c_slots st)(out \<mapsto> map Some ps @ drop n slots)"
    using evaluate_tables_runs [OF L inv, of p arr n info_ptr info_len out] adm ret key info ptrs(1)
    by (auto simp: handle_def)
  have "tables' = tables"
    using ptrs(2) post(1) by (auto simp: list_all2_conv_all_nth intro!: nth_equalityI)
  moreover have "tables \<noteq> []"
    using post(2) \<open>tables' = tables\<close> by (auto simp: PoprfServer_evaluate_tables_def)
  ultimately have "rmap (\<lambda>x. PoprfServer_evaluate (core L) (PoprfServer_new sk) x info) inputs = Inr outs"
    using tables_eq_evaluate [OF core_laws [OF L] _ inputs] post(2) by metis
  moreover have "list_all2 (\<lambda>q o'. heap st' q = Some (OutputObj o')) ps outs"
    using stored_objects [OF post(3)] by (simp add: list_all2_map2)
  moreover have "distinct ps" "\<forall>q \<in> set ps. q \<noteq> NULL \<and> heap st q = None"
    using post(3) unfolding stored_def by (blast, metis)
  moreover have "c_slots st' out = Some (map Some ps @ drop n slots)" using post(4) by simp
  ultimately show ?thesis by blast
qed

lemma tables3_returns:
  "\<exists>st'. poprf_evaluate_tables lib3 1 11 1 41 1 20 ffi3 = Returns (0, st')"
proof -
  have "PoprfServer_evaluate_tables E3 (PoprfServer_new (SecretKey T1)) [tb3] [1] = Inr [poprf E3 srv3 [0] [1]]"
    using evaluate_tables_spec [of E3 "[[0]]" "[tb3]"] by (simp add: tb3_made) (simp add: toy_run toy_bytes)
  then show ?thesis
    by (simp add: poprf_evaluate_tables_def Let_def bytes_from_raw_def handles_from_raw_def null_position_def
        deref_def into_raw_def store_slots_def)
qed

theorem ffi_tables_correct_witness:
  "\<exists>st' q o'. poprf_evaluate_tables lib3 1 11 1 41 1 20 ffi3 = Returns (0, st') \<and>
    heap st' q = Some (OutputObj o') \<and> PoprfServer_evaluate E3 srv3 [0] [1] = Inr o'"
proof -
  obtain st' where ret: "poprf_evaluate_tables lib3 1 11 1 41 1 20 ffi3 = Returns (0, st')"
    using tables3_returns by blast
  have adm: "admissible ffi3 (Call_evaluate_tables 1 11 1 41 1 20)"
    by (simp add: handle_def live_def handles_ok_def readable_def slots_ok_def)
  obtain ps outs where "list_all2 (\<lambda>q o'. heap st' q = Some (OutputObj o')) ps outs"
    "rmap (\<lambda>x. PoprfServer_evaluate E3 srv3 x [1]) [[0]] = Inr outs"
    using ffi_tables_correct [OF lib3_laws ffi3_inv adm, of "SecretKey T1" "[1]" "[3]" "[tb3]" "[[0]]", OF _ _ _ _ _ ret]
      tb3_made
    by (auto simp: bytes_from_raw_def handles_from_raw_def)
  then show ?thesis using ret by (auto simp: list_all2_Cons2 rbind_eq_Inr_iff)
qed

text \<open>A key written out as base64 text and read back through the C functions is the same key,
  behind a handle of its own; neither call fails.\<close>

theorem ffi_secret_key_roundtrip:
  assumes L: "lib_laws L" and inv: "ffi_inv L st" and key: "heap st p = Some (SecretKeyObj sk)"
    and a: "a \<noteq> NULL"
  shows "\<exists>q s st1. poprf_secret_key_encode_base64 L p st = Returns (q, st1) \<and>
    heap st q = None \<and> heap st1 = (heap st)(q \<mapsto> CStringObj s) \<and>
    (\<exists>r st2. poprf_secret_key_decode_base64 L a (length s) (st1\<lparr>c_bytes := (c_bytes st1)(a \<mapsto> s)\<rparr>) =
        Returns (r, st2) \<and> r \<notin> {NULL, p, q} \<and> heap st2 = (heap st1)(r \<mapsto> SecretKeyObj sk) \<and>
        LAST_ERROR st2 = None)"
proof -
  let ?bytes = "SecretKey_to_bytes (core L) sk"
  let ?s = "B64_encode L ?bytes"
  have p: "p \<noteq> NULL" using inv key by (cases "p = NULL") (auto simp: ffi_inv_def)
  have b64: "0 \<notin> set ?s" "B64_decode L ?s = Inr ?bytes" using L by (simp_all add: lib_laws_def b64_laws_def)
  obtain q st1 where q: "into_raw L (CStringObj ?s) (clear_error st) = (q, st1)" by fastforce
  then have enc: "poprf_secret_key_encode_base64 L p st = Returns (q, st1)"
    using key p b64(1) by (simp add: poprf_secret_key_encode_base64_def Let_def cstring_or_null_def deref_def return_box_def)
  have one: "ptr_post L st (\<lambda>x. x = CStringObj ?s) (q, st1)"
    using ptr_box [OF L inv, of "CStringObj ?s" "\<lambda>x. x = CStringObj ?s"] b64(1) q by simp
  then have q1: "q \<noteq> NULL" "heap st q = None" "heap st1 = (heap st)(q \<mapsto> CStringObj ?s)" "ffi_inv L st1"
    using hs.put_fresh [OF _ q] L inv by (auto simp: ptr_post_def heap_wf_def lib_laws_def ffi_inv_def)
  let ?st = "st1\<lparr>c_bytes := (c_bytes st1)(a \<mapsto> ?s)\<rparr>"
  have inv2: "ffi_inv L ?st" using q1(4) by (simp add: ffi_inv_def)
  have valid: "valid_secret (core L) sk" using inv_valid [OF inv key] by simp
  have dec: "SecretKey_from_bytes (core L) ?bytes = Inr sk"
    using valid core_laws [OF L] by (simp add: sk_codec.dec_enc env_lawsD)
  obtain r st2 where r: "into_raw L (SecretKeyObj sk) (clear_error ?st) = (r, st2)" by fastforce
  have two: "ptr_post L ?st (\<lambda>x. x = SecretKeyObj sk) (r, st2)"
    using ptr_box [OF L inv2, of "SecretKeyObj sk" "\<lambda>x. x = SecretKeyObj sk"] valid r by simp
  have "bytes_from_raw ?st a (length ?s) = Returns (Some ?s)" using a by (simp add: bytes_from_raw_def)
  then have "poprf_secret_key_decode_base64 L a (length ?s) ?st = Returns (r, st2)"
    using b64(2) dec r by (simp add: poprf_secret_key_decode_base64_def return_box_def Let_def)
  moreover have "r \<notin> {NULL, p, q}" "heap st2 = (heap st1)(r \<mapsto> SecretKeyObj sk)" "LAST_ERROR st2 = None"
    using two q1 key hs.put_fresh [OF _ r] L inv2 
    by (auto simp: ptr_post_def heap_wf_def lib_laws_def ffi_inv_def split: if_splits)
  ultimately show ?thesis using enc q1 by blast
qed

theorem ffi_secret_key_roundtrip_witness:
  "\<exists>q st1. poprf_secret_key_encode_base64 lib3 1 ffi3 = Returns (q, st1) \<and> heap ffi3 q = None"
  using ffi_secret_key_roundtrip [OF lib3_laws ffi3_inv, of 1 "SecretKey T1" 50] by fastforce

text \<open>C33: \<open>poprf_blind_evaluate_batch\<close> needs an initialised out array, which its contract does not
  ask for. With arguments that otherwise meet the contract and an evaluation that succeeds,
  the call is undefined whenever one of the first \<open>n\<close> out slots is uninitialised.\<close>

theorem batch_needs_initialised_slots:
  assumes L: "lib_laws L" and key: "heap st p = Some (SecretKeyObj sk)" "p \<noteq> NULL"
    and arr: "arr \<noteq> NULL" "handles_from_raw st arr n = Returns ptrs" "n \<noteq> 0" "NULL \<notin> set ptrs"
    and all: "list_all2 (\<lambda>q b. heap st q = Some (BlindedObj b)) ptrs bls"
    and info: "bytes_from_raw st info_ptr info_len = Returns (Some info)"
    and call: "PoprfServer_blind_evaluate_batch (core L) (PoprfServer_new sk) (os_rng st) bls info = (Inr (evs, pf), rng)"
    and slots: "out_e \<noteq> NULL" "out_p \<noteq> NULL" "c_slots st out_e = Some slots" "n \<le> length slots"
    and uninit: "None \<in> set (take n slots)"
  shows "poprf_blind_evaluate_batch L p arr n info_ptr info_len out_e out_p st = Undefined"
proof -
  have clone: "clone_blinded st i ptrs = Returns (Inr bls)" for i
    using all arr(4) by (induction arbitrary: i rule: list_all2_induct) (auto simp: deref_def)
  have "length ptrs = n" using arr(2) by (auto simp: handles_from_raw_def split: option.splits if_splits)
  then have len: "length evs = n"
    using batch_evaluated(4) [OF core_laws [OF L]] batch_call_evaluated [OF call] list_all2_lengthD [OF all]
    by (metis length_map)
  obtain ps st1 where put: "into_raw_all L (map EvaluatedObj evs) (clear_error st\<lparr>os_rng := rng\<rparr>) = (ps, st1)"
    by fastforce
  have "length ps = length xs \<and> c_slots st2 = c_slots st0" if "into_raw_all L xs st0 = (ps, st2)" for xs st0 ps st2
    using that by (induction xs arbitrary: st0 ps) (fastforce simp: into_raw_def Let_def split: prod.splits)+
  from this [OF put] have "length ps = n" "c_slots st1 = c_slots st" using len by simp_all
  then have "store_slots True out_e ps st1 = Undefined"
    using slots uninit by (simp add: store_slots_def)
  then show ?thesis
    using key arr clone info call slots len put
    by (simp add: poprf_blind_evaluate_batch_def Let_def deref_def)
qed

theorem batch_needs_initialised_slots_witness:
  "poprf_blind_evaluate_batch lib3 1 10 1 41 1 20 30 ffi3 = Undefined"
proof -
  have "PoprfServer_blind_evaluate_batch (core lib3) (PoprfServer_new (SecretKey T1)) (os_rng ffi3)
      [BlindedElement T1] [1] = (Inr ([EvaluatedElement T1], pf3), 2)"
    by (simp add: batch_draws batch_r_spec toy_run toy_bytes check_no_identity_eq)
  from batch_needs_initialised_slots [OF lib3_laws _ _ _ _ _ _ _ _ this] show ?thesis
    by (simp add: handles_from_raw_def bytes_from_raw_def)
qed

end
