(* ===== verification/Ffi_Contract.thy ===== *)
theory Ffi_Contract
  imports Ffi_Refinement Ffi_Threads Ffi_Properties
begin

text \<open>
  The properties of the whole C ABI: the exported functions implement \<open>ffi_spec\<close>, and a
  thread's error message is its own, whatever the other threads call.
\<close>

section \<open>Refinement\<close>

text \<open>C22: The C ABI implements its specification. In every state of the invariant each admissible
  call, of all 23, returns what \<open>ffi_spec\<close> says it does: the same value, message, new objects,
  out slots, generator state and last error, and nothing else changes.\<close>

theorem ffi_refines_spec:
  assumes "lib_laws L" and "ffi_inv L st" and "admissible st c" and "call_fits L st c"
  shows "ffi_exec L c st = Returns (realise L (ffi_spec L c st) st)"
  using assms by (rule exec_refines)

theorem ffi_refines_spec_witness:
  "ffi_exec lib3 (Call_evaluate 1 40 1 41 1) ffi3 =
     Returns (realise lib3 (Create (Inr (OutputObj (poprf E3 srv3 [0] [1])))) ffi3)"
proof -
  have "admissible ffi3 (Call_evaluate 1 40 1 41 1)" by (simp add: handle_def live_def readable_def)
  then have "ffi_exec lib3 (Call_evaluate 1 40 1 41 1) ffi3 =
      Returns (realise lib3 (ffi_spec lib3 (Call_evaluate 1 40 1 41 1) ffi3) ffi3)"
    by (intro ffi_refines_spec) (simp_all add: ffi3_inv)
  moreover have "PoprfServer_evaluate E3 (PoprfServer_new (SecretKey T1)) [0] [1] = Inr (poprf E3 srv3 [0] [1])"
    by (simp add: evaluate_spec) (simp add: toy_run toy_bytes)
  ultimately show ?thesis by (simp add: object_def arg_def bytes_from_raw_def del: realise.simps)
qed

section \<open>Threads\<close>

definition threads3 :: "(tri, tri, tri, bytes, nat) threads" where
  "threads3 = \<lparr>shared = ffi3\<lparr>heap := Map.empty\<rparr>, thread_error = (\<lambda>_. None)\<rparr>"

lemma threads3_start: "threads_start threads3"
  by (simp add: threads3_def threads_start_def)

text \<open>Thread 1 fails to make a public key while thread 2 makes a table.\<close>

lemma thread1_fails:
  "thread_exec lib3 1 (Call_public_key_from_secret NULL) threads3 =
     Returns (RetPtr NULL, threads3\<lparr>thread_error := (\<lambda>_. None)(1 := Some (ascii ''null SecretKey''))\<rparr>)"
  by (simp add: thread_exec_def threads3_def view_def update_view_def poprf_public_key_from_secret_def omap_def
      fail_with_def set_error_def clear_error_def ascii_simps Let_def)

text \<open>C23: A thread's error message is its own. When a call of a thread fails, the other threads may
  call what they like, succeed or fail: what \<open>poprf_last_error_message\<close> then gives that thread
  is a fresh copy of the very message its own call left.\<close>

theorem error_is_private:
  assumes L: "lib_laws L" and inv: "threads_inv L ts"
    and c: "admissible (view t ts) c" "call_fits L (view t ts) c" "reports_error c"
    and fails: "thread_exec L t c ts = Returns (r, ts1)" "ret_failed r"
    and others: "thread_run L T ts1 ts2" "t \<notin> T"
  shows "\<exists>msg q ts3. thread_error ts1 t = Some msg \<and>
    thread_exec L t Call_last_error_message ts2 = Returns (RetPtr q, ts3) \<and>
    q \<noteq> NULL \<and> heap (shared ts2) q = None \<and> heap (shared ts3) = (heap (shared ts2))(q \<mapsto> CStringObj msg)"
proof -
  have one: "threads_inv L ts1" "thread_error ts1 t \<noteq> None"
    using thread_exec_runs [OF L inv c(1,2)] fails c(3) by (simp_all add: call_post_def)
  then obtain msg where msg: "thread_error ts1 t = Some msg" by blast
  have two: "threads_inv L ts2" "thread_error ts2 t = Some msg"
    using thread_run_keeps [OF L one(1) others(1)] others(2) msg by auto
  obtain q st where q: "into_raw L (CStringObj msg) (view t ts2) = (q, st)" by fastforce
  have "ffi_inv L (view t ts2)" using two(1) by (simp add: threads_inv_def)
  then have fresh: "q \<noteq> NULL" "heap (shared ts2) q = None" "heap st = (heap (shared ts2))(q \<mapsto> CStringObj msg)"
    using hs.put_fresh [OF _ q] hs.put_lookup [OF q] L by (auto simp: heap_wf_def lib_laws_def ffi_inv_def)
  have "ffi_exec L Call_last_error_message (view t ts2) = Returns (RetPtr q, st)"
    using exec_refines [OF L \<open>ffi_inv L (view t ts2)\<close>, of Call_last_error_message] two(2) q by simp
  then have "thread_exec L t Call_last_error_message ts2 = Returns (RetPtr q, update_view t st ts2)"
    by (simp add: thread_exec_def)
  then show ?thesis using msg fresh by (simp add: update_view_def)
qed

theorem error_is_private_witness:
  "\<exists>ts2 q ts3. thread_exec lib3 2 (Call_public_key_encode_base64 NULL)
      (threads3\<lparr>thread_error := (\<lambda>_. None)(1 := Some (ascii ''null SecretKey''))\<rparr>) = Returns (RetPtr NULL, ts2) \<and>
    thread_exec lib3 1 Call_last_error_message ts2 = Returns (RetPtr q, ts3) \<and>
    heap (shared ts3) q = Some (CStringObj (ascii ''null SecretKey''))"
proof -
  let ?ts = "threads3\<lparr>thread_error := (\<lambda>_. None)(1 := Some (ascii ''null SecretKey''))\<rparr>"
  obtain ts2 where ts2: "thread_exec lib3 2 (Call_public_key_encode_base64 NULL) ?ts = Returns (RetPtr NULL, ts2)"
    by (simp add: thread_exec_def poprf_public_key_encode_base64_def omap_def fail_with_def Let_def)
  have "thread_run lib3 {2} ?ts ts2"
    by (rule run_step [OF run_refl _ thread_call [OF _ _ ts2]]) (simp_all add: handle_def)
  from error_is_private [OF lib3_laws start_inv [OF threads3_start] _ _ _ thread1_fails _ this] show ?thesis
    using ts2 by (auto simp: handle_def)
qed

end
