(* ===== verification/Ffi_Client.thy ===== *)
theory Ffi_Client
  imports Ffi_Refinement
begin

text \<open>
  Reasoning about programs that use the C ABI: for every call, a rule that gives its weakest
  precondition in terms of the specification \<open>ffi_spec\<close>. The rules leave no trace of the allocator: the
  address of a new object is any address that is free. With them the proof of a client is the rules in the
  order of its calls.
\<close>

section \<open>Weakest preconditions of the answers\<close>

definition fresh :: "addr list \<Rightarrow> (addr \<Rightarrow> 'o option) \<Rightarrow> bool" where
  "fresh ps h \<longleftrightarrow> distinct ps \<and> NULL \<notin> set ps \<and> (\<forall>p \<in> set ps. h p = None)"

lemma fresh_simps [simp]:
  "fresh [] h" "fresh (p # ps) h \<longleftrightarrow> p \<noteq> NULL \<and> p \<notin> set ps \<and> h p = None \<and> fresh ps h"
  by (auto simp: fresh_def)

fun effect_wp :: "('s, 'p, 't, 'h, 'r) lib \<Rightarrow> ('s, 'p, 't, 'h, 'r) effect \<Rightarrow> ('s, 'p, 't, 'h, 'r) ffi \<Rightarrow>
    (ffi_ret \<times> ('s, 'p, 't, 'h, 'r) ffi \<Rightarrow> bool) \<Rightarrow> bool" where
  "effect_wp L (Create (Inl msg)) st Q \<longleftrightarrow> Q (failed (RetPtr NULL) msg st)"
| "effect_wp L (Create (Inr x)) st Q \<longleftrightarrow>
     (\<forall>p. fresh [p] (heap st) \<longrightarrow> Q (RetPtr p, (clear_error st)\<lparr>heap := (heap st)(p \<mapsto> x)\<rparr>))"
| "effect_wp L (Say None) st Q \<longleftrightarrow> Q (RetPtr NULL, st)"
| "effect_wp L (Say (Some msg)) st Q \<longleftrightarrow>
     (\<forall>p. fresh [p] (heap st) \<longrightarrow> Q (RetPtr p, st\<lparr>heap := (heap st)(p \<mapsto> CStringObj msg)\<rparr>))"
| "effect_wp L (Destroy p) st Q \<longleftrightarrow> Q (RetUnit, if p = NULL then st else free_handle p st)"
| "effect_wp L (Reply (Inl msg)) st Q \<longleftrightarrow> Q (failed (RetInt (- 1)) msg st)"
| "effect_wp L (Reply (Inr i)) st Q \<longleftrightarrow> Q (RetInt i, clear_error st)"
| "effect_wp L (Fill out (Inl msg)) st Q \<longleftrightarrow> Q (failed (RetInt (- 1)) msg st)"
| "effect_wp L (Fill out (Inr xs)) st Q \<longleftrightarrow>
     (\<forall>ps. length ps = length xs \<longrightarrow> fresh ps (heap st) \<longrightarrow>
       Q (RetInt 0, fill out ps ((clear_error st)\<lparr>heap := (heap st)(ps [\<mapsto>] xs)\<rparr>)))"
| "effect_wp L (Fill_and_prove out out_p (Inl msg) rng) st Q \<longleftrightarrow> Q (failed (RetInt (- 1)) msg (st\<lparr>os_rng := rng\<rparr>))"
| "effect_wp L (Fill_and_prove out out_p (Inr (xs, y)) rng) st Q \<longleftrightarrow>
     (\<forall>ps q. length ps = length xs \<longrightarrow> fresh (ps @ [q]) (heap st) \<longrightarrow>
       Q (RetInt 0, fill out_p [q] (fill out ps
         ((clear_error st)\<lparr>os_rng := rng, heap := ((heap st)(ps [\<mapsto>] xs))(q \<mapsto> y)\<rparr>))))"

text \<open>The two ways to allocate, without the allocator.\<close>

lemma into_raw_fresh:
  assumes L: "lib_laws L" and fin: "finite (dom (heap st))" and put: "into_raw L x st = (p, st')"
  shows "fresh [p] (heap st) \<and> st' = st\<lparr>heap := (heap st)(p \<mapsto> x)\<rparr>"
proof -
  have "heap_wf L st" using L fin by (simp add: heap_wf_def lib_laws_def)
  with hs.put_fresh [OF _ put] put show ?thesis by (auto simp: into_raw_def Let_def)
qed

lemma into_raw_all_fresh:
  assumes L: "lib_laws L"
  shows "finite (dom (heap st)) \<Longrightarrow> into_raw_all L xs st = (ps, st') \<Longrightarrow>
    length ps = length xs \<and> fresh ps (heap st) \<and> st' = st\<lparr>heap := (heap st)(ps [\<mapsto>] xs)\<rparr>"
proof (induction xs arbitrary: st ps)
  case (Cons x xs)
  obtain p st1 where p: "into_raw L x st = (p, st1)" by fastforce
  then obtain ps2 where ps: "into_raw_all L xs st1 = (ps2, st')" "ps = p # ps2"
    using Cons.prems(2) by (auto simp: Let_def split: prod.splits)
  note one = into_raw_fresh [OF L Cons.prems(1) p]
  then have "finite (dom (heap st1))" using Cons.prems(1) by simp
  note rest = Cons.IH [OF this ps(1)]
  then have "p \<notin> set ps2" "\<forall>q \<in> set ps2. heap st q = None" using one by (auto simp: fresh_def split: if_splits)
  moreover have "st' = st\<lparr>heap := (heap st)(p # ps2 [\<mapsto>] x # xs)\<rparr>" using one rest by (simp add: fun_upd_def)
  moreover have "length (p # ps2) = length (x # xs)" using rest by simp
  ultimately show ?case
    using one rest unfolding ps(2) by (metis fresh_def fresh_simps(2))
qed simp

lemma realise_wp:
  assumes L: "lib_laws L" and fin: "finite (dom (heap st))" and wp: "effect_wp L e st Q"
  shows "Q (realise L e st)"
  using wp
proof (cases rule: effect_wp.cases [of "(L, e, st, Q)"])
  case (2 L' x st' Q')
  then show ?thesis
    using wp into_raw_fresh [OF L, of "clear_error st" x] fin
    by (auto simp: clear_error_def split: prod.splits)
next
  case (4 L' msg st' Q')
  then show ?thesis
    using wp into_raw_fresh [OF L fin, of "CStringObj msg"] by (auto split: prod.splits)
next
  case (9 L' out xs st' Q')
  then show ?thesis
    using wp into_raw_all_fresh [OF L, of "clear_error st" xs] fin
    by (auto simp: clear_error_def split: prod.splits)
next
  case (11 L' out out_p xs y rng st' Q')
  obtain ps st1 where ps: "into_raw_all L xs (clear_error st\<lparr>os_rng := rng\<rparr>) = (ps, st1)" by fastforce
  obtain q st2 where q: "into_raw L y (fill out ps st1) = (q, st2)" by fastforce
  have one: "length ps = length xs" "fresh ps (heap st)"
    "st1 = (clear_error st)\<lparr>os_rng := rng, heap := (heap st)(ps [\<mapsto>] xs)\<rparr>"
    using into_raw_all_fresh [OF L _ ps] fin by (auto simp: clear_error_def)
  then have "finite (dom (heap (fill out ps st1)))" using fin by (simp add: fill_def)
  from into_raw_fresh [OF L this q] one have two: "fresh [q] ((heap st)(ps [\<mapsto>] xs))"
    "st2 = fill out ps ((clear_error st)\<lparr>os_rng := rng, heap := ((heap st)(ps [\<mapsto>] xs))(q \<mapsto> y)\<rparr>)"
    by (simp_all add: fill_def)
  have "q \<notin> set ps \<and> heap st q = None"
  proof -
    have "q \<notin> dom ((heap st)(ps [\<mapsto>] xs))" using two(1) by (simp add: domIff del: dom_map_upds)
    then show ?thesis using one(1) by (simp add: domIff)
  qed
  then have "fresh (ps @ [q]) (heap st)" using one(2) two(1) by (auto simp: fresh_def)
  then show ?thesis using wp 11 ps q one(1) two(2) by simp
qed (use wp in simp_all)

section \<open>The rules of the calls\<close>

lemma exec_wp:
  assumes L: "lib_laws L" and inv: "ffi_inv L st" and c: "admissible st c" "call_fits L st c"
    and wp: "effect_wp L (ffi_spec L c st) st Q"
  shows "runs Q (ffi_exec L c st)"
proof -
  have "finite (dom (heap st))" using inv by (simp add: ffi_inv_def)
  then show ?thesis using realise_wp [OF L _ wp] exec_refines [OF L inv c] by simp
qed

text \<open>The same for the functions themselves, by the type of the value they return.\<close>

lemma ptr_wp:
  assumes "ffi_exec L c st = omap RetPtr r" and "lib_laws L" "ffi_inv L st" "admissible st c" "call_fits L st c"
    and "effect_wp L (ffi_spec L c st) st (\<lambda>(v, st'). \<forall>p. v = RetPtr p \<longrightarrow> Q (p, st'))"
  shows "runs Q r"
  using exec_wp [OF assms(2-6)] assms(1) by (simp add: split_beta)

lemma int_wp:
  assumes "ffi_exec L c st = omap RetInt r" and "lib_laws L" "ffi_inv L st" "admissible st c" "call_fits L st c"
    and "effect_wp L (ffi_spec L c st) st (\<lambda>(v, st'). \<forall>i. v = RetInt i \<longrightarrow> Q (i, st'))"
  shows "runs Q r"
  using exec_wp [OF assms(2-6)] assms(1) by (simp add: split_beta)

lemma unit_wp:
  assumes "ffi_exec L c st = omap (\<lambda>_. RetUnit) r" and "lib_laws L" "ffi_inv L st" "admissible st c" "call_fits L st c"
    and "effect_wp L (ffi_spec L c st) st (\<lambda>(v, st'). Q ((), st'))"
  shows "runs Q r"
proof -
  have "(\<lambda>(u, st'). Q ((), st')) = Q" by auto
  then show ?thesis using exec_wp [OF assms(2-6)] assms(1) by simp
qed

lemmas ptr_wps =
  ptr_wp [OF ffi_exec.simps(1)] ptr_wp [OF ffi_exec.simps(3)] ptr_wp [OF ffi_exec.simps(4)]
  ptr_wp [OF ffi_exec.simps(5)] ptr_wp [OF ffi_exec.simps(7)] ptr_wp [OF ffi_exec.simps(8)]
  ptr_wp [OF ffi_exec.simps(10)] ptr_wp [OF ffi_exec.simps(12)] ptr_wp [OF ffi_exec.simps(14)]
  ptr_wp [OF ffi_exec.simps(17)] ptr_wp [OF ffi_exec.simps(18)] ptr_wp [OF ffi_exec.simps(21)]

lemmas int_wps =
  int_wp [OF ffi_exec.simps(16)] int_wp [OF ffi_exec.simps(20)] int_wp [OF ffi_exec.simps(22)]

lemmas unit_wps =
  unit_wp [OF ffi_exec.simps(2)] unit_wp [OF ffi_exec.simps(6)] unit_wp [OF ffi_exec.simps(9)]
  unit_wp [OF ffi_exec.simps(11)] unit_wp [OF ffi_exec.simps(13)] unit_wp [OF ffi_exec.simps(15)]
  unit_wp [OF ffi_exec.simps(19)] unit_wp [OF ffi_exec.simps(23)]

lemmas call_wps = ptr_wps int_wps unit_wps

end
