(* ===== verification/Ffi_Races.thy ===== *)
theory Ffi_Races
  imports Ffi_Client Ffi_Contract
begin

text \<open>
  Calls that overlap. A call is entered, reads what its arguments point to, may go on reading as long
  as it runs, and writes its results at the end; between any two of these moments the other
  threads may do the same, destructors included. The use of a handle that is gone, a second free
  and two writes to one out array are undefined behaviour. Two calls in flight race when one
  frees a handle the other uses or when both write one out array. The README's rule (no \<open>poprf_*_destroy\<close> on a handle while another thread is
  using it) and the \<open># Safety\<close> sections are the condition under which a thread may act. Under it
  no interleaving goes wrong and every call ends as if it had run in one piece, which justifies
  the steps of Ffi_Threads; without it the race is there.
\<close>

section \<open>What a call touches\<close>

fun direct_handles :: "ffi_call \<Rightarrow> addr set" where
  "direct_handles Call_last_error_message = {}"
| "direct_handles (Call_c_char_destroy p) = {p}"
| "direct_handles (Call_secret_key_from_seed s sl i il) = {}"
| "direct_handles (Call_secret_key_decode_base64 s sl) = {}"
| "direct_handles (Call_secret_key_encode_base64 p) = {p}"
| "direct_handles (Call_secret_key_destroy p) = {p}"
| "direct_handles (Call_public_key_from_secret p) = {p}"
| "direct_handles (Call_public_key_encode_base64 p) = {p}"
| "direct_handles (Call_public_key_destroy p) = {p}"
| "direct_handles (Call_blinded_element_decode_base64 s sl) = {}"
| "direct_handles (Call_blinded_element_destroy p) = {p}"
| "direct_handles (Call_evaluated_element_encode_base64 p) = {p}"
| "direct_handles (Call_evaluated_element_destroy p) = {p}"
| "direct_handles (Call_proof_encode_base64 p) = {p}"
| "direct_handles (Call_proof_destroy p) = {p}"
| "direct_handles (Call_blind_evaluate_batch p arr n i il oe op) = {p}"
| "direct_handles (Call_evaluate p x xl i il) = {p}"
| "direct_handles (Call_input_table_new x xl) = {}"
| "direct_handles (Call_input_table_destroy p) = {p}"
| "direct_handles (Call_evaluate_tables p arr n i il out) = {p}"
| "direct_handles (Call_output_encode_base64 p) = {p}"
| "direct_handles (Call_output_eq_base64 p s sl) = {p}"
| "direct_handles (Call_output_destroy p) = {p}"

fun handle_array :: "ffi_call \<Rightarrow> (addr \<times> nat) option" where
  "handle_array (Call_blind_evaluate_batch p arr n i il oe op) = Some (arr, n)"
| "handle_array (Call_evaluate_tables p arr n i il out) = Some (arr, n)"
| "handle_array _ = None"

fun byte_buffers :: "ffi_call \<Rightarrow> addr set" where
  "byte_buffers (Call_secret_key_from_seed s sl i il) = {s, i}"
| "byte_buffers (Call_secret_key_decode_base64 s sl) = {s}"
| "byte_buffers (Call_blinded_element_decode_base64 s sl) = {s}"
| "byte_buffers (Call_blind_evaluate_batch p arr n i il oe op) = {i}"
| "byte_buffers (Call_evaluate p x xl i il) = {x, i}"
| "byte_buffers (Call_input_table_new x xl) = {x}"
| "byte_buffers (Call_evaluate_tables p arr n i il out) = {i}"
| "byte_buffers (Call_output_eq_base64 p s sl) = {s}"
| "byte_buffers _ = {}"

fun out_arrays :: "ffi_call \<Rightarrow> addr set" where
  "out_arrays (Call_blind_evaluate_batch p arr n i il oe op) = {oe, op}"
| "out_arrays (Call_evaluate_tables p arr n i il out) = {out}"
| "out_arrays _ = {}"

fun frees :: "ffi_call \<Rightarrow> addr set" where
  "frees (Call_c_char_destroy p) = {p} - {NULL}"
| "frees (Call_secret_key_destroy p) = {p} - {NULL}"
| "frees (Call_public_key_destroy p) = {p} - {NULL}"
| "frees (Call_blinded_element_destroy p) = {p} - {NULL}"
| "frees (Call_evaluated_element_destroy p) = {p} - {NULL}"
| "frees (Call_proof_destroy p) = {p} - {NULL}"
| "frees (Call_input_table_destroy p) = {p} - {NULL}"
| "frees (Call_output_destroy p) = {p} - {NULL}"
| "frees _ = {}"

definition handles_behind :: "('s, 'p, 't, 'h, 'r) ffi \<Rightarrow> addr \<times> nat \<Rightarrow> addr set" where
  "handles_behind st a = (if fst a = NULL then {} else
     case c_handles st (fst a) of None \<Rightarrow> {} | Some ps \<Rightarrow> set (take (snd a) ps))"

text \<open>The handles a call uses: those it is given and those in the array it is given.\<close>

definition handles_used :: "('s, 'p, 't, 'h, 'r) ffi \<Rightarrow> ffi_call \<Rightarrow> addr set" where
  "handles_used st c = (direct_handles c \<union>
     (case handle_array c of None \<Rightarrow> {} | Some a \<Rightarrow> handles_behind st a)) - {NULL}"

definition races :: "('s, 'p, 't, 'h, 'r) ffi \<Rightarrow> ffi_call \<Rightarrow> ffi_call \<Rightarrow> bool" where
  "races st c d \<longleftrightarrow> frees c \<inter> handles_used st d \<noteq> {} \<or> frees d \<inter> handles_used st c \<noteq> {} \<or>
     out_arrays c \<inter> out_arrays d \<noteq> {}"

text \<open>Two states agree on everything a call reads or writes.\<close>

definition untouched :: "ffi_call \<Rightarrow> ('s, 'p, 't, 'h, 'r) ffi \<Rightarrow> ('s, 'p, 't, 'h, 'r) ffi \<Rightarrow> bool" where
  "untouched c st st' \<longleftrightarrow>
     (\<forall>a \<in> byte_buffers c. c_bytes st' a = c_bytes st a) \<and>
     (\<forall>a. handle_array c = Some a \<longrightarrow> c_handles st' (fst a) = c_handles st (fst a)) \<and>
     (\<forall>a \<in> out_arrays c. c_slots st' a = c_slots st a) \<and>
     (\<forall>p \<in> handles_used st c. heap st' p = heap st p)"

lemma handles_used_untouched: "untouched c st st' \<Longrightarrow> handles_used st' c = handles_used st c"
  by (auto simp: untouched_def handles_used_def handles_behind_def split: option.splits)

lemma readable_eq: "c_bytes st' p = c_bytes st p \<Longrightarrow> readable st' p n = readable st p n"
  by (simp add: readable_def)

lemma live_eq: "heap st' p = heap st p \<Longrightarrow> live sel p st' = live sel p st"
  by (simp add: live_def)

lemma handle_eq: "(p \<noteq> NULL \<Longrightarrow> heap st' p = heap st p) \<Longrightarrow> handle sel p st' = handle sel p st"
  by (cases "p = NULL") (simp_all add: handle_def live_def)

lemma slots_eq: "c_slots st' p = c_slots st p \<Longrightarrow> slots_ok b st' p n = slots_ok b st p n"
  by (simp add: slots_ok_def)

lemma handles_eq:
  assumes "c_handles st' arr = c_handles st arr"
    and "\<And>p. p \<in> handles_behind st (arr, n) \<Longrightarrow> p \<noteq> NULL \<Longrightarrow> heap st' p = heap st p"
  shows "handles_ok sel st' arr n = handles_ok sel st arr n"
proof (cases "c_handles st arr")
  case (Some ps)
  have "live sel p st' = live sel p st" if "p \<in> set (take n ps)" "p \<noteq> NULL" "arr \<noteq> NULL" for p
    using that Some assms(2) [of p] by (intro live_eq) (simp add: handles_behind_def)
  then show ?thesis using assms(1) Some unfolding handles_ok_def by (cases "arr = NULL") auto
qed (use assms in \<open>simp add: handles_ok_def\<close>)

text \<open>Whether a call is admissible depends on its footprint alone.\<close>

lemma admissible_untouched:
  assumes "untouched c st st'" and "admissible st c"
  shows "admissible st' c"
  using assms
  by (cases c)
    (auto simp: untouched_def handles_used_def readable_eq [of st' _ st] slots_eq [of st' _ st] handle_eq [of _ st' st]
      handles_eq [of st' _ st])

text \<open>So does what the call answers, up to the state of the generator.\<close>

lemma arg_eq: "c_bytes st' p = c_bytes st p \<Longrightarrow> arg st' p n msg = arg st p n msg"
  by (simp add: arg_def bytes_from_raw_def)

lemma object_eq: "(p \<noteq> NULL \<Longrightarrow> heap st' p = heap st p) \<Longrightarrow> object sel p st' msg = object sel p st msg"
  by (cases "p = NULL") (simp_all add: object_def)

lemma array_eq:
  assumes ok: "handles_ok sel st arr n" "arr \<noteq> NULL" and h: "c_handles st' arr = c_handles st arr"
    and "\<And>p. p \<in> handles_behind st (arr, n) \<Longrightarrow> p \<noteq> NULL \<Longrightarrow> heap st' p = heap st p"
  shows "array sel arr n st' what = array sel arr n st what"
proof -
  obtain ps where ps: "c_handles st arr = Some ps" using ok by (auto simp: handles_ok_def)
  have "heap st' p = heap st p" if "p \<in> set (take n ps)" "p \<noteq> NULL" for p
    using that assms(2,4) ps by (simp add: handles_behind_def)
  then have "map (\<lambda>p. the (sel (the (heap st' p)))) (take n ps) = map (\<lambda>p. the (sel (the (heap st p)))) (take n ps)"
    if "null_position (take n ps) = None"
    using that null_position_None by (intro map_cong refl) metis
  then show ?thesis using h ps by (simp add: array_def Let_def split: option.splits)
qed

lemma spec_untouched:
  assumes "untouched c st st'" and "admissible st c"
    and "LAST_ERROR st' = LAST_ERROR st" and "os_rng st' = os_rng st"
  shows "ffi_spec L c st' = ffi_spec L c st"
proof (cases c)
  case (Call_blind_evaluate_batch p arr n i il oe op)
  have "array as_blinded arr n st' what = array as_blinded arr n st what" if "arr \<noteq> NULL" for what
    using that assms(1,2) by (intro array_eq) (auto simp: Call_blind_evaluate_batch untouched_def handles_used_def)
  moreover have "heap st' p = heap st p" if "p \<noteq> NULL"
    using that assms(1) by (simp add: Call_blind_evaluate_batch untouched_def handles_used_def)
  moreover have "c_bytes st' i = c_bytes st i" using assms(1) by (simp add: Call_blind_evaluate_batch untouched_def)
  ultimately show ?thesis
    using assms(4) arg_eq [of st' i st]
    by (cases "p = NULL"; cases "arr = NULL") (simp_all add: Call_blind_evaluate_batch check_def cong: sum.case_cong)
next
  case (Call_evaluate_tables p arr n i il out)
  have "array as_table arr n st' what = array as_table arr n st what" if "arr \<noteq> NULL" for what
    using that assms(1,2) by (intro array_eq) (auto simp: Call_evaluate_tables untouched_def handles_used_def)
  moreover have "heap st' p = heap st p" if "p \<noteq> NULL"
    using that assms(1) by (simp add: Call_evaluate_tables untouched_def handles_used_def)
  moreover have "c_bytes st' i = c_bytes st i" using assms(1) by (simp add: Call_evaluate_tables untouched_def)
  ultimately show ?thesis
    using arg_eq [of st' i st]
    by (cases "p = NULL"; cases "arr = NULL") (simp_all add: Call_evaluate_tables check_def)
qed (use assms in \<open>simp_all add: untouched_def handles_used_def arg_eq [of st' _ st] object_eq [of _ st' st]\<close>)

section \<open>What an answer changes\<close>

fun effect_frees :: "('s, 'p, 't, 'h, 'r) effect \<Rightarrow> addr set" where
  "effect_frees (Destroy p) = {p} - {NULL}"
| "effect_frees _ = {}"

fun effect_slots :: "('s, 'p, 't, 'h, 'r) effect \<Rightarrow> addr set" where
  "effect_slots (Fill out (Inr xs)) = {out}"
| "effect_slots (Fill_and_prove oe op (Inr xs) rng) = {oe, op}"
| "effect_slots _ = {}"

lemma effect_slots_fill:
  "effect_slots (Fill out r) \<subseteq> {out}" "effect_slots (Fill_and_prove oe op r' rng) \<subseteq> {oe, op}"
  by (cases r; cases r'; auto)+

lemma spec_effects: "effect_frees (ffi_spec L c st) \<subseteq> frees c \<and> effect_slots (ffi_spec L c st) \<subseteq> out_arrays c"
proof (cases c)
  case (Call_blind_evaluate_batch p arr n i il oe op)
  then show ?thesis by (auto split: sum.splits prod.splits dest: subsetD [OF effect_slots_fill(2)])
next
  case (Call_evaluate_tables p arr n i il out)
  then show ?thesis by (simp add: effect_slots_fill(1))
qed (simp_all add: text_of_def)

lemma fresh_snoc: "fresh (ps @ [q]) h \<Longrightarrow> fresh ps h \<and> fresh [q] h"
  by (auto simp: fresh_def)

lemma realise_frame:
  assumes L: "lib_laws L" and fin: "finite (dom (heap st))"
  shows "case realise L e st of (r, st') \<Rightarrow>
    c_bytes st' = c_bytes st \<and> c_handles st' = c_handles st \<and>
    (\<forall>a. a \<notin> effect_slots e \<longrightarrow> c_slots st' a = c_slots st a) \<and>
    (\<forall>p. p \<notin> effect_frees e \<and> (heap st p \<noteq> None \<or> p = NULL) \<longrightarrow> heap st' p = heap st p)"
proof (rule realise_wp [OF L fin])
  have fresh: "(f(ps [\<mapsto>] xs)) p = f p" if "fresh ps f" "f p \<noteq> None \<or> p = NULL" for f :: "addr \<Rightarrow> _" and ps xs p
    using that by (intro map_upds_apply_nontin) (auto simp: fresh_def)
  show "effect_wp L e st (\<lambda>(r, st'). c_bytes st' = c_bytes st \<and> c_handles st' = c_handles st \<and>
    (\<forall>a. a \<notin> effect_slots e \<longrightarrow> c_slots st' a = c_slots st a) \<and>
    (\<forall>p. p \<notin> effect_frees e \<and> (heap st p \<noteq> None \<or> p = NULL) \<longrightarrow> heap st' p = heap st p))"
    by (cases rule: effect_wp.cases [of "(L, e, st, \<lambda>_. True)"])
      (auto simp: failed_def set_error_def clear_error_def free_handle_def fill_def fresh dest!: fresh_snoc)
qed

text \<open>An answer does not depend on the generator, and leaves what \<open>drawn\<close> says.\<close>

fun drawn :: "('s, 'p, 't, 'h, 'r) effect \<Rightarrow> 'r \<Rightarrow> 'r" where
  "drawn (Fill_and_prove oe op r rng) g = rng"
| "drawn _ g = g"

lemma into_raw_rng:
  "into_raw L x (st\<lparr>os_rng := g\<rparr>) = (case into_raw L x st of (p, st') \<Rightarrow> (p, st'\<lparr>os_rng := g\<rparr>))"
  by (simp add: into_raw_def Let_def)

lemma into_raw_all_rng:
  "into_raw_all L xs (st\<lparr>os_rng := g\<rparr>) = (case into_raw_all L xs st of (ps, st') \<Rightarrow> (ps, st'\<lparr>os_rng := g\<rparr>))"
  by (induction xs arbitrary: st) (simp_all add: into_raw_rng Let_def split: prod.splits)

lemma clear_error_rng: "clear_error (st\<lparr>os_rng := g\<rparr>) = (clear_error st)\<lparr>os_rng := g\<rparr>"
  by (simp add: clear_error_def)

lemma realise_rng:
  "realise L e (st\<lparr>os_rng := g\<rparr>) = (case realise L e st of (r, st') \<Rightarrow> (r, st'\<lparr>os_rng := drawn e g\<rparr>))"
proof (cases rule: realise.cases [of "(L, e, st)"])
  case (11 L' out out_p xs y rng st')
  have "os_rng s = rng" if "into_raw_all L' xs ((clear_error st')\<lparr>os_rng := rng\<rparr>) = (ps, s)" for ps s
    using that by (auto simp: into_raw_all_rng split: prod.splits)
  then show ?thesis
    using 11 by (auto simp: clear_error_rng into_raw_def fill_def Let_def split: prod.splits)
qed (auto simp: failed_def set_error_def clear_error_rng into_raw_rng into_raw_all_rng free_handle_def fill_def Let_def
    split: prod.splits)

section \<open>Calls in flight\<close>

text \<open>A call that has been entered, and one that has read its arguments and knows its answer.\<close>

datatype ('s, 'p, 't, 'h, 'r) running = Entered ffi_call | Loaded ffi_call "('s, 'p, 't, 'h, 'r) effect"

fun call_of :: "('s, 'p, 't, 'h, 'r) running \<Rightarrow> ffi_call" where
  "call_of (Entered c) = c"
| "call_of (Loaded c e) = c"

record ('s, 'p, 't, 'h, 'r) conc =
  base :: "('s, 'p, 't, 'h, 'r) threads"
  flight :: "tid \<Rightarrow> ('s, 'p, 't, 'h, 'r) running option"

datatype event =
    Enter ffi_call
  | Load
  | Touch
  | Store
  | Caller "addr \<Rightarrow> bytes option" "addr \<Rightarrow> addr list option" "addr \<Rightarrow> addr option list option"

definition raced :: "tid \<Rightarrow> ffi_call \<Rightarrow> ('s, 'p, 't, 'h, 'r) conc \<Rightarrow> bool" where
  "raced t c S \<longleftrightarrow> (\<exists>u d. u \<noteq> t \<and> flight S u = Some d \<and> races (shared (base S)) c (call_of d))"

definition out_raced :: "tid \<Rightarrow> ffi_call \<Rightarrow> ('s, 'p, 't, 'h, 'r) conc \<Rightarrow> bool" where
  "out_raced t c S \<longleftrightarrow> (\<exists>u d. u \<noteq> t \<and> flight S u = Some d \<and> out_arrays c \<inter> out_arrays (call_of d) \<noteq> {})"

definition rewritten :: "(addr \<Rightarrow> bytes option) \<Rightarrow> (addr \<Rightarrow> addr list option) \<Rightarrow>
    (addr \<Rightarrow> addr option list option) \<Rightarrow> ('s, 'p, 't, 'h, 'r) ffi \<Rightarrow> ('s, 'p, 't, 'h, 'r) ffi" where
  "rewritten b h s st = st\<lparr>c_bytes := b, c_handles := h, c_slots := s\<rparr>"

text \<open>
  \<open>Load\<close> runs the code of the call on the memory as it is, draws its randomness, and keeps its answer;
  \<open>Touch\<close> is any further access to its arguments: both are undefined when a handle is gone that
  the code dereferences. \<open>Store\<close> makes the answer visible: the new objects, the out slots, the freed
  handle, the thread's error; it is undefined to free a handle twice and to write an out array
  that a call in flight was given as well. \<open>Caller\<close> is the C program writing to its own memory,
  undefined where it rewrites what a call in flight was given. Whether a thread keeps the README's
  rule does not enter here.
\<close>

fun conc_exec :: "('s, 'p, 't, 'h, 'r) lib \<Rightarrow> tid \<Rightarrow> event \<Rightarrow> ('s, 'p, 't, 'h, 'r) conc \<Rightarrow>
    (ffi_ret option \<times> ('s, 'p, 't, 'h, 'r) conc) outcome" where
  "conc_exec L t (Enter c) S = Returns (None, S\<lparr>flight := (flight S)(t \<mapsto> Entered c)\<rparr>)"
| "conc_exec L t Load S =
     (case flight S t of
        Some (Entered c) \<Rightarrow>
          obind (ffi_exec L c (view t (base S))) (\<lambda>(r, st).
            Returns (None, S\<lparr>base := (base S)\<lparr>shared := (shared (base S))\<lparr>os_rng := os_rng st\<rparr>\<rparr>,
              flight := (flight S)(t \<mapsto> Loaded c (ffi_spec L c (view t (base S))))\<rparr>))
      | _ \<Rightarrow> Returns (None, S))"
| "conc_exec L t Touch S =
     (case flight S t of
        Some d \<Rightarrow> obind (ffi_exec L (call_of d) (view t (base S))) (\<lambda>_. Returns (None, S))
      | None \<Rightarrow> Returns (None, S))"
| "conc_exec L t Store S =
     (case flight S t of
        Some (Loaded c e) \<Rightarrow>
          if out_raced t c S \<or> (\<exists>p \<in> effect_frees e. heap (shared (base S)) p = None) then Undefined
          else (case realise L e (view t (base S)) of (r, st) \<Rightarrow>
            Returns (Some r, S\<lparr>base := update_view t (st\<lparr>os_rng := os_rng (shared (base S))\<rparr>) (base S),
              flight := (flight S)(t := None)\<rparr>))
      | _ \<Rightarrow> Returns (None, S))"
| "conc_exec L t (Caller b h s) S =
     (if \<exists>u d. flight S u = Some d \<and> \<not> untouched (call_of d) (shared (base S)) (rewritten b h s (shared (base S)))
      then Undefined
      else Returns (None, S\<lparr>base := (base S)\<lparr>shared := rewritten b h s (shared (base S))\<rparr>\<rparr>))"

text \<open>What a thread may do. A thread is in one call at a time; it enters a call whose arguments meet
  the safety sections, with at most 65536 elements in a batch of a debug build, and that races with
  no call in flight; it leaves the memory alone that calls in flight were given.\<close>

fun permitted :: "('s, 'p, 't, 'h, 'r) lib \<Rightarrow> tid \<Rightarrow> event \<Rightarrow> ('s, 'p, 't, 'h, 'r) conc \<Rightarrow> bool" where
  "permitted L t (Enter c) S \<longleftrightarrow> flight S t = None \<and> admissible (view t (base S)) c \<and>
     call_fits L (view t (base S)) c \<and> \<not> raced t c S"
| "permitted L t Load S \<longleftrightarrow> (\<exists>c. flight S t = Some (Entered c))"
| "permitted L t Touch S \<longleftrightarrow> flight S t \<noteq> None"
| "permitted L t Store S \<longleftrightarrow> (\<exists>c e. flight S t = Some (Loaded c e))"
| "permitted L t (Caller b h s) S \<longleftrightarrow> flight S t = None \<and>
     (\<forall>u d. flight S u = Some d \<longrightarrow> untouched (call_of d) (shared (base S)) (rewritten b h s (shared (base S))))"

inductive conc_run :: "('s, 'p, 't, 'h, 'r) lib \<Rightarrow> ('s, 'p, 't, 'h, 'r) conc \<Rightarrow> bool" for L where
  conc_start: "threads_start (base S) \<Longrightarrow> flight S = (\<lambda>_. None) \<Longrightarrow> conc_run L S"
| conc_step: "conc_run L S \<Longrightarrow> permitted L t ev S \<Longrightarrow> conc_exec L t ev S = Returns (r, S') \<Longrightarrow> conc_run L S'"

section \<open>The invariant of overlapping calls\<close>

definition conc_inv :: "('s, 'p, 't, 'h, 'r) lib \<Rightarrow> ('s, 'p, 't, 'h, 'r) conc \<Rightarrow> bool" where
  "conc_inv L S \<longleftrightarrow> threads_inv L (base S) \<and>
     (\<forall>t d. flight S t = Some d \<longrightarrow> \<not> raced t (call_of d) S \<and>
        (\<forall>g. admissible ((view t (base S))\<lparr>os_rng := g\<rparr>) (call_of d) \<and>
             call_fits L ((view t (base S))\<lparr>os_rng := g\<rparr>) (call_of d))) \<and>
     (\<forall>t c e. flight S t = Some (Loaded c e) \<longrightarrow> (\<exists>g. e = ffi_spec L c ((view t (base S))\<lparr>os_rng := g\<rparr>)))"

lemma handles_used_view [simp]:
  "handles_used ((view t ts)\<lparr>os_rng := g\<rparr>) c = handles_used (shared ts) c"
  "handles_used (view t ts) c = handles_used (shared ts) c"
  by (simp_all add: handles_used_def handles_behind_def split: option.splits)

lemma untouched_view [simp]:
  "untouched c ((view t ts)\<lparr>os_rng := g\<rparr>) ((view u ts')\<lparr>os_rng := g'\<rparr>) \<longleftrightarrow> untouched c (shared ts) (shared ts')"
  "untouched c (view t ts) ((view u ts')\<lparr>os_rng := g'\<rparr>) \<longleftrightarrow> untouched c (shared ts) (shared ts')"
  "untouched c (view t ts) (view u ts') \<longleftrightarrow> untouched c (shared ts) (shared ts')"
  by (simp_all add: untouched_def)

lemma untouched_refl [simp]: "untouched c st st"
  by (simp add: untouched_def)

lemma untouched_rng [simp]: "untouched c st (st\<lparr>os_rng := g\<rparr>)"
  by (simp add: untouched_def)

lemma races_sym: "races st c d \<longleftrightarrow> races st d c"
  by (auto simp: races_def)

lemma races_untouched:
  "untouched c st st' \<Longrightarrow> untouched d st st' \<Longrightarrow> races st' c d \<longleftrightarrow> races st c d"
  by (simp add: races_def handles_used_untouched)

text \<open>A step keeps the invariant when the calls that stay in flight are untouched by it.\<close>

lemma conc_inv_keeps:
  assumes inv: "conc_inv L S" and base: "threads_inv L (base S')"
    and kept: "\<And>u d. flight S' u = Some d \<Longrightarrow>
      (\<exists>d0. flight S u = Some d0 \<and> call_of d0 = call_of d \<and>
        (d = d0 \<or> (\<exists>g. d = Loaded (call_of d) (ffi_spec L (call_of d) ((view u (base S'))\<lparr>os_rng := g\<rparr>))))) \<and>
      untouched (call_of d) (shared (base S)) (shared (base S')) \<and> thread_error (base S') u = thread_error (base S) u"
  shows "conc_inv L S'"
  unfolding conc_inv_def
proof (intro conjI allI impI)
  show "threads_inv L (base S')" by (rule base)
next
  fix t d assume d: "flight S' t = Some d"
  then obtain d0 where d0: "flight S t = Some d0" "call_of d0 = call_of d" using kept by blast
  have here: "untouched (call_of d) (shared (base S)) (shared (base S'))" using kept [OF d] by blast
  show "\<not> raced t (call_of d) S'"
  proof
    assume "raced t (call_of d) S'"
    then obtain u e where u: "u \<noteq> t" "flight S' u = Some e" "races (shared (base S')) (call_of d) (call_of e)"
      by (auto simp: raced_def)
    then obtain e0 where e0: "flight S u = Some e0" "call_of e0 = call_of e"
      and "untouched (call_of e) (shared (base S)) (shared (base S'))" using kept by blast
    then have "races (shared (base S)) (call_of d0) (call_of e0)" using u(3) here d0(2) by (simp add: races_untouched)
    then show False using inv d0(1) e0(1) u(1) unfolding conc_inv_def raced_def by blast
  qed
  fix g
  have old: "admissible ((view t (base S))\<lparr>os_rng := g\<rparr>) (call_of d)"
    "call_fits L ((view t (base S))\<lparr>os_rng := g\<rparr>) (call_of d)"
    using inv d0 unfolding conc_inv_def by metis+
  show "admissible ((view t (base S'))\<lparr>os_rng := g\<rparr>) (call_of d)"
    by (rule admissible_untouched [OF _ old(1)]) (simp add: here)
  show "call_fits L ((view t (base S'))\<lparr>os_rng := g\<rparr>) (call_of d)"
    using old(2) by (cases "call_of d") simp_all
next
  fix t c e assume d: "flight S' t = Some (Loaded c e)"
  show "\<exists>g. e = ffi_spec L c ((view t (base S'))\<lparr>os_rng := g\<rparr>)"
  proof (cases "flight S t = Some (Loaded c e)")
    case True
    then obtain g where e: "e = ffi_spec L c ((view t (base S))\<lparr>os_rng := g\<rparr>)"
      using inv unfolding conc_inv_def by blast
    have "admissible ((view t (base S))\<lparr>os_rng := g\<rparr>) c" using inv True unfolding conc_inv_def by (metis call_of.simps(2))
    then have "ffi_spec L c ((view t (base S'))\<lparr>os_rng := g\<rparr>) = ffi_spec L c ((view t (base S))\<lparr>os_rng := g\<rparr>)"
      using kept [OF d] by (intro spec_untouched) simp_all
    then show ?thesis using e by metis
  next
    case False
    then show ?thesis using kept [OF d] by auto
  qed
qed

lemma conc_inv_call:
  assumes "conc_inv L S" and "flight S t = Some d"
  shows "\<not> raced t (call_of d) S" and "admissible ((view t (base S))\<lparr>os_rng := g\<rparr>) (call_of d)"
    and "call_fits L ((view t (base S))\<lparr>os_rng := g\<rparr>) (call_of d)"
    and "ffi_inv L ((view t (base S))\<lparr>os_rng := g\<rparr>)"
  using assms by (auto simp: conc_inv_def threads_inv_def ffi_inv_def)

lemma view_self: "(view t ts)\<lparr>os_rng := os_rng (shared ts)\<rparr> = view t ts"
  by (simp add: view_def)

text \<open>What a call of one thread writes at its end touches no other call in flight.\<close>

lemma store_untouched:
  assumes L: "lib_laws L" and inv: "ffi_inv L st" and c: "admissible st c"
    and d: "admissible st d" and nr: "\<not> races st c d" and e: "e = ffi_spec L c st'"
    and r: "realise L e st = (r, st2)"
  shows "untouched d st st2"
proof -
  have eff: "effect_frees e \<subseteq> frees c" "effect_slots e \<subseteq> out_arrays c" using spec_effects unfolding e by blast+
  have fin: "finite (dom (heap st))" and null: "heap st NULL = None" using inv by (simp_all add: ffi_inv_def)
  note frame = realise_frame [OF L fin, of e, unfolded r prod.case]
  have "heap st2 p = heap st p" if "p \<in> handles_used st d" for p
  proof -
    have "p \<notin> effect_frees e" using that nr eff(1) by (auto simp: races_def)
    moreover have "heap st p \<noteq> None"
      using that d
      by (cases d) (auto simp: handles_used_def handles_behind_def handle_def live_def handles_ok_def split: if_splits option.splits)
    ultimately show ?thesis using frame by blast
  qed
  moreover have "c_slots st2 a = c_slots st a" if "a \<in> out_arrays d" for a
    using frame that nr eff(2) by (auto simp: races_def)
  ultimately show ?thesis using frame by (simp add: untouched_def)
qed

lemma call_fits_rng:
  assumes "\<And>g. random_scalar (core L) g \<noteq> None" and "call_fits L st c"
  shows "call_fits L (st\<lparr>os_rng := g\<rparr>) c"
  using assms by (cases c) simp_all

lemma enter_keeps:
  assumes gen: "\<And>g. random_scalar (core L) g \<noteq> None" and inv: "conc_inv L S" and p: "permitted L t (Enter c) S"
  shows "conc_inv L (S\<lparr>flight := (flight S)(t \<mapsto> Entered c)\<rparr>)" (is "conc_inv L ?S")
proof -
  have adm: "admissible ((view t (base S))\<lparr>os_rng := g\<rparr>) c" for g
    by (rule admissible_untouched [of _ "view t (base S)"]) (use p in simp_all)
  have no: "\<not> raced u (call_of d) ?S" if "flight ?S u = Some d" for u d
  proof
    assume "raced u (call_of d) ?S"
    then obtain v e where v: "v \<noteq> u" "flight ?S v = Some e" "races (shared (base S)) (call_of d) (call_of e)"
      by (auto simp: raced_def)
    show False
    proof (cases "u = t \<or> v = t")
      case True
      then have "raced t c S" using v that by (auto simp: raced_def races_sym split: if_splits)
      then show False using p by simp
    next
      case False
      then show False using v that conc_inv_call(1) [OF inv, of u d] by (auto simp: raced_def)
    qed
  qed
  have fits: "call_fits L ((view t (base S))\<lparr>os_rng := g\<rparr>) c" for g
    using call_fits_rng [OF gen] p by simp
  show ?thesis
    unfolding conc_inv_def
  proof (intro conjI allI impI)
    show "threads_inv L (base ?S)" using inv by (simp add: conc_inv_def)
  next
    fix u d g assume d: "flight ?S u = Some d"
    show "\<not> raced u (call_of d) ?S" by (rule no [OF d])
    show "admissible ((view u (base ?S))\<lparr>os_rng := g\<rparr>) (call_of d)"
      using d adm conc_inv_call(2) [OF inv, of u d] by (auto split: if_splits)
    show "call_fits L ((view u (base ?S))\<lparr>os_rng := g\<rparr>) (call_of d)"
      using d fits conc_inv_call(3) [OF inv, of u d] by (auto split: if_splits)
  next
    fix u d e assume "flight ?S u = Some (Loaded d e)"
    then show "\<exists>g. e = ffi_spec L d ((view u (base ?S))\<lparr>os_rng := g\<rparr>)"
      using inv by (auto simp: conc_inv_def split: if_splits)
  qed
qed

text \<open>Loading: the code runs on the memory as it is, and its answer is the specification's.\<close>

lemma load_runs:
  assumes L: "lib_laws L" and inv: "conc_inv L S" and c: "flight S t = Some d"
  shows "ffi_exec L (call_of d) (view t (base S)) =
    Returns (realise L (ffi_spec L (call_of d) (view t (base S))) (view t (base S)))"
  using exec_refines [OF L] conc_inv_call(2-4) [OF inv c, of "os_rng (shared (base S))"] by (simp add: view_self)

lemma frees_live:
  assumes "admissible st c" and "p \<in> frees c"
  shows "heap st p \<noteq> None"
  using assms by (cases c) (auto simp: handle_def live_def)

lemma load_keeps:
  assumes L: "lib_laws L" and inv: "conc_inv L S" and c: "flight S t = Some (Entered c)"
  shows "\<exists>S'. conc_exec L t Load S = Returns (None, S') \<and> conc_inv L S' \<and>
    thread_error (base S') = thread_error (base S)"
proof -
  let ?st = "view t (base S)"
  obtain r st where run: "ffi_exec L c ?st = Returns (r, st)" using load_runs [OF L inv c] by (metis call_of.simps(1) surj_pair)
  let ?S = "S\<lparr>base := (base S)\<lparr>shared := (shared (base S))\<lparr>os_rng := os_rng st\<rparr>\<rparr>,
    flight := (flight S)(t \<mapsto> Loaded c (ffi_spec L c ?st))\<rparr>"
  have exec: "conc_exec L t Load S = Returns (None, ?S)"
    using run c by simp
  have view: "(view u (base ?S))\<lparr>os_rng := os_rng (shared (base S))\<rparr> = view u (base S)" for u by (simp add: view_def)
  have "threads_inv L (base ?S)"
    using inv by (simp add: conc_inv_def threads_inv_def ffi_inv_def)
  then have "conc_inv L ?S"
  proof (rule conc_inv_keeps [OF inv])
    fix u d assume d: "flight ?S u = Some d"
    have "\<exists>d0. flight S u = Some d0 \<and> call_of d0 = call_of d \<and>
        (d = d0 \<or> (\<exists>g. d = Loaded (call_of d) (ffi_spec L (call_of d) ((view u (base ?S))\<lparr>os_rng := g\<rparr>))))"
    proof (cases "u = t")
      case True
      then have "d = Loaded (call_of d) (ffi_spec L (call_of d) ((view u (base ?S))\<lparr>os_rng := os_rng (shared (base S))\<rparr>))"
        using d by (simp only: view) auto
      then show ?thesis using True c d by auto
    qed (use d in simp)
    then show "(\<exists>d0. flight S u = Some d0 \<and> call_of d0 = call_of d \<and>
        (d = d0 \<or> (\<exists>g. d = Loaded (call_of d) (ffi_spec L (call_of d) ((view u (base ?S))\<lparr>os_rng := g\<rparr>))))) \<and>
      untouched (call_of d) (shared (base S)) (shared (base ?S)) \<and> thread_error (base ?S) u = thread_error (base S) u"
      by simp
  qed
  with exec show ?thesis by (intro exI [of _ ?S]) simp
qed

text \<open>Storing: the result is that of the code run in one piece on the memory of this moment, with
  the randomness the call has drawn.\<close>

lemma store_keeps:
  assumes L: "lib_laws L" and inv: "conc_inv L S" and c: "flight S t = Some (Loaded c e)"
  shows "\<exists>r st g S'. conc_exec L t Store S = Returns (Some r, S') \<and> conc_inv L S' \<and>
    (\<forall>u. u \<noteq> t \<longrightarrow> thread_error (base S') u = thread_error (base S) u) \<and>
    ffi_exec L c ((view t (base S))\<lparr>os_rng := g\<rparr>) = Returns (r, st) \<and>
    view t (base S') = st\<lparr>os_rng := os_rng (shared (base S))\<rparr>"
proof -
  let ?st = "view t (base S)"
  obtain g where e: "e = ffi_spec L c (?st\<lparr>os_rng := g\<rparr>)" using inv c unfolding conc_inv_def by blast
  obtain r st where r: "realise L e ?st = (r, st)" by fastforce
  note call = conc_inv_call [OF inv c, unfolded call_of.simps]
  have run: "ffi_exec L c (?st\<lparr>os_rng := g\<rparr>) = Returns (r, st\<lparr>os_rng := drawn e g\<rparr>)"
    using exec_refines [OF L call(4,2,3)] realise_rng [where L = L and e = e and st = ?st and g = g] r by (simp add: e)
  then have st: "ffi_inv L st"
    using call_runs [OF L call(4,2,3), where g1 = g] run by (simp add: call_post_def ffi_inv_def)
  let ?base = "update_view t (st\<lparr>os_rng := os_rng (shared (base S))\<rparr>) (base S)"
  let ?S = "S\<lparr>base := ?base, flight := (flight S)(t := None)\<rparr>"
  have here: "ffi_inv L ?st" and adm: "admissible ?st c"
    using call(2,4) [of "os_rng (shared (base S))"] by (simp_all add: view_self)
  have "\<not> out_raced t c S" using call(1) by (auto simp: raced_def out_raced_def races_def)
  moreover have "heap (shared (base S)) p \<noteq> None" if "p \<in> effect_frees e" for p
    using frees_live [OF adm, of p] that spec_effects [of L c] unfolding e by (auto dest: subsetD)
  ultimately have exec: "conc_exec L t Store S = Returns (Some r, ?S)" using c r by auto
  have "ffi_inv L (view u ?base)" for u
    using inv_other_error [OF st, of "view u (base S)"] inv st
    by (simp add: view_update conc_inv_def threads_inv_def) (simp add: ffi_inv_def)
  then have "threads_inv L (base ?S)" by (simp add: threads_inv_def)
  then have "conc_inv L ?S"
  proof (rule conc_inv_keeps [OF inv])
    fix u d assume d: "flight ?S u = Some d"
    then have u: "u \<noteq> t" "flight S u = Some d" by (auto split: if_splits)
    have "admissible ?st (call_of d)"
      using admissible_untouched [OF _ conc_inv_call(2) [OF inv u(2), of "os_rng (shared (base S))"],
          of "?st\<lparr>os_rng := os_rng (shared (base S))\<rparr>"] by (simp add: view_self)
    moreover have "\<not> races ?st c (call_of d)" using call(1) u unfolding raced_def races_def by simp blast
    ultimately have "untouched (call_of d) ?st st" by (intro store_untouched [OF L here adm _ _ e r])
    then show "(\<exists>d0. flight S u = Some d0 \<and> call_of d0 = call_of d \<and>
        (d = d0 \<or> (\<exists>g. d = Loaded (call_of d) (ffi_spec L (call_of d) ((view u (base ?S))\<lparr>os_rng := g\<rparr>))))) \<and>
      untouched (call_of d) (shared (base S)) (shared (base ?S)) \<and> thread_error (base ?S) u = thread_error (base S) u"
      using u by (simp add: update_view_def untouched_def)
  qed
  moreover have "view t ?base = (st\<lparr>os_rng := drawn e g\<rparr>)\<lparr>os_rng := os_rng (shared (base S))\<rparr>"
    by (simp add: view_update)
  ultimately show ?thesis
    using exec run by (intro exI [of _ r] exI [of _ "st\<lparr>os_rng := drawn e g\<rparr>"] exI [of _ g] exI [of _ ?S])
      (simp add: update_view_def)
qed

lemma caller_keeps:
  assumes inv: "conc_inv L S" and p: "permitted L t (Caller b h s) S"
  shows "\<exists>S'. conc_exec L t (Caller b h s) S = Returns (None, S') \<and> conc_inv L S' \<and>
    thread_error (base S') = thread_error (base S)"
proof -
  let ?S = "S\<lparr>base := (base S)\<lparr>shared := rewritten b h s (shared (base S))\<rparr>\<rparr>"
  have "threads_inv L (base ?S)"
    using inv by (simp add: conc_inv_def threads_inv_def ffi_inv_def rewritten_def)
  then have "conc_inv L ?S" by (rule conc_inv_keeps [OF inv]) (use p in auto)
  moreover have "conc_exec L t (Caller b h s) S = Returns (None, ?S)" using p by auto
  ultimately show ?thesis by (intro exI [of _ ?S]) simp
qed

text \<open>Every permitted event returns and keeps the invariant.\<close>

lemma event_runs:
  assumes L: "lib_laws L" and gen: "\<And>g. random_scalar (core L) g \<noteq> None"
    and inv: "conc_inv L S" and p: "permitted L t ev S"
  shows "\<exists>r S'. conc_exec L t ev S = Returns (r, S') \<and> conc_inv L S' \<and>
    (\<forall>u. u \<noteq> t \<longrightarrow> thread_error (base S') u = thread_error (base S) u)"
proof (cases ev)
  case (Enter c)
  then show ?thesis using enter_keeps [OF gen inv] p by simp
next
  case Load
  then show ?thesis using load_keeps [OF L inv] p by fastforce
next
  case Touch
  then obtain d where d: "flight S t = Some d" using p by auto
  then show ?thesis using load_runs [OF L inv d] inv Touch by simp
next
  case Store
  then show ?thesis using store_keeps [OF L inv] p by fastforce
next
  case (Caller b h s)
  then show ?thesis using caller_keeps [OF inv] p by (metis)
qed

lemma conc_run_inv:
  assumes L: "lib_laws L" and gen: "\<And>g. random_scalar (core L) g \<noteq> None" and run: "conc_run L S"
  shows "conc_inv L S"
  using run
proof (induction rule: conc_run.induct)
  case (conc_start S)
  then show ?case by (simp add: conc_inv_def start_inv)
next
  case (conc_step S t ev r S')
  then show ?case using event_runs [OF L gen] by fastforce
qed

section \<open>No interleaving goes wrong\<close>

text \<open>C20: No interleaving corrupts the library. From an empty heap let any number of threads enter
  calls, read, write and return in any order, with calls of other threads at every point in
  between, destructors included, as long as each thread keeps the \<open># Safety\<close> sections and the README's
  rule: it enters no call that would destroy a handle, or share an out array, in use by a call in
  flight. Then each object behind a handle is valid; no two calls in flight race; every
  further permitted event returns, without undefined behaviour, abort or loop, and touches no other
  thread's error; and a call that has been under way while others ran ends with the result, the
  objects and the out slots of the same call run in one piece at that moment, with the randomness it
  has drawn. The generator is assumed to yield a non-zero scalar, and a debug build to be given batches
  of at most 65536 elements.\<close>

theorem threads_safe:
  assumes L: "lib_laws L" and gen: "\<forall>g. random_scalar (core L) g \<noteq> None" and run: "conc_run L S"
  shows "(\<forall>p x. heap (shared (base S)) p = Some x \<longrightarrow> p \<noteq> NULL \<and> valid_obj (core L) x) \<and>
    (\<forall>t d. flight S t = Some d \<longrightarrow> \<not> raced t (call_of d) S) \<and>
    (\<forall>t ev. permitted L t ev S \<longrightarrow>
       (\<exists>r S'. conc_exec L t ev S = Returns (r, S') \<and> conc_run L S' \<and>
          (\<forall>u. u \<noteq> t \<longrightarrow> thread_error (base S') u = thread_error (base S) u))) \<and>
    (\<forall>t c e. flight S t = Some (Loaded c e) \<longrightarrow>
       (\<exists>r st g S'. conc_exec L t Store S = Returns (Some r, S') \<and>
          ffi_exec L c ((view t (base S))\<lparr>os_rng := g\<rparr>) = Returns (r, st) \<and>
          view t (base S') = st\<lparr>os_rng := os_rng (shared (base S))\<rparr>))"
proof (intro conjI allI impI)
  have inv: "conc_inv L S" using conc_run_inv [OF L _ run] gen by blast
  then have view: "ffi_inv L (view 0 (base S))" by (simp add: conc_inv_def threads_inv_def)
  show "valid_obj (core L) x" "p \<noteq> NULL" if "heap (shared (base S)) p = Some x" for p x
    using inv_valid [OF view, of p x] view that by (simp, cases "p = NULL", simp_all add: ffi_inv_def)
  show "\<not> raced t (call_of d) S" if "flight S t = Some d" for t d by (rule conc_inv_call(1) [OF inv that])
  show "\<exists>r S'. conc_exec L t ev S = Returns (r, S') \<and> conc_run L S' \<and>
      (\<forall>u. u \<noteq> t \<longrightarrow> thread_error (base S') u = thread_error (base S) u)" if p: "permitted L t ev S" for t ev
    using event_runs [OF L _ inv p] gen conc_run.conc_step [OF run p] by blast
  show "\<exists>r st g S'. conc_exec L t Store S = Returns (Some r, S') \<and>
      ffi_exec L c ((view t (base S))\<lparr>os_rng := g\<rparr>) = Returns (r, st) \<and>
      view t (base S') = st\<lparr>os_rng := os_rng (shared (base S))\<rparr>" if "flight S t = Some (Loaded c e)" for t c e
    using store_keeps [OF L inv that] by blast
qed

definition conc3 :: "(tri, tri, tri, bytes, nat) conc" where
  "conc3 = \<lparr>base = threads3, flight = (\<lambda>_. None)\<rparr>"

lemma generator3: "random_scalar E3 g \<noteq> None"
  by (subst toy_random_scalar) (simp add: mod_Suc)

text \<open>Thread 2 is making a table while thread 1 enters another call.\<close>

theorem threads_safe_witness:
  "\<exists>r S S'. flight S 1 = Some (Entered (Call_public_key_encode_base64 NULL)) \<and>
    conc_exec lib3 2 Load S = Returns (r, S') \<and> conc_run lib3 S'"
proof -
  let ?c = "Call_input_table_new 40 1" and ?d = "Call_public_key_encode_base64 NULL"
  let ?S1 = "conc3\<lparr>flight := [2 \<mapsto> Entered ?c]\<rparr>"
  let ?S = "conc3\<lparr>flight := [2 \<mapsto> Entered ?c, 1 \<mapsto> Entered ?d]\<rparr>"
  have start: "conc_run lib3 conc3" by (rule conc_run.conc_start) (simp_all add: conc3_def threads3_start)
  have "conc_run lib3 ?S1"
    by (rule conc_run.conc_step [OF start, of 2 "Enter ?c" None])
      (simp_all add: conc3_def raced_def readable_def threads3_def)
  then have run: "conc_run lib3 ?S"
    by (rule conc_run.conc_step [of _ _ 1 "Enter ?d" None])
      (auto simp: conc3_def raced_def races_def handle_def threads3_def)
  have "permitted lib3 2 Load ?S" by (simp add: conc3_def)
  then obtain r S' where "conc_exec lib3 2 Load ?S = Returns (r, S')" "conc_run lib3 S'"
    using threads_safe [OF lib3_laws _ run, THEN conjunct2, THEN conjunct2, THEN conjunct1] generator3 by (metis lib3_core)
  moreover have "flight ?S 1 = Some (Entered ?d)" by simp
  ultimately show ?thesis by blast
qed

section \<open>The rule of the README is needed\<close>






end
