(* ===== verification/Wipe.thy ===== *)
theory Wipe
  imports Poprf_Client Poprf_Server
begin

text \<open>
  Zeroisation: what \<open>#[derive(Zeroize, ZeroizeOnDrop)]\<close> makes of the four types that carry it.
  \<open>zeroize\<close> overwrites every field in place, and \<open>Drop::drop\<close> calls it, so that it also says what
  a value leaves in its memory. The interface \<open>zeroizing\<close> is the promise: the value left is a
  value of the type and the same for every secret.
\<close>

section \<open>The derived implementations\<close>

definition SecretKey_zeroize :: "('s, 'p, 't, 'h, 'r) env \<Rightarrow> 's SecretKey \<Rightarrow> 's SecretKey" where
  "SecretKey_zeroize E sk = SecretKey (Scalar_zeroize E (secret_scalar sk))"

text \<open>A byte array is zeroised byte by byte.\<close>

definition PoprfOutput_zeroize :: "PoprfOutput \<Rightarrow> PoprfOutput" where
  "PoprfOutput_zeroize out = PoprfOutput (map (\<lambda>_. 0) (output_bytes out))"

definition PoprfBlindState_zeroize ::
  "('s, 'p, 't, 'h, 'r) env \<Rightarrow> ('s, 'p) PoprfBlindState \<Rightarrow> ('s, 'p) PoprfBlindState" where
  "PoprfBlindState_zeroize E st =
     \<lparr>bs_blind = Scalar_zeroize E (bs_blind st), bs_tweaked_key = Point_zeroize E (bs_tweaked_key st)\<rparr>"

definition PoprfServer_zeroize :: "('s, 'p, 't, 'h, 'r) env \<Rightarrow> 's PoprfServer \<Rightarrow> 's PoprfServer" where
  "PoprfServer_zeroize E srv = srv\<lparr>server_sk := SecretKey_zeroize E (server_sk srv)\<rparr>"

section \<open>The interface\<close>

locale zeroizing =
  fixes ok :: "'e \<Rightarrow> bool"
    and shaped :: "'a \<Rightarrow> bool"
    and zeroize :: "'e \<Rightarrow> 'a \<Rightarrow> 'a"
  assumes forgets: "ok e \<Longrightarrow> shaped x \<Longrightarrow> shaped y \<Longrightarrow> zeroize e x = zeroize e y"
    and keeps_shape: "ok e \<Longrightarrow> shaped x \<Longrightarrow> shaped (zeroize e x)"
begin

text \<open>An explicit \<open>zeroize\<close> before the drop leaves the same as the drop alone.\<close>

lemma idem: "ok e \<Longrightarrow> shaped x \<Longrightarrow> zeroize e (zeroize e x) = zeroize e x"
  using forgets keeps_shape by blast

text \<open>A function of what is left gives nothing away, however it reads the memory.\<close>

lemma no_leak: "ok e \<Longrightarrow> shaped x \<Longrightarrow> shaped y \<Longrightarrow> f (zeroize e x) = f (zeroize e y)"
  using forgets by metis

end

interpretation sk_wipe: zeroizing zeroize_laws "\<lambda>_. True" SecretKey_zeroize
  by unfold_locales (simp_all add: SecretKey_zeroize_def zeroize_laws_def)

interpretation out_wipe: zeroizing "\<lambda>_. True" "\<lambda>out. length (output_bytes out) = HASH_LEN" "\<lambda>_. PoprfOutput_zeroize"
  by unfold_locales (simp_all add: PoprfOutput_zeroize_def map_replicate_const)

interpretation state_wipe: zeroizing zeroize_laws "\<lambda>_. True" PoprfBlindState_zeroize
  by unfold_locales (simp_all add: PoprfBlindState_zeroize_def zeroize_laws_def)

interpretation srv_wipe: zeroizing zeroize_laws "\<lambda>_. True" PoprfServer_zeroize
  by unfold_locales (simp_all add: PoprfServer_zeroize_def SecretKey_zeroize_def zeroize_laws_def)

text \<open>A wiped key or blind is none the decoders and the operations would accept.\<close>

lemma wiped_secret: "zeroize_laws E \<Longrightarrow> SecretKey_zeroize E sk = SecretKey (Scalar_ZERO E)"
  by (simp add: SecretKey_zeroize_def zeroize_laws_def)

lemma wiped_output:
  "length (output_bytes out) = 64 \<Longrightarrow> PoprfOutput_zeroize out = PoprfOutput (replicate 64 0)"
  by (simp add: PoprfOutput_zeroize_def map_replicate_const)

end
