(* ===== verification/Ffi_Wipe.thy ===== *)
theory Ffi_Wipe
  imports Ffi_Properties Ffi_Client Wipe
begin

text \<open>
  The memory that calls give back to the allocator. A destroy function runs the destructor of the
  object and frees its block; a call also frees the buffers it has allocated for itself. Until the
  allocator hands a block out again, it holds what was left in it.
\<close>

section \<open>Destructors\<close>

text \<open>
  Keys and outputs are \<open>ZeroizeOnDrop\<close>. \<open>CString\<close> overwrites the first byte of its buffer; the
  other objects have no destructor of their own.
\<close>

fun drop_glue :: "('s, 'p, 't, 'h, 'r) env \<Rightarrow> ('s, 'p, 't, 'h) obj \<Rightarrow> ('s, 'p, 't, 'h) obj" where
  "drop_glue E (SecretKeyObj sk) = SecretKeyObj (SecretKey_zeroize E sk)"
| "drop_glue E (OutputObj out) = OutputObj (PoprfOutput_zeroize out)"
| "drop_glue E (CStringObj s) = CStringObj (s[0 := 0])"
| "drop_glue E x = x"

section \<open>Buffers\<close>

text \<open>
  The \<open>Vec\<close>s with bytes of keys, seeds, elements or outputs that a call allocates and frees itself, none
  of them wiped: the bytes decoded from base64, the outputs of \<open>evaluate_tables\<close> before they are moved into boxes,
  and \<open>derive_input\<close> of \<open>key.rs\<close>. The flag says whether the buffer is still allocated when the
  call boxes its results, so that no box can take its place.
\<close>

definition decode_buffer :: "('s, 'p, 't, 'h, 'r) lib \<Rightarrow> ('s, 'p, 't, 'h, 'r) ffi \<Rightarrow> addr \<Rightarrow> nat \<Rightarrow> (bytes \<times> bool) list" where
  "decode_buffer L st s_ptr s_len =
     (case bytes_from_raw st s_ptr s_len of
        Returns (Some s) \<Rightarrow> (case B64_decode L s of Inr bytes \<Rightarrow> [(bytes, True)] | Inl e \<Rightarrow> [])
      | _ \<Rightarrow> [])"

definition outputs_buffer :: "('s, 'p, 't, 'h, 'r) effect \<Rightarrow> (bytes \<times> bool) list" where
  "outputs_buffer e =
     (case e of
        Fill out (Inr outputs) \<Rightarrow> [(concat (map (\<lambda>x. output_bytes (the (as_output x))) outputs), True)]
      | _ \<Rightarrow> [])"

definition derive_input :: "bytes \<Rightarrow> bytes \<Rightarrow> bytes" where
  "derive_input seed info = seed @ be16 (length info) @ info"

definition seed_buffer :: "('s, 'p, 't, 'h, 'r) ffi \<Rightarrow> addr \<Rightarrow> nat \<Rightarrow> addr \<Rightarrow> nat \<Rightarrow> (bytes \<times> bool) list" where
  "seed_buffer st seed_ptr seed_len info_ptr info_len =
     (case (bytes_from_raw st seed_ptr seed_len, bytes_from_raw st info_ptr info_len) of
        (Returns (Some seed), Returns (Some info)) \<Rightarrow>
          if length seed = 32 \<and> length info \<le> 65534 then [(derive_input seed info, False)] else []
      | _ \<Rightarrow> [])"

fun released :: "('s, 'p, 't, 'h, 'r) lib \<Rightarrow> ffi_call \<Rightarrow> ('s, 'p, 't, 'h, 'r) ffi \<Rightarrow> (bytes \<times> bool) list" where
  "released L (Call_secret_key_from_seed s sl i il) st = seed_buffer st s sl i il"
| "released L (Call_secret_key_decode_base64 s sl) st = decode_buffer L st s sl"
| "released L (Call_blinded_element_decode_base64 s sl) st = decode_buffer L st s sl"
| "released L (Call_output_eq_base64 p s sl) st = (if p = NULL then [] else decode_buffer L st s sl)"
| "released L (Call_evaluate_tables sk arr n i il out) st =
     outputs_buffer (ffi_spec L (Call_evaluate_tables sk arr n i il out) st)"
| "released L _ st = []"

section \<open>The free memory of a session\<close>

datatype ('s, 'p, 't, 'h) leftover = Left_obj "('s, 'p, 't, 'h) obj" | Left_bytes bytes

text \<open>The free blocks after a step: the new free ones as their destructors left them, and the
  buffers at \<open>qs\<close>.\<close>

definition blocks_after :: "('s, 'p, 't, 'h, 'r) env \<Rightarrow> ('s, 'p, 't, 'h, 'r) ffi \<Rightarrow> ('s, 'p, 't, 'h, 'r) ffi \<Rightarrow>
    (addr \<times> bytes) list \<Rightarrow> (addr \<Rightarrow> ('s, 'p, 't, 'h) leftover option) \<Rightarrow> addr \<Rightarrow> ('s, 'p, 't, 'h) leftover option" where
  "blocks_after E st st' bufs freed p =
     (case (heap st' p, heap st p) of
        (Some _, _) \<Rightarrow> None
      | (None, Some x) \<Rightarrow> Some (Left_obj (drop_glue E x))
      | (None, None) \<Rightarrow> (case map_of bufs p of Some b \<Rightarrow> Some (Left_bytes b) | None \<Rightarrow> freed p))"

text \<open>A call, with the addresses the allocator gives its buffers: not one of a live object, and
  not one of a new object that was allocated beside the buffer.\<close>

inductive wipe_step :: "('s, 'p, 't, 'h, 'r) lib \<Rightarrow> ffi_call \<Rightarrow>
    ('s, 'p, 't, 'h, 'r) ffi \<times> (addr \<Rightarrow> ('s, 'p, 't, 'h) leftover option) \<Rightarrow> ffi_ret \<Rightarrow>
    ('s, 'p, 't, 'h, 'r) ffi \<times> (addr \<Rightarrow> ('s, 'p, 't, 'h) leftover option) \<Rightarrow> bool" for L where
  wipe_call: "admissible st c \<Longrightarrow> call_fits L st c \<Longrightarrow> ffi_exec L c st = Returns (r, st') \<Longrightarrow>
    length qs = length (released L c st) \<Longrightarrow> fresh qs (heap st) \<Longrightarrow>
    \<forall>(q, b, held) \<in> set (zip qs (released L c st)). held \<longrightarrow> heap st' q = None \<Longrightarrow>
    wipe_step L c (st, freed) r (st', blocks_after (core L) st st' (zip qs (map fst (released L c st))) freed)"

inductive_cases wipe_stepE: "wipe_step L c (st, freed) r (st', freed')"


section \<open>The invariant\<close>








text \<open>The text of a key stays as well: after \<open>poprf_secret_key_encode_base64\<close> and
  \<open>poprf_c_char_destroy\<close> on its result, the free block holds all of the text but its first byte.\<close>

lemma freed_text:
  assumes "wipe_step L (Call_c_char_destroy q) (st, freed) r (st', freed')"
    and cs: "q \<noteq> NULL" "heap st q = Some (CStringObj s)"
  shows "freed' q = Some (Left_obj (CStringObj (s[0 := 0])))"
proof -
  let ?c = "Call_c_char_destroy q"
  from assms(1) obtain qs where ok: "ffi_exec L ?c st = Returns (r, st')"
    and freed': "freed' = blocks_after (core L) st st' (zip qs (map fst (released L ?c st))) freed"
    by (rule wipe_stepE) blast
  have "heap st' = (heap st)(q := None)"
    using ok cs by (auto simp: poprf_c_char_destroy_def drop_raw_def deref_def omap_def)
  then show ?thesis using cs by (auto simp: freed' blocks_after_def)
qed

section \<open>Properties\<close>



end
