(* ===== verification/C_Server.thy ===== *)
theory C_Server
  imports Ffi_Refinement
begin

text \<open>
  A server written in C against the ABI: the program of the README of \<open>poprf-ristretto-ffi\<close>
  (steps 2 to 5), for a batch of any size. It decodes the texts it received, evaluates them, encodes the
  results and destroys every handle. It is the client that the contract of the ABI is for: the
  lemmas show that it runs without error, leaves the heap as it found it, and what it sends.
\<close>

section \<open>The program\<close>

text \<open>\<open>None\<close> is the jump to the error label.\<close>

type_synonym ('a, 's, 'p, 't, 'h, 'r) c_result = "('a option \<times> ('s, 'p, 't, 'h, 'r) ffi) outcome"

text \<open>Its memory: the text at 1 and \<open>info\<close> at 2; the handles of the batch at 1; the two out arrays at 1
  and 2.\<close>

fun c_decode :: "('s, 'p, 't, 'h, 'r) lib \<Rightarrow> bytes list \<Rightarrow> ('s, 'p, 't, 'h, 'r) ffi \<Rightarrow>
    (addr list, 's, 'p, 't, 'h, 'r) c_result" where
  "c_decode L [] st = Returns (Some [], st)"
| "c_decode L (t # ts) st =
     obind (poprf_blinded_element_decode_base64 L 1 (length t) (st\<lparr>c_bytes := (c_bytes st)(1 \<mapsto> t)\<rparr>)) (\<lambda>(p, st).
     if p = NULL then Returns (None, st)
     else obind (c_decode L ts st) (\<lambda>(ps, st). Returns (map_option ((#) p) ps, st)))"

text \<open>Encode, send, destroy the string.\<close>

definition c_take :: "(addr \<Rightarrow> ('s, 'p, 't, 'h, 'r) ffi \<Rightarrow> (addr \<times> ('s, 'p, 't, 'h, 'r) ffi) outcome) \<Rightarrow> addr \<Rightarrow>
    ('s, 'p, 't, 'h, 'r) ffi \<Rightarrow> (bytes, 's, 'p, 't, 'h, 'r) c_result" where
  "c_take encode p st =
     obind (encode p st) (\<lambda>(q, st).
     if q = NULL then Returns (None, st)
     else obind (deref as_cstring q st) (\<lambda>s.
       obind (poprf_c_char_destroy q st) (\<lambda>(_, st). Returns (Some s, st))))"

fun c_take_all :: "(addr \<Rightarrow> ('s, 'p, 't, 'h, 'r) ffi \<Rightarrow> (addr \<times> ('s, 'p, 't, 'h, 'r) ffi) outcome) \<Rightarrow> addr list \<Rightarrow>
    ('s, 'p, 't, 'h, 'r) ffi \<Rightarrow> (bytes list, 's, 'p, 't, 'h, 'r) c_result" where
  "c_take_all encode [] st = Returns (Some [], st)"
| "c_take_all encode (p # ps) st =
     obind (c_take encode p st) (\<lambda>(t, st).
     case t of
       None \<Rightarrow> Returns (None, st)
     | Some t \<Rightarrow> obind (c_take_all encode ps st) (\<lambda>(ts, st). Returns (map_option ((#) t) ts, st)))"

fun c_destroy_all :: "(addr \<Rightarrow> ('s, 'p, 't, 'h, 'r) ffi \<Rightarrow> (unit \<times> ('s, 'p, 't, 'h, 'r) ffi) outcome) \<Rightarrow>
    addr list \<Rightarrow> ('s, 'p, 't, 'h, 'r) ffi \<Rightarrow> (unit \<times> ('s, 'p, 't, 'h, 'r) ffi) outcome" where
  "c_destroy_all destroy [] st = Returns ((), st)"
| "c_destroy_all destroy (p # ps) st = obind (destroy p st) (\<lambda>(_, st). c_destroy_all destroy ps st)"

definition c_slot_values :: "nat \<Rightarrow> addr \<Rightarrow> ('s, 'p, 't, 'h, 'r) ffi \<Rightarrow> addr list" where
  "c_slot_values n a st = (case c_slots st a of None \<Rightarrow> [] | Some slots \<Rightarrow> map the (take n slots))"

definition c_batch_memory :: "addr list \<Rightarrow> bytes \<Rightarrow> ('s, 'p, 't, 'h, 'r) ffi \<Rightarrow> ('s, 'p, 't, 'h, 'r) ffi" where
  "c_batch_memory ps info st = st\<lparr>c_bytes := (c_bytes st)(2 \<mapsto> info), c_handles := (c_handles st)(1 \<mapsto> ps),
     c_slots := (c_slots st)(1 \<mapsto> replicate (length ps) (Some NULL), 2 \<mapsto> [Some NULL])\<rparr>"

definition c_serve :: "('s, 'p, 't, 'h, 'r) lib \<Rightarrow> addr \<Rightarrow> bytes list \<Rightarrow> bytes \<Rightarrow> ('s, 'p, 't, 'h, 'r) ffi \<Rightarrow>
    (bytes list \<times> bytes list, 's, 'p, 't, 'h, 'r) c_result" where
  "c_serve L key texts info st =
     obind (c_decode L texts st) (\<lambda>(ps, st).
     case ps of
       None \<Rightarrow> Returns (None, st)
     | Some ps \<Rightarrow>
         let n = length ps; st = c_batch_memory ps info st in
         obind (poprf_blind_evaluate_batch L key 1 n 2 (length info) 1 2 st) (\<lambda>(rc, st).
         if rc \<noteq> 0 then Returns (None, st)
         else
           let evs = c_slot_values n 1 st; pfs = c_slot_values 1 2 st in
           obind (c_take_all (poprf_evaluated_element_encode_base64 L) evs st) (\<lambda>(es, st).
           obind (c_take_all (poprf_proof_encode_base64 L) pfs st) (\<lambda>(pts, st).
           obind (c_destroy_all poprf_proof_destroy pfs st) (\<lambda>(_, st).
           obind (c_destroy_all poprf_evaluated_element_destroy evs st) (\<lambda>(_, st).
           obind (c_destroy_all poprf_blinded_element_destroy ps st) (\<lambda>(_, st).
           Returns (Option.bind es (\<lambda>es. map_option (Pair es) pts), st))))))))"

section \<open>Its steps\<close>

lemma not_null: "ffi_inv L st \<Longrightarrow> heap st p = Some x \<Longrightarrow> p \<noteq> NULL"
  by (cases "p = NULL") (auto simp: ffi_inv_def)

lemma inv_caller: "ffi_inv L (st\<lparr>c_bytes := b\<rparr>) \<longleftrightarrow> ffi_inv L st" "ffi_inv L (c_batch_memory ps info st) \<longleftrightarrow> ffi_inv L st"
  by (simp_all add: ffi_inv_def c_batch_memory_def)

lemma stored_Nil: "stored [] ps st st' \<longleftrightarrow> ps = [] \<and> heap st' = heap st"
  by (auto simp: stored_def fun_eq_iff)

lemma stored_Cons:
  assumes "p \<noteq> NULL" "heap st p = None" "heap st1 = (heap st)(p \<mapsto> x)" and "stored xs ps st1 st2"
  shows "stored (x # xs) (p # ps) st st2"
proof -
  have "p \<notin> set ps" using assms(3,4) by (auto simp: stored_def)
  then show ?thesis
    using assms by (auto simp: stored_def nth_Cons split: nat.splits if_splits)
qed

lemma decode_blinded_ok:
  assumes L: "lib_laws L" and inv: "ffi_inv L st" and mem: "c_bytes st 1 = Some t"
    and dec: "B64_decode L t = Inr (BlindedElement_to_bytes (core L) b)" "valid_blinded (core L) b"
  shows "\<exists>p st'. poprf_blinded_element_decode_base64 L 1 (length t) st = Returns (p, st') \<and> ffi_inv L st' \<and>
    p \<noteq> NULL \<and> heap st p = None \<and> heap st' = (heap st)(p \<mapsto> BlindedObj b) \<and> os_rng st' = os_rng st"
proof -
  obtain p st' where p: "into_raw L (BlindedObj b) (clear_error st) = (p, st')" by fastforce
  have "bytes_from_raw (clear_error st) 1 (length t) = Returns (Some t)"
    using mem by (simp add: bytes_from_raw_def clear_error_def)
  moreover have "BlindedElement_from_bytes (core L) (BlindedElement_to_bytes (core L) b) = Inr b"
    using dec(2) be_codec.dec_enc env_lawsD(3) [OF core_laws [OF L]] by blast
  ultimately have ret: "poprf_blinded_element_decode_base64 L 1 (length t) st = Returns (p, st')"
    using dec(1) p by (simp add: poprf_blinded_element_decode_base64_def return_box_def Let_def)
  have post: "ptr_post L st (\<lambda>x. x = BlindedObj b) (p, st')"
    using ptr_box [OF L inv, of "BlindedObj b" "\<lambda>x. x = BlindedObj b"] dec(2) p by simp
  have "heap_wf L (clear_error st)" using L ffi_inv_clear [OF inv] by (simp add: heap_wf_def lib_laws_def ffi_inv_def)
  then have "p \<noteq> NULL" using hs.put_fresh [OF _ p] by blast
  with ret post show ?thesis by (auto simp: ptr_post_def)
qed

lemma c_decode_ok:
  assumes L: "lib_laws L"
  shows "ffi_inv L st \<Longrightarrow>
    list_all2 (\<lambda>t b. B64_decode L t = Inr (BlindedElement_to_bytes (core L) b) \<and> valid_blinded (core L) b) texts bls \<Longrightarrow>
    \<exists>ps st'. c_decode L texts st = Returns (Some ps, st') \<and> ffi_inv L st' \<and> stored (map BlindedObj bls) ps st st' \<and>
      os_rng st' = os_rng st"
proof (induction texts arbitrary: bls st)
  case Nil
  then show ?case by (simp add: stored_Nil)
next
  case (Cons t ts)
  then obtain b bs where bls: "bls = b # bs" and b: "B64_decode L t = Inr (BlindedElement_to_bytes (core L) b)"
    "valid_blinded (core L) b"
    and bs: "list_all2 (\<lambda>t b. B64_decode L t = Inr (BlindedElement_to_bytes (core L) b) \<and> valid_blinded (core L) b) ts bs"
    by (auto simp: list_all2_Cons1)
  let ?st = "st\<lparr>c_bytes := (c_bytes st)(1 \<mapsto> t)\<rparr>"
  obtain p st1 where p: "poprf_blinded_element_decode_base64 L 1 (length t) ?st = Returns (p, st1)" "ffi_inv L st1"
    "p \<noteq> NULL" "heap st p = None" "heap st1 = (heap st)(p \<mapsto> BlindedObj b)" "os_rng st1 = os_rng st"
    using decode_blinded_ok [OF L _ _ b, of ?st] Cons.prems(1) by (auto simp: inv_caller)
  obtain ps st2 where ps: "c_decode L ts st1 = Returns (Some ps, st2)" "ffi_inv L st2"
    "stored (map BlindedObj bs) ps st1 st2" "os_rng st2 = os_rng st1"
    using Cons.IH [OF p(2) bs] by blast
  have "stored (map BlindedObj bls) (p # ps) st st2"
    using stored_Cons [OF p(3-5) ps(3)] by (simp add: bls)
  then show ?case using p(1,3,6) ps(1,2,4) by (auto simp del: One_nat_def)
qed

text \<open>An encoder of the ABI for the objects that \<open>sel\<close> selects.\<close>

definition encoder :: "('s, 'p, 't, 'h, 'r) lib \<Rightarrow> (('s, 'p, 't, 'h) obj \<Rightarrow> 'a option) \<Rightarrow> ('a \<Rightarrow> bytes) \<Rightarrow>
    (addr \<Rightarrow> ('s, 'p, 't, 'h, 'r) ffi \<Rightarrow> (addr \<times> ('s, 'p, 't, 'h, 'r) ffi) outcome) \<Rightarrow> bool" where
  "encoder L sel to_bytes encode \<longleftrightarrow> (\<exists>msg. \<forall>p st. encode p st = (let st = clear_error st in
     if p = NULL then fail_with NULL msg st
     else obind (deref sel p st) (\<lambda>x. cstring_or_null L (to_bytes x) st)))"

lemma encoders:
  "encoder L as_evaluated (EvaluatedElement_to_bytes (core L)) (poprf_evaluated_element_encode_base64 L)"
  "encoder L as_proof (Proof_to_bytes (core L)) (poprf_proof_encode_base64 L)"
  by (auto simp: encoder_def poprf_evaluated_element_encode_base64_def poprf_proof_encode_base64_def)

lemma c_take_ok:
  assumes L: "lib_laws L" and inv: "ffi_inv L st" and enc: "encoder L sel to_bytes encode"
    and obj: "heap st p = Some y" "sel y = Some v"
  shows "\<exists>st'. c_take encode p st = Returns (Some (B64_encode L (to_bytes v)), st') \<and> ffi_inv L st' \<and> heap st' = heap st"
proof -
  let ?s = "B64_encode L (to_bytes v)"
  have no_nul: "0 \<notin> set ?s" using L by (simp add: lib_laws_def b64_laws_def)
  obtain q st1 where q: "into_raw L (CStringObj ?s) (clear_error st) = (q, st1)" by fastforce
  have "encode p st = Returns (q, st1)"
    using enc not_null [OF inv obj(1)] obj no_nul q
    by (auto simp: encoder_def Let_def cstring_or_null_def return_box_def deref_def)
  moreover have post: "ptr_post L st (\<lambda>x. x = CStringObj ?s) (q, st1)"
    using ptr_box [OF L inv, of "CStringObj ?s" "\<lambda>x. x = CStringObj ?s"] no_nul q by simp
  moreover have "heap_wf L (clear_error st)" using L ffi_inv_clear [OF inv] by (simp add: heap_wf_def lib_laws_def ffi_inv_def)
  then have "q \<noteq> NULL" using hs.put_fresh [OF _ q] by blast
  ultimately have "c_take encode p st = Returns (Some ?s, free_handle q st1)" "heap (free_handle q st1) = heap st" "ffi_inv L st1"
    by (simp_all add: c_take_def ptr_post_def deref_def poprf_c_char_destroy_def drop_raw_def free_handle_def fun_upd_idem)
  then show ?thesis using ffi_inv_free by blast
qed

lemma c_take_all_ok:
  assumes L: "lib_laws L" and enc: "encoder L sel to_bytes encode"
  shows "ffi_inv L st \<Longrightarrow> list_all2 (\<lambda>p v. \<exists>y. heap st p = Some y \<and> sel y = Some v) ps vs \<Longrightarrow>
    \<exists>st'. c_take_all encode ps st = Returns (Some (map (\<lambda>v. B64_encode L (to_bytes v)) vs), st') \<and>
      ffi_inv L st' \<and> heap st' = heap st"
proof (induction ps arbitrary: vs st)
  case (Cons p ps)
  then obtain y v vs' where vs: "vs = v # vs'" and y: "heap st p = Some y" "sel y = Some v"
    and rest: "list_all2 (\<lambda>p v. \<exists>y. heap st p = Some y \<and> sel y = Some v) ps vs'"
    by (auto simp: list_all2_Cons1)
  obtain st1 where one: "c_take encode p st = Returns (Some (B64_encode L (to_bytes v)), st1)" "ffi_inv L st1" "heap st1 = heap st"
    using c_take_ok [OF L Cons.prems(1) enc y] by blast
  then show ?case using Cons.IH [of st1 vs'] rest by (auto simp: vs)
qed simp

lemma ext2: "(\<And>x y. f x y = g x y) \<Longrightarrow> f = g"
  by (simp add: fun_eq_iff)

lemma c_destroy_all_ok:
  assumes destroy: "destroy = drop_raw sel"
  shows "ffi_inv L st \<Longrightarrow> distinct ps \<Longrightarrow> \<forall>p \<in> set ps. live sel p st \<Longrightarrow>
    \<exists>st'. c_destroy_all destroy ps st = Returns ((), st') \<and> ffi_inv L st' \<and>
      heap st' = (\<lambda>q. if q \<in> set ps then None else heap st q)"
proof (induction ps arbitrary: st)
  case (Cons p ps)
  have "p \<noteq> NULL" using Cons.prems(1,3) not_null by (auto simp: live_def)
  then have "destroy p st = Returns ((), free_handle p st)"
    using Cons.prems(3) by (auto simp: destroy drop_raw_def free_handle_def live_def deref_def)
  moreover have "\<forall>q \<in> set ps. live sel q (free_handle p st)"
    using Cons.prems(2,3) by (auto simp: live_def free_handle_def)
  ultimately show ?case
    using Cons.IH [of "free_handle p st"] Cons.prems(1,2) ffi_inv_free [OF Cons.prems(1), of p]
    by (fastforce simp: free_handle_def)
qed (simp add: fun_eq_iff)

lemma c_batch_ok:
  assumes L: "lib_laws L" and inv: "ffi_inv L st" and key: "heap st p = Some (SecretKeyObj sk)"
    and bls: "list_all2 (\<lambda>q b. heap st q = Some (BlindedObj b)) ps bls" and ne: "bls \<noteq> []"
    and fits: "length bls \<le> 65536 \<or> \<not> debug_assertions (core L)" "random_scalar (core L) (os_rng st) \<noteq> None"
    and eval: "PoprfServer_blind_evaluate_batch (core L) (PoprfServer_new sk) (os_rng st) bls info = (Inr (evs, pf), rng')"
  shows "\<exists>qs q st'. poprf_blind_evaluate_batch L p 1 (length ps) 2 (length info) 1 2 (c_batch_memory ps info st) =
      Returns (0, st') \<and> ffi_inv L st' \<and> stored (map EvaluatedObj evs @ [ProofObj pf]) (qs @ [q]) st st' \<and>
    c_slot_values (length ps) 1 st' = qs \<and> c_slot_values 1 2 st' = [q]"
proof -
  let ?st = "c_batch_memory ps info st" and ?c = "Call_blind_evaluate_batch p 1 (length ps) 2 (length info) 1 2"
  have fields: "heap ?st = heap st" "os_rng ?st = os_rng st" "c_bytes ?st 2 = Some info" "c_handles ?st 1 = Some ps"
    "c_slots ?st 1 = Some (replicate (length ps) (Some NULL))" "c_slots ?st 2 = Some [Some NULL]"
    by (simp_all add: c_batch_memory_def)
  have ps: "length ps = length bls" using bls by (rule list_all2_lengthD)
  have live: "\<forall>q \<in> set ps. live as_blinded q ?st \<and> q \<noteq> NULL"
    using bls not_null [OF inv] by (fastforce simp: live_def fields(1) list_all2_conv_all_nth in_set_conv_nth)
  have inv': "ffi_inv L ?st" using inv by (simp add: inv_caller)
  have adm: "admissible ?st ?c" "call_fits L ?st ?c"
    using key live fits ps
    by (simp_all add: fields handle_def live_def handles_ok_def readable_def slots_ok_def del: One_nat_def)
  have p: "p \<noteq> NULL" by (rule not_null [OF inv key])
  have info: "bytes_from_raw ?st 2 (length info) = Returns (Some info)" by (simp add: bytes_from_raw_def fields)
  have ptrs: "handles_from_raw ?st 1 (length ps) = Returns ps"
    by (simp add: handles_from_raw_def fields del: One_nat_def)
  have objs: "map (\<lambda>q. the (as_blinded (the (heap st q)))) ps = bls"
    using bls by (induction rule: list_all2_induct) simp_all
  have nulls: "null_position ps = None" using live by (auto simp: null_position_None)
  have "ffi_spec L ?c ?st = Fill_and_prove 1 2 (Inr (map EvaluatedObj evs, ProofObj pf)) rng'"
    using p ne ps key eval nulls objs
    by (simp add: check_def arg_def info array_def fields Let_def del: One_nat_def)
  then obtain st' where ret: "poprf_blind_evaluate_batch L p 1 (length ps) 2 (length info) 1 2 ?st = Returns (0, st')"
    using exec_refines [OF L inv' adm]
    by (cases "poprf_blind_evaluate_batch L p 1 (length ps) 2 (length info) 1 2 ?st")
      (auto simp: omap_def Let_def split: prod.splits)
  have "runs (batch_post L p 1 (length ps) 2 (length info) 1 2 ?st)
      (poprf_blind_evaluate_batch L p 1 (length ps) 2 (length info) 1 2 ?st)"
    using adm by (intro blind_evaluate_batch_runs [OF L inv']) (simp_all add: handle_def)
  then obtain bls' evs' pf' qs q slots rest where post: "ffi_inv L st'"
    "list_all2 (\<lambda>q b. heap st q = Some (BlindedObj b)) ps bls'"
    "PoprfServer_blind_evaluate_batch (core L) (PoprfServer_new sk) (os_rng st) bls' info = (Inr (evs', pf'), os_rng st')"
    "stored (map EvaluatedObj evs' @ [ProofObj pf']) (qs @ [q]) ?st st'"
    "c_slots st' = (c_slots ?st)(1 \<mapsto> map Some qs @ slots, 2 \<mapsto> Some q # rest)"
    unfolding ret runs_iff using key info ptrs by (auto simp: batch_post_def fields)
  have "bls' = bls"
    using bls post(2) by (auto simp: list_all2_conv_all_nth intro!: nth_equalityI)
  then have evs: "evs' = evs" "pf' = pf" using post(3) eval by simp_all
  have "length evs = length ps"
    using batch_evaluated(4) [OF core_laws [OF L]] batch_call_evaluated [OF eval] ps by (metis length_map)
  then have "length qs = length ps" using post(4) by (simp add: stored_def evs)
  moreover have "stored (map EvaluatedObj evs @ [ProofObj pf]) (qs @ [q]) st st'"
    using post(4) by (simp add: stored_def fields evs)
  ultimately show ?thesis using ret post(1,5) by (auto simp: c_slot_values_def)
qed

lemma live_all:
  "list_all2 (\<lambda>p v. \<exists>y. heap st p = Some y \<and> sel y = Some v) ps vs \<Longrightarrow> \<forall>p \<in> set ps. live sel p st"
  by (induction rule: list_all2_induct) (auto simp: live_def)

text \<open>The whole program: it ends well, sends the texts of the core crate's answer, and leaks nothing.\<close>

lemma c_serve_ok:
  assumes L: "lib_laws L" and inv: "ffi_inv L st" and key: "heap st p = Some (SecretKeyObj sk)"
    and texts: "list_all2 (\<lambda>t b. B64_decode L t = Inr (BlindedElement_to_bytes (core L) b) \<and> valid_blinded (core L) b) texts bls"
    and ne: "bls \<noteq> []"
    and fits: "length bls \<le> 65536 \<or> \<not> debug_assertions (core L)" "random_scalar (core L) (os_rng st) \<noteq> None"
    and eval: "PoprfServer_blind_evaluate_batch (core L) (PoprfServer_new sk) (os_rng st) bls info = (Inr (evs, pf), rng')"
  shows "\<exists>st'. c_serve L p texts info st =
      Returns (Some (map (\<lambda>ev. B64_encode L (EvaluatedElement_to_bytes (core L) ev)) evs, [B64_encode L (Proof_to_bytes (core L) pf)]), st') \<and>
    ffi_inv L st' \<and> heap st' = heap st"
proof -
  obtain ps st1 where one: "c_decode L texts st = Returns (Some ps, st1)" "ffi_inv L st1"
    "stored (map BlindedObj bls) ps st st1" "os_rng st1 = os_rng st"
    using c_decode_ok [OF L inv texts] by blast
  have key1: "heap st1 p = Some (SecretKeyObj sk)" using one(3) key by (metis option.distinct(1) stored_def)
  have ps: "list_all2 (\<lambda>q b. heap st1 q = Some (BlindedObj b)) ps bls"
    using one(3) by (auto simp: stored_def list_all2_conv_all_nth)
  obtain qs q st2 where two: "poprf_blind_evaluate_batch L p 1 (length ps) 2 (length info) 1 2 (c_batch_memory ps info st1) =
      Returns (0, st2)" "ffi_inv L st2" "stored (map EvaluatedObj evs @ [ProofObj pf]) (qs @ [q]) st1 st2"
    "c_slot_values (length ps) 1 st2 = qs" "c_slot_values 1 2 st2 = [q]"
    using c_batch_ok [OF L one(2) key1 ps ne fits [folded one(4)] eval [folded one(4)]] by blast
  have qs: "length qs = length evs" "distinct (qs @ [q])" using two(3) by (auto simp: stored_def)
  have ev: "list_all2 (\<lambda>q v. \<exists>y. heap st2 q = Some y \<and> as_evaluated y = Some v) qs evs"
    "list_all2 (\<lambda>q v. \<exists>y. heap st2 q = Some y \<and> as_proof y = Some v) [q] [pf]"
    using two(3) qs(1) by (auto simp: stored_def list_all2_conv_all_nth nth_append split: if_splits)
  have ps': "list_all2 (\<lambda>q v. \<exists>y. heap st1 q = Some y \<and> as_blinded y = Some v) ps bls"
    using ps by (rule list_all2_mono) simp
  have "heap st1 x = None" if "x \<in> set (qs @ [q])" for x using that two(3) by (auto simp: stored_def)
  moreover have "heap st1 x \<noteq> None" if "x \<in> set ps" for x using that live_all [OF ps'] by (auto simp: live_def)
  ultimately have apart: "set ps \<inter> set (qs @ [q]) = {}" "q \<notin> set qs" "distinct qs" "distinct ps"
    using qs(2) one(3) by (blast, simp_all add: stored_def)
  have old: "heap st2 x = heap st1 x" if "x \<in> set ps" for x
  proof -
    have "x \<notin> set (qs @ [q])" using that apart(1) by blast
    then show ?thesis using two(3) unfolding stored_def by blast
  qed
  obtain st3 where three: "c_take_all (poprf_evaluated_element_encode_base64 L) qs st2 =
      Returns (Some (map (\<lambda>ev. B64_encode L (EvaluatedElement_to_bytes (core L) ev)) evs), st3)" "ffi_inv L st3" "heap st3 = heap st2"
    using c_take_all_ok [OF L encoders(1) two(2) ev(1)] by blast
  obtain st4 where four: "c_take_all (poprf_proof_encode_base64 L) [q] st3 =
      Returns (Some [B64_encode L (Proof_to_bytes (core L) pf)], st4)" "ffi_inv L st4" "heap st4 = heap st2"
    using c_take_all_ok [OF L encoders(2) three(2), of "[q]" "[pf]"] ev(2) three(3) by auto
  have lives: "\<forall>x \<in> set [q]. live as_proof x st4" "\<forall>x \<in> set qs. live as_evaluated x st4" "\<forall>x \<in> set ps. live as_blinded x st4"
    using live_all [OF ev(1)] live_all [OF ev(2)] live_all [OF ps'] old by (simp_all add: live_def four(3))
  obtain st5 where five: "c_destroy_all poprf_proof_destroy [q] st4 = Returns ((), st5)" "ffi_inv L st5"
    "heap st5 = (\<lambda>x. if x \<in> set [q] then None else heap st4 x)"
    using c_destroy_all_ok [OF poprf_proof_destroy_def [THEN ext2] four(2) _ lives(1)] by fastforce
  have live5: "\<forall>x \<in> set qs. live as_evaluated x st5"
    using lives(2) apart(2) by (auto simp: live_def five(3))
  obtain st6 where six: "c_destroy_all poprf_evaluated_element_destroy qs st5 = Returns ((), st6)" "ffi_inv L st6"
    "heap st6 = (\<lambda>x. if x \<in> set qs then None else heap st5 x)"
    using c_destroy_all_ok [OF poprf_evaluated_element_destroy_def [THEN ext2] five(2) apart(3) live5] by blast
  have live6: "\<forall>x \<in> set ps. live as_blinded x st6"
    using lives(3) apart(1) by (auto simp: live_def five(3) six(3))
  obtain st7 where seven: "c_destroy_all poprf_blinded_element_destroy ps st6 = Returns ((), st7)" "ffi_inv L st7"
    "heap st7 = (\<lambda>x. if x \<in> set ps then None else heap st6 x)"
    using c_destroy_all_ok [OF poprf_blinded_element_destroy_def [THEN ext2] six(2) apart(4) live6] by blast
  have "heap st7 x = heap st x" for x
    using one(3) two(3) by (auto simp: seven(3) six(3) five(3) four(3) stored_def)
  then have "heap st7 = heap st" by blast
  then show ?thesis
    using one(1) two(1,4,5) three(1) four(1) five(1) six(1) seven(1,2)
    by (simp add: c_serve_def Let_def del: One_nat_def c_take_all.simps c_destroy_all.simps)
qed

end
