(* ===== verification/Wasm.thy ===== *)
theory Wasm
  imports Protocol
begin

text \<open>
  \<open>poprf-ristretto-wasm/src/lib.rs\<close>: the bindings a JavaScript client calls, \<open>blindBatch\<close> and
  \<open>finalizeBatch\<close>. Their arguments are JavaScript values; texts are base64. An \<open>Err\<close> of the
  Rust function is thrown to the caller as a string; a panic is a trap of the module.

  Strings are their UTF-8 bytes, a JavaScript array is the list of its elements.
\<close>

section \<open>JavaScript values and the environment of the module\<close>

text \<open>All values but strings are opaque (\<open>'j\<close>).\<close>

datatype 'j js = JsString bytes | JsOther 'j

text \<open>
  The base64 engine, whose error is its display text, and the constructor \<open>new Uint8Array(v)\<close>
  of the host with the copy to a vector: \<open>None\<close> when the constructor itself throws.
\<close>

record ('s, 'p, 't, 'h, 'r, 'j) web =
  web_core :: "('s, 'p, 't, 'h, 'r) env"
  b64_encode :: "bytes \<Rightarrow> bytes"
  b64_decode :: "bytes \<Rightarrow> bytes + bytes"
  Uint8Array_new :: "'j js \<Rightarrow> bytes option"

definition web_laws :: "('s, 'p, 't, 'h, 'r, 'j) web \<Rightarrow> bool" where
  "web_laws W \<longleftrightarrow> env_laws (web_core W) \<and> (\<forall>bs. b64_decode W (b64_encode W bs) = Inr bs)"

text \<open>How a call ends without a result: it throws its error string, it passes on an exception of
  the host, it traps, or it does not return.\<close>

datatype js_fault = Throws bytes | Host_exception | Trap | Spins

section \<open>Conversions\<close>

definition js_err :: "bytes \<Rightarrow> js_fault + 'a" where
  "js_err msg = Inl (Throws msg)"

text \<open>There is no check of the type: the constructor gets any value.\<close>

definition uint8array_to_vec :: "('s, 'p, 't, 'h, 'r, 'j) web \<Rightarrow> 'j js \<Rightarrow> js_fault + bytes" where
  "uint8array_to_vec W val = (case Uint8Array_new W val of None \<Rightarrow> Inl Host_exception | Some bs \<Rightarrow> Inr bs)"

text \<open>\<open>.map_err(|e| js_err(format!("..: {e}")))\<close> on a result of the core crate.\<close>

definition map_js_err :: "bytes \<Rightarrow> 'a res \<Rightarrow> js_fault + 'a" where
  "map_js_err prefix r =
     (case r of
        Inr x \<Rightarrow> Inr x
      | Inl (Err e) \<Rightarrow> js_err (prefix @ ascii (error_fmt e))
      | Inl Panic \<Rightarrow> Inl Trap
      | Inl Diverge \<Rightarrow> Inl Spins)"

text \<open>\<open>B64.decode(..).map_err(..)?\<close>, then \<open>T::from_bytes(..).map_err(..)?\<close>, as for all five types.\<close>

definition decode_text ::
  "('s, 'p, 't, 'h, 'r, 'j) web \<Rightarrow> bytes \<Rightarrow> bytes \<Rightarrow> (bytes \<Rightarrow> 'a res) \<Rightarrow> bytes \<Rightarrow> js_fault + 'a" where
  "decode_text W b64_prefix prefix from_bytes text =
     (case b64_decode W text of
        Inl e \<Rightarrow> js_err (b64_prefix @ e)
      | Inr bs \<Rightarrow> map_js_err prefix (from_bytes bs))"

text \<open>\<open>.as_string().ok_or_else(..)?\<close>\<close>

fun as_string :: "bytes \<Rightarrow> 'j js \<Rightarrow> js_fault + bytes" where
  "as_string msg (JsString s) = Inr s"
| "as_string msg (JsOther v) = js_err msg"

definition decode_public_key :: "('s, 'p, 't, 'h, 'r, 'j) web \<Rightarrow> bytes \<Rightarrow> js_fault + 'p PublicKey" where
  "decode_public_key W text =
     decode_text W (ascii ''public_key base64: '') (ascii ''PublicKey: '') (PublicKey_from_bytes (web_core W)) text"

section \<open>blindBatch\<close>

text \<open>The loop over \<open>inputs\<close>: the two arrays it fills, and the generator.\<close>

fun blind_loop ::
  "('s, 'p, 't, 'h, 'r, 'j) web \<Rightarrow> 'p PoprfClient \<Rightarrow> bytes \<Rightarrow> 'r \<Rightarrow> 'j js list \<Rightarrow>
    (js_fault + (bytes list \<times> bytes list)) \<times> 'r" where
  "blind_loop W client info rng [] = (Inr ([], []), rng)"
| "blind_loop W client info rng (elem # elems) =
     (case uint8array_to_vec W elem of
        Inl f \<Rightarrow> (Inl f, rng)
      | Inr input \<Rightarrow>
          (case PoprfClient_blind (web_core W) client input info rng of
             (r, rng) \<Rightarrow>
               (case map_js_err (ascii ''blind: '') r of
                  Inl f \<Rightarrow> (Inl f, rng)
                | Inr (state, blinded) \<Rightarrow>
                    (case blind_loop W client info rng elems of
                       (r, rng) \<Rightarrow>
                         (rbind r (\<lambda>(states_b64, blindeds_b64).
                            Inr (b64_encode W (PoprfBlindState_to_bytes (web_core W) state) # states_b64,
                                 b64_encode W (BlindedElement_to_bytes (web_core W) blinded) # blindeds_b64)),
                          rng)))))"

text \<open>The result is a fresh object; setting a property of it with \<open>Reflect::set\<close> does not fail.\<close>

definition blind_batch ::
  "('s, 'p, 't, 'h, 'r, 'j) web \<Rightarrow> bytes \<Rightarrow> 'j js list \<Rightarrow> bytes \<Rightarrow> 'r \<Rightarrow>
    (js_fault + (string \<rightharpoonup> 'j js list)) \<times> 'r" where
  "blind_batch W public_key_b64 inputs info rng =
     (case decode_public_key W public_key_b64 of
        Inl f \<Rightarrow> (Inl f, rng)
      | Inr pk \<Rightarrow>
          (let client = PoprfClient_new pk in
           case blind_loop W client info rng inputs of
             (r, rng) \<Rightarrow>
               (rbind r (\<lambda>(states_b64, blindeds_b64).
                  Inr [''states'' \<mapsto> map JsString states_b64,
                       ''blindedMessages'' \<mapsto> map JsString blindeds_b64]),
                rng)))"

section \<open>finalizeBatch\<close>

text \<open>One turn of the loop over the three arrays of texts.\<close>

definition decode_entry ::
  "('s, 'p, 't, 'h, 'r, 'j) web \<Rightarrow> 'j js \<times> 'j js \<times> 'j js \<Rightarrow>
    js_fault + (('s, 'p) PoprfBlindState \<times> 'p BlindedElement \<times> 'p EvaluatedElement)" where
  "decode_entry W = (\<lambda>(state, blinded, evaluated).
     rbind (as_string (ascii ''state must be string'') state) (\<lambda>s.
     rbind (decode_text W (ascii ''state base64: '') (ascii ''state: '')
              (PoprfBlindState_from_bytes (web_core W)) s) (\<lambda>st.
     rbind (as_string (ascii ''blinded must be string'') blinded) (\<lambda>b.
     rbind (decode_text W (ascii ''blinded base64: '') (ascii ''blinded: '')
              (BlindedElement_from_bytes (web_core W)) b) (\<lambda>bl.
     rbind (as_string (ascii ''evaluated must be string'') evaluated) (\<lambda>e.
     rbind (decode_text W (ascii ''evaluated base64: '') (ascii ''evaluated: '')
              (EvaluatedElement_from_bytes (web_core W)) e) (\<lambda>ev.
     Inr (st, bl, ev))))))))"

definition finalize_batch ::
  "('s, 'p, 't, 'h, 'r, 'j) web \<Rightarrow> bytes \<Rightarrow> 'j js list \<Rightarrow> 'j js list \<Rightarrow> 'j js list \<Rightarrow> 'j js list \<Rightarrow>
    bytes \<Rightarrow> bytes \<Rightarrow> js_fault + 'j js list" where
  "finalize_batch W public_key_b64 inputs states_b64 blindeds_b64 evaluateds_b64 proof_b64 info =
     rbind (decode_public_key W public_key_b64) (\<lambda>pk.
     let client = PoprfClient_new pk;
         n = length inputs in
     if length states_b64 \<noteq> n \<or> length blindeds_b64 \<noteq> n \<or> length evaluateds_b64 \<noteq> n
     then js_err (ascii ''finalize_batch: array length mismatch'')
     else
       rbind (rmap (uint8array_to_vec W) inputs) (\<lambda>input_vecs.
       rbind (rmap (decode_entry W) (zip states_b64 (zip blindeds_b64 evaluateds_b64))) (\<lambda>entries.
       let states = map fst entries;
           blindeds = map (fst \<circ> snd) entries;
           evaluateds = map (snd \<circ> snd) entries in
       rbind (decode_text W (ascii ''proof base64: '') (ascii ''proof: '')
                (Proof_from_bytes (web_core W)) proof_b64) (\<lambda>proof.
       rbind (map_js_err (ascii ''finalize_batch: '')
                (PoprfClient_finalize_batch (web_core W) client input_vecs states evaluateds blindeds proof info))
         (\<lambda>outputs.
       Inr (map (\<lambda>out. JsString (b64_encode W (PoprfOutput_as_bytes out))) outputs))))))"

section \<open>Texts of the wire types\<close>

lemma map_js_err_Inr [simp]: "map_js_err p r = Inr x \<longleftrightarrow> r = Inr x"
  by (auto simp: map_js_err_def js_err_def split: sum.splits fault.splits)

lemma map_js_err_value [simp]: "map_js_err p (Inr x) = Inr x"
  by simp

lemma map_js_err_Inl: "map_js_err p r = Inl f \<Longrightarrow> no_abort r \<Longrightarrow> \<exists>msg. f = Throws msg"
  by (auto simp: map_js_err_def js_err_def no_abort_def split: sum.splits fault.splits)

lemma as_string_Inr [simp]: "as_string msg v = Inr s \<longleftrightarrow> v = JsString s"
  by (cases v) (auto simp: js_err_def)

context wire_codec
begin

lemma decode_text_iff:
  "ok e \<Longrightarrow> decode_text W p q (dec e) s = Inr x \<longleftrightarrow> b64_decode W s = Inr (enc e x) \<and> valid e x"
  by (auto simp: decode_text_def js_err_def dec_iff split: sum.splits)

lemma decode_text_Inl: "decode_text W p q (dec e) s = Inl f \<Longrightarrow> \<exists>msg. f = Throws msg"
  by (auto simp: decode_text_def js_err_def split: sum.splits dest: map_js_err_Inl [OF _ dec_no_abort])

end

text \<open>A text that stands for a value of one of the types.\<close>

definition writes :: "('s, 'p, 't, 'h, 'r, 'j) web \<Rightarrow> 'j js \<Rightarrow> bytes \<Rightarrow> bool" where
  "writes W v bs \<longleftrightarrow> (\<exists>s. v = JsString s \<and> b64_decode W s = Inr bs)"

definition state_text :: "('s, 'p, 't, 'h, 'r, 'j) web \<Rightarrow> 'j js \<Rightarrow> ('s, 'p) PoprfBlindState \<Rightarrow> bool" where
  "state_text W v st \<longleftrightarrow> writes W v (PoprfBlindState_to_bytes (web_core W) st) \<and>
     \<not> is_identity (web_core W) (bs_tweaked_key st)"

definition blinded_text :: "('s, 'p, 't, 'h, 'r, 'j) web \<Rightarrow> 'j js \<Rightarrow> 'p BlindedElement \<Rightarrow> bool" where
  "blinded_text W v b \<longleftrightarrow> writes W v (BlindedElement_to_bytes (web_core W) b) \<and> valid_blinded (web_core W) b"

definition evaluated_text :: "('s, 'p, 't, 'h, 'r, 'j) web \<Rightarrow> 'j js \<Rightarrow> 'p EvaluatedElement \<Rightarrow> bool" where
  "evaluated_text W v e \<longleftrightarrow> writes W v (EvaluatedElement_to_bytes (web_core W) e) \<and> valid_evaluated (web_core W) e"

lemmas text_defs = state_text_def blinded_text_def evaluated_text_def writes_def

lemma web_encoding: "web_laws W \<Longrightarrow> encoding_laws (web_core W)"
  by (simp add: web_laws_def env_lawsD)

lemma decode_public_key_iff:
  "web_laws W \<Longrightarrow> decode_public_key W text = Inr pk \<longleftrightarrow>
     b64_decode W text = Inr (PublicKey_to_bytes (web_core W) pk) \<and> valid_public (web_core W) pk"
  by (simp add: decode_public_key_def pk_codec.decode_text_iff web_encoding)

lemma decode_entry_iff:
  "web_laws W \<Longrightarrow> decode_entry W (s, b, e) = Inr (st, bl, ev) \<longleftrightarrow>
     state_text W s st \<and> blinded_text W b bl \<and> evaluated_text W e ev"
  by (auto simp: decode_entry_def rbind_eq_Inr_iff text_defs web_encoding bs_codec.whole.decode_text_iff
      be_codec.decode_text_iff ee_codec.decode_text_iff)

lemma decode_entry_Inl: "decode_entry W x = Inl f \<Longrightarrow> \<exists>msg. f = Throws msg"
proof -
  have "as_string msg v = Inl f \<Longrightarrow> \<exists>msg. f = Throws msg" for msg and v :: "'f js"
    by (cases v) (auto simp: js_err_def)
  then show "decode_entry W x = Inl f \<Longrightarrow> \<exists>msg. f = Throws msg"
    by (auto simp: decode_entry_def rbind_eq_Inl_iff split: prod.splits
        dest: bs_codec.whole.decode_text_Inl be_codec.decode_text_Inl ee_codec.decode_text_Inl)
qed

lemma decode_entries_iff:
  assumes W: "web_laws W" and "length as = length bs" "length bs = length cs"
  shows "rmap (decode_entry W) (zip as (zip bs cs)) = Inr es \<longleftrightarrow>
    list_all2 (state_text W) as (map fst es) \<and> list_all2 (blinded_text W) bs (map (fst \<circ> snd) es) \<and>
    list_all2 (evaluated_text W) cs (map (snd \<circ> snd) es)"
  using assms(2,3)
proof (induction as bs cs arbitrary: es rule: list_induct3)
  case (Cons a as b bs c cs)
  then show ?case
    by (cases es; cases "hd es") (auto simp: rbind_eq_Inr_iff decode_entry_iff [OF W])
qed auto

section \<open>What blinding leaves in the arrays\<close>

lemma blind_valid:
  assumes "env_laws E" and "PoprfClient_blind E cl input info rng = (Inr (st, bl), rng')"
  shows "\<not> is_identity E (bs_tweaked_key st)" and "valid_blinded E bl"
  using assms blinded_not_identity [OF assms]
  by (auto simp: PoprfClient_blind_def blind_inner_spec valid_blinded_def split: option.splits if_splits)

lemma blinded_batch_Cons:
  assumes "PoprfClient_blind E cl x info rng = (Inr (st, bl), rng')"
    and "blinded_batch E cl info xs sts bls"
  shows "blinded_batch E cl info (x # xs) (st # sts) (bl # bls)"
  using assms by (auto simp: blinded_batch_def nth_Cons split: nat.splits)

lemma blind_loop_spec:
  assumes E: "env_laws (web_core W)"
  shows "blind_loop W cl info rng elems = (Inr (ss, bs), rng') \<Longrightarrow>
    \<exists>xs sts bls. rmap (uint8array_to_vec W) elems = Inr xs \<and> blinded_batch (web_core W) cl info xs sts bls \<and>
      (\<forall>st \<in> set sts. \<not> is_identity (web_core W) (bs_tweaked_key st)) \<and> (\<forall>b \<in> set bls. valid_blinded (web_core W) b) \<and>
      ss = map (\<lambda>st. b64_encode W (PoprfBlindState_to_bytes (web_core W) st)) sts \<and>
      bs = map (\<lambda>b. b64_encode W (BlindedElement_to_bytes (web_core W) b)) bls"
proof (induction elems arbitrary: rng ss bs)
  case Nil
  then have "blinded_batch (web_core W) cl info [] [] []" by (simp add: blinded_batch_def)
  then show ?case using Nil by force
next
  case (Cons v elems)
  then obtain x st bl rng1 ss2 bs2 where x: "uint8array_to_vec W v = Inr x"
    and blind: "PoprfClient_blind (web_core W) cl x info rng = (Inr (st, bl), rng1)"
    and rest: "blind_loop W cl info rng1 elems = (Inr (ss2, bs2), rng')"
    and ss: "ss = b64_encode W (PoprfBlindState_to_bytes (web_core W) st) # ss2"
    and bs: "bs = b64_encode W (BlindedElement_to_bytes (web_core W) bl) # bs2"
    by (auto simp: rbind_eq_Inr_iff split: sum.splits prod.splits)
  from Cons.IH [OF rest] obtain xs sts bls where IH: "rmap (uint8array_to_vec W) elems = Inr xs"
    "blinded_batch (web_core W) cl info xs sts bls"
    "\<forall>st \<in> set sts. \<not> is_identity (web_core W) (bs_tweaked_key st)" "\<forall>b \<in> set bls. valid_blinded (web_core W) b"
    "ss2 = map (\<lambda>st. b64_encode W (PoprfBlindState_to_bytes (web_core W) st)) sts"
    "bs2 = map (\<lambda>b. b64_encode W (BlindedElement_to_bytes (web_core W) b)) bls"
    by blast
  have "blinded_batch (web_core W) cl info (x # xs) (st # sts) (bl # bls)"
    by (rule blinded_batch_Cons [OF blind IH(2)])
  then show ?case
    using x ss bs IH blind_valid [OF E blind]
    by (intro exI [of _ "x # xs"] exI [of _ "st # sts"] exI [of _ "bl # bls"]) simp
qed

end
