(* ===== verification/Wasm_Properties.thy ===== *)
theory Wasm_Properties
  imports Wasm
begin

text \<open>
  The properties of the browser bindings, and a concrete host to witness them: the environment
  of \<open>Toy\<close>, byte arrays as the only values beside strings, and texts that are the bytes
  themselves in place of base64.
\<close>

definition web3 :: "(tri, tri, tri, bytes, nat, bytes) web" where
  "web3 = \<lparr> web_core = E3, b64_encode = (\<lambda>b. b), b64_decode = Inr,
     Uint8Array_new = (\<lambda>v. case v of JsOther b \<Rightarrow> Some b | JsString s \<Rightarrow> None) \<rparr>"

lemma web3_fields [simp]:
  "web_core web3 = E3" "b64_encode web3 b = b" "b64_decode web3 s = Inr s"
  "Uint8Array_new web3 (JsOther b) = Some b"
  by (simp_all add: web3_def)

lemma web3_laws [simp]: "web_laws web3"
  by (simp add: web_laws_def)

abbreviation pk3_text :: bytes where
  "pk3_text \<equiv> tri_encode T1"

lemma writes_encode: "web_laws W \<Longrightarrow> writes W (JsString (b64_encode W bs)) bs"
  by (simp add: writes_def web_laws_def)

lemma uint8_Inr [simp]: "uint8array_to_vec W v = Inr x \<longleftrightarrow> Uint8Array_new W v = Some x"
  by (auto simp: uint8array_to_vec_def split: option.splits)

lemma web_lawsD: "web_laws W \<Longrightarrow> b64_decode W (b64_encode W bs) = Inr bs"
  by (simp add: web_laws_def)

lemma public_key_bytes_inj:
  "encoding_laws E \<Longrightarrow> PublicKey_to_bytes E pk = PublicKey_to_bytes E pk' \<longleftrightarrow> pk = pk'"
  by (cases pk; cases pk') (simp add: PublicKey_to_bytes_def serialize_element_array_def point_compress_inj)

lemma blinded_texts_unique:
  assumes W: "web_laws W" and "\<forall>b \<in> set bls. valid_blinded (web_core W) b"
    and "list_all2 (blinded_text W) (map (\<lambda>b. JsString (b64_encode W (BlindedElement_to_bytes (web_core W) b))) bls) bls'"
  shows "bls' = bls"
  using assms(2,3)
proof (induction bls arbitrary: bls')
  case (Cons b bls)
  then obtain b' rest where "bls' = b' # rest" "valid_blinded (web_core W) b'"
    "BlindedElement_to_bytes (web_core W) b = BlindedElement_to_bytes (web_core W) b'"
    by (auto simp: list_all2_Cons1 text_defs web_lawsD [OF W])
  with Cons show ?case using be_codec.enc_inj [OF web_encoding [OF W]] by (auto simp: list_all2_Cons1)
qed simp

lemma zip_proj:
  assumes "length as = length bs" "length cs = length bs"
  shows "map fst (zip as (zip bs cs)) = as" "map (fst \<circ> snd) (zip as (zip bs cs)) = bs"
    "map (snd \<circ> snd) (zip as (zip bs cs)) = cs"
  using assms by (simp_all flip: map_map)

text \<open>What \<open>blindBatch\<close> put into its result.\<close>

lemma blind_batch_made:
  assumes W: "web_laws W"
    and key: "b64_decode W pk_text = Inr (PublicKey_to_bytes (web_core W) (PoprfServer_public_key (web_core W) srv))"
    and blind: "blind_batch W pk_text inputs info rng = (Inr obj, rng')"
  shows "decode_public_key W pk_text = Inr (PoprfServer_public_key (web_core W) srv) \<and>
    (\<exists>xs sts bls. rmap (uint8array_to_vec W) inputs = Inr xs \<and>
      blinded_batch (web_core W) (client_of (web_core W) srv) info xs sts bls \<and>
      (\<forall>st \<in> set sts. \<not> is_identity (web_core W) (bs_tweaked_key st)) \<and> (\<forall>b \<in> set bls. valid_blinded (web_core W) b) \<and>
      obj ''states'' = Some (map (\<lambda>st. JsString (b64_encode W (PoprfBlindState_to_bytes (web_core W) st))) sts) \<and>
      obj ''blindedMessages'' = Some (map (\<lambda>b. JsString (b64_encode W (BlindedElement_to_bytes (web_core W) b))) bls))"
proof -
  let ?E = "web_core W" and ?pk = "PoprfServer_public_key (web_core W) srv"
  have E: "env_laws ?E" and ok: "encoding_laws ?E" using W by (simp_all add: web_laws_def env_lawsD)
  have pk: "decode_public_key W pk_text = Inr ?pk"
    using key blind public_key_bytes_inj [OF ok] decode_public_key_iff [OF W]
    by (cases "decode_public_key W pk_text") (auto simp: blind_batch_def)
  obtain ss bs rng1 where loop: "blind_loop W (client_of ?E srv) info rng inputs = (Inr (ss, bs), rng1)"
    and obj: "obj ''states'' = Some (map JsString ss)" "obj ''blindedMessages'' = Some (map JsString bs)"
    using blind pk by (auto simp: blind_batch_def rbind_eq_Inr_iff split: prod.splits)
  from blind_loop_spec [OF E loop] obtain xs sts bls where made: "rmap (uint8array_to_vec W) inputs = Inr xs"
    "blinded_batch ?E (client_of ?E srv) info xs sts bls"
    "\<forall>st \<in> set sts. \<not> is_identity ?E (bs_tweaked_key st)" "\<forall>b \<in> set bls. valid_blinded ?E b"
    "ss = map (\<lambda>st. b64_encode W (PoprfBlindState_to_bytes ?E st)) sts"
    "bs = map (\<lambda>b. b64_encode W (BlindedElement_to_bytes ?E b)) bls" by blast
  show ?thesis
    by (intro conjI exI [of _ xs] exI [of _ sts] exI [of _ bls]) (simp_all add: pk obj made comp_def)
qed

text \<open>\<open>finalizeBatch\<close> on what \<open>blindBatch\<close> made and an honest answer to it.\<close>

lemma finalize_batch_texts:
  assumes W: "web_laws W" and pk: "decode_public_key W pk_text = Inr (PoprfServer_public_key (web_core W) srv)"
    and xs: "rmap (uint8array_to_vec W) inputs = Inr xs"
    and bb: "blinded_batch (web_core W) (client_of (web_core W) srv) info xs sts bls"
    and valid: "\<forall>st \<in> set sts. \<not> is_identity (web_core W) (bs_tweaked_key st)" "\<forall>b \<in> set bls. valid_blinded (web_core W) b"
    and eval: "PoprfServer_blind_evaluate_batch (web_core W) srv rng bls info = (Inr (evs, pf), rng')"
  shows "finalize_batch W pk_text inputs
      (map (\<lambda>st. JsString (b64_encode W (PoprfBlindState_to_bytes (web_core W) st))) sts)
      (map (\<lambda>b. JsString (b64_encode W (BlindedElement_to_bytes (web_core W) b))) bls)
      (map (\<lambda>ev. JsString (b64_encode W (EvaluatedElement_to_bytes (web_core W) ev))) evs)
      (b64_encode W (Proof_to_bytes (web_core W) pf)) info =
    Inr (map (\<lambda>out. JsString (b64_encode W (PoprfOutput_as_bytes out))) (map (\<lambda>x. poprf (web_core W) srv x info) xs)) \<and>
    rmap (\<lambda>x. PoprfServer_evaluate (web_core W) srv x info) xs = Inr (map (\<lambda>x. poprf (web_core W) srv x info) xs)"
proof -
  let ?E = "web_core W"
  have E: "env_laws ?E" and ok: "encoding_laws ?E" using W by (simp_all add: web_laws_def env_lawsD)
  obtain r where ev: "blind_evaluate_batch_with_r_inner ?E srv bls info r = Inr (evs, pf)"
    using batch_call_evaluated [OF eval] by blast
  have evs: "\<forall>e \<in> set evs. valid_evaluated ?E e" "length evs = length bls"
    using evaluated_valid [OF E eval] batch_evaluated(4) [OF E ev] by auto
  have len: "length inputs = length xs" "length sts = length xs" "length bls = length xs"
    using bb xs by (auto simp: blinded_batch_def rmap_eq_Inr_iff list_all2_lengthD)
  let ?sts = "map (\<lambda>st. JsString (b64_encode W (PoprfBlindState_to_bytes ?E st))) sts"
  let ?bls = "map (\<lambda>b. JsString (b64_encode W (BlindedElement_to_bytes ?E b))) bls"
  let ?evs = "map (\<lambda>ev. JsString (b64_encode W (EvaluatedElement_to_bytes ?E ev))) evs"
  have "rmap (decode_entry W) (zip ?sts (zip ?bls ?evs)) = Inr (zip sts (zip bls evs))"
    using len evs valid
    by (subst decode_entries_iff [OF W])
      (auto simp: map_fst_zip map_snd_zip zip_proj text_defs W web_lawsD list.rel_map list_all2_same)
  moreover have "decode_text W (ascii ''proof base64: '') (ascii ''proof: '') (Proof_from_bytes ?E)
      (b64_encode W (Proof_to_bytes ?E pf)) = Inr pf"
    by (simp add: proof_codec.whole.decode_text_iff [OF ok] web_lawsD [OF W])
  ultimately show ?thesis
    using pk xs len evs(2) batch_finalized [OF E bb ev] batch_evaluates [OF E bb ev]
    by (simp add: finalize_batch_def Let_def zip_proj)
qed

text \<open>The bindings complete the protocol. When \<open>blindBatch\<close> returns under a server's public key,
  and the server decodes the blinded messages and answers them, then \<open>finalizeBatch\<close>, given the
  states and messages as they were returned and the answer as texts, returns the text of the
  server's own evaluation for every input, in order.\<close>

theorem wasm_run_correct:
  assumes W: "web_laws W"
    and key: "b64_decode W pk_text = Inr (PublicKey_to_bytes (web_core W) (PoprfServer_public_key (web_core W) srv))"
    and blind: "blind_batch W pk_text inputs info rng = (Inr obj, rng')"
    and msgs: "obj ''blindedMessages'' = Some texts" "list_all2 (blinded_text W) texts bls"
    and eval: "PoprfServer_blind_evaluate_batch (web_core W) srv rng2 bls info = (Inr (evs, pf), rng2')"
  shows "\<exists>states xs outs. obj ''states'' = Some states \<and> rmap (uint8array_to_vec W) inputs = Inr xs \<and>
    rmap (\<lambda>x. PoprfServer_evaluate (web_core W) srv x info) xs = Inr outs \<and>
    finalize_batch W pk_text inputs states texts
      (map (\<lambda>ev. JsString (b64_encode W (EvaluatedElement_to_bytes (web_core W) ev))) evs)
      (b64_encode W (Proof_to_bytes (web_core W) pf)) info =
    Inr (map (\<lambda>out. JsString (b64_encode W (PoprfOutput_as_bytes out))) outs)"
proof -
  let ?E = "web_core W"
  obtain xs sts bls' where made: "rmap (uint8array_to_vec W) inputs = Inr xs"
    "blinded_batch ?E (client_of ?E srv) info xs sts bls'"
    "\<forall>st \<in> set sts. \<not> is_identity ?E (bs_tweaked_key st)" "\<forall>b \<in> set bls'. valid_blinded ?E b"
    "obj ''states'' = Some (map (\<lambda>st. JsString (b64_encode W (PoprfBlindState_to_bytes ?E st))) sts)"
    "obj ''blindedMessages'' = Some (map (\<lambda>b. JsString (b64_encode W (BlindedElement_to_bytes ?E b))) bls')"
    and pk: "decode_public_key W pk_text = Inr (PoprfServer_public_key ?E srv)"
    using blind_batch_made [OF W key blind] by blast
  have texts: "texts = map (\<lambda>b. JsString (b64_encode W (BlindedElement_to_bytes ?E b))) bls'"
    using msgs(1) made(6) by simp
  have "bls = bls'"
    by (rule blinded_texts_unique [OF W made(4)]) (use msgs(2) texts in simp)
  then show ?thesis
    using finalize_batch_texts [OF W pk made(1-4)] eval made(1,5) texts by simp
qed

theorem wasm_run_correct_witness:
  "\<exists>obj states out. fst (blind_batch web3 pk3_text [JsOther [0]] [1] 0) = Inr obj \<and>
    obj ''states'' = Some states \<and> PoprfServer_evaluate E3 srv3 [0] [1] = Inr out \<and>
    finalize_batch web3 pk3_text [JsOther [0]] states [JsString (tri_encode T1)] [JsString (tri_encode T1)]
      (tri_encode T0 @ tri_encode T1) [1] = Inr [JsString (output_bytes out)]"
proof -
  let ?obj = "[''states'' \<mapsto> [JsString (tri_encode T1 @ tri_encode T1)],
    ''blindedMessages'' \<mapsto> [JsString (tri_encode T1)]] :: string \<rightharpoonup> bytes js list"
  have bytes: "PublicKey_to_bytes E3 (PoprfServer_public_key E3 srv3) = pk3_text"
    "BlindedElement_to_bytes E3 (BlindedElement T1) = tri_encode T1"
    "EvaluatedElement_to_bytes E3 (EvaluatedElement T1) = tri_encode T1"
    "PoprfBlindState_to_bytes E3 st3 = tri_encode T1 @ tri_encode T1"
    "Proof_to_bytes E3 pf3 = tri_encode T0 @ tri_encode T1"
    by (simp_all add: PublicKey_to_bytes_def BlindedElement_to_bytes_def EvaluatedElement_to_bytes_def
        bs_codec.enc_eq [OF env_lawsD(3) [OF toy_laws]]
        proof_codec.enc_eq [OF env_lawsD(3) [OF toy_laws]] serialize_element_array_def serialize_scalar_array_def
        PoprfServer_public_key_def SecretKey_public_key_def PoprfServer_new_def)
  have valid: "valid_public E3 (PoprfServer_public_key E3 srv3)"
    by (simp add: valid_public_def PoprfServer_public_key_def SecretKey_public_key_def PoprfServer_new_def)
  have "decode_public_key web3 pk3_text = Inr (PoprfServer_public_key E3 srv3)"
    using decode_public_key_iff [OF web3_laws, of pk3_text "PoprfServer_public_key E3 srv3"] valid
    by (simp add: bytes)
  then have blind: "blind_batch web3 pk3_text [JsOther [0]] [1] 0 = (Inr ?obj, 2)"
    using toy_blind by (simp add: blind_batch_def uint8array_to_vec_def bytes del: toy_random_scalar)
  have texts: "list_all2 (blinded_text web3) [JsString (tri_encode T1)] [BlindedElement T1]"
    by (simp add: text_defs bytes valid_blinded_def)
  have eval: "PoprfServer_blind_evaluate_batch E3 srv3 1 [BlindedElement T1] [1] = (Inr ([EvaluatedElement T1], pf3), 2)"
    by (simp add: batch_draws batch_r_spec toy_run toy_bytes check_no_identity_eq)
  from wasm_run_correct [OF web3_laws _ blind _ texts, of srv3 1 "[EvaluatedElement T1]" pf3 2] obtain xs outs where
    "rmap (uint8array_to_vec web3) [JsOther [0]] = Inr xs"
    "rmap (\<lambda>x. PoprfServer_evaluate E3 srv3 x [1]) xs = Inr outs"
    "finalize_batch web3 pk3_text [JsOther [0]] [JsString (tri_encode T1 @ tri_encode T1)] [JsString (tri_encode T1)]
      [JsString (tri_encode T1)] (tri_encode T0 @ tri_encode T1) [1] =
      Inr (map (\<lambda>out. JsString (PoprfOutput_as_bytes out)) outs)"
    using eval by (auto simp: bytes)
  then show ?thesis
    using blind by (auto simp: uint8array_to_vec_def rbind_eq_Inr_iff PoprfOutput_as_bytes_def)
qed

definition decodes ::
  "('s, 'p, 't, 'h, 'r, 'j) web \<Rightarrow> bytes \<Rightarrow> 'j js list \<Rightarrow> 'j js list \<Rightarrow> 'j js list \<Rightarrow> 'j js list \<Rightarrow> bytes \<Rightarrow>
    'p PublicKey \<Rightarrow> bytes list \<Rightarrow> ('s, 'p) PoprfBlindState list \<Rightarrow> 'p BlindedElement list \<Rightarrow>
    'p EvaluatedElement list \<Rightarrow> 's Proof \<Rightarrow> bool" where
  "decodes W pk_text inputs states blindeds evaluateds proof_text pk xs sts bls evs pf \<longleftrightarrow>
     b64_decode W pk_text = Inr (PublicKey_to_bytes (web_core W) pk) \<and> valid_public (web_core W) pk \<and>
     list_all2 (\<lambda>v x. Uint8Array_new W v = Some x) inputs xs \<and>
     list_all2 (state_text W) states sts \<and> list_all2 (blinded_text W) blindeds bls \<and>
     list_all2 (evaluated_text W) evaluateds evs \<and> b64_decode W proof_text = Inr (Proof_to_bytes (web_core W) pf)"

lemma finalize_accepts:
  assumes W: "web_laws W"
  shows "finalize_batch W pk_text inputs states blindeds evaluateds proof_text info = Inr results \<longleftrightarrow>
    (\<exists>pk xs sts bls evs pf outs. decodes W pk_text inputs states blindeds evaluateds proof_text pk xs sts bls evs pf \<and>
      PoprfClient_finalize_batch (web_core W) (PoprfClient_new pk) xs sts evs bls pf info = Inr outs \<and>
      results = map (\<lambda>out. JsString (b64_encode W (PoprfOutput_as_bytes out))) outs)"
    (is "?lhs \<longleftrightarrow> ?rhs")
proof -
  note iffs = decode_public_key_iff [OF W] decode_entries_iff [OF W] rmap_eq_Inr_iff
    proof_codec.whole.decode_text_iff [OF web_encoding [OF W]]
  have core: "length xs = length sts \<and> length xs = length bls \<and> length xs = length evs"
    if "PoprfClient_finalize_batch (web_core W) cl xs sts evs bls pf info = Inr outs" for cl xs sts evs bls pf outs
    using that by (auto simp: PoprfClient_finalize_batch_def split: if_splits)
  show ?thesis
  proof
    assume ?lhs
    then obtain pk xs es pf outs where
      arr: "length states = length inputs" "length blindeds = length inputs" "length evaluateds = length inputs"
      and run: "decode_public_key W pk_text = Inr pk" "rmap (uint8array_to_vec W) inputs = Inr xs"
        "rmap (decode_entry W) (zip states (zip blindeds evaluateds)) = Inr es"
        "decode_text W (ascii ''proof base64: '') (ascii ''proof: '') (Proof_from_bytes (web_core W)) proof_text = Inr pf"
        "PoprfClient_finalize_batch (web_core W) (PoprfClient_new pk) xs (map fst es) (map (snd \<circ> snd) es)
           (map (fst \<circ> snd) es) pf info = Inr outs"
        "results = map (\<lambda>out. JsString (b64_encode W (PoprfOutput_as_bytes out))) outs"
      by (auto simp: finalize_batch_def rbind_eq_Inr_iff Let_def js_err_def split: if_splits)
    have "list_all2 (state_text W) states (map fst es) \<and> list_all2 (blinded_text W) blindeds (map (fst \<circ> snd) es) \<and>
        list_all2 (evaluated_text W) evaluateds (map (snd \<circ> snd) es)"
      using run(3) arr decode_entries_iff [OF W, of states blindeds evaluateds] by simp
    with run(1,2,4) have "decodes W pk_text inputs states blindeds evaluateds proof_text pk xs (map fst es)
        (map (fst \<circ> snd) es) (map (snd \<circ> snd) es) pf"
      by (simp add: decodes_def iffs)
    with run(5,6) show ?rhs by blast
  next
    assume ?rhs
    then obtain pk xs sts bls evs pf outs where
      d: "decodes W pk_text inputs states blindeds evaluateds proof_text pk xs sts bls evs pf"
      and fin: "PoprfClient_finalize_batch (web_core W) (PoprfClient_new pk) xs sts evs bls pf info = Inr outs"
      and res: "results = map (\<lambda>out. JsString (b64_encode W (PoprfOutput_as_bytes out))) outs"
      by blast
    have len: "length sts = length bls" "length evs = length bls" "length xs = length bls" using core [OF fin] by auto
    have arr: "length states = length inputs" "length blindeds = length inputs" "length evaluateds = length inputs"
      using d core [OF fin] by (auto simp: decodes_def dest!: list_all2_lengthD)
    have "rmap (decode_entry W) (zip states (zip blindeds evaluateds)) = Inr (zip sts (zip bls evs))"
      using d arr len by (subst decode_entries_iff [OF W]) (simp_all add: zip_proj decodes_def)
    moreover have "rmap (uint8array_to_vec W) inputs = Inr xs" using d by (simp add: rmap_eq_Inr_iff decodes_def)
    moreover have "decode_public_key W pk_text = Inr pk" using d by (simp add: iffs decodes_def)
    moreover have "decode_text W p q (Proof_from_bytes (web_core W)) proof_text = Inr pf" for p q
      using d by (simp add: iffs decodes_def)
    ultimately show ?lhs using arr fin len by (simp add: finalize_batch_def Let_def zip_proj res)
  qed
qed

lemma no_abort_finalize:
  assumes E: "env_laws E" and fits: "batch_fits E (length xs)"
  shows "no_abort (PoprfClient_finalize_batch E cl xs sts evs bls pf info)"
  using fits no_abort_verify [OF E, of "map evaluated_point evs" "map blinded_point bls"]
  by (auto simp: finalize_batch_spec [OF E] intro!: no_abort_rbind)

lemma finalize_throws:
  assumes W: "web_laws W" and err: "finalize_batch W pk_text inputs states blindeds evaluateds proof_text info = Inl f"
    and arrays: "\<forall>v \<in> set inputs. Uint8Array_new W v \<noteq> None"
    and fits: "length inputs \<le> 65536 \<or> \<not> debug_assertions (web_core W)"
  shows "\<exists>msg. f = Throws msg"
proof -
  have E: "env_laws (web_core W)" using W by (simp add: web_laws_def)
  have inputs: "rmap (uint8array_to_vec W) inputs \<noteq> Inl g" for g
    using arrays rmap_eq_Inl by (fastforce simp: uint8array_to_vec_def split: option.splits)
  have len: "length xs = length inputs" if "rmap (uint8array_to_vec W) inputs = Inr xs" for xs
    using that by (auto simp: rmap_eq_Inr_iff dest: list_all2_lengthD)
  have fin: "no_abort (PoprfClient_finalize_batch (web_core W) cl xs sts evs bls pf info)"
    if "rmap (uint8array_to_vec W) inputs = Inr xs" for cl xs sts evs bls pf
    using no_abort_finalize [OF E, of xs] len [OF that] fits by (auto simp: batch_fits_def)
  show ?thesis
    using err
    by (auto simp: finalize_batch_def rbind_eq_Inl_iff Let_def js_err_def inputs decode_public_key_def
        split: if_splits dest: pk_codec.decode_text_Inl proof_codec.whole.decode_text_Inl
        dest!: rmap_eq_Inl map_js_err_Inl [OF _ fin] decode_entry_Inl)
qed

text \<open>C26: \<open>finalizeBatch\<close> accepts exactly what the core crate accepts. It returns
  outputs precisely when its texts decode to a valid key, states, elements and a proof, its inputs convert
  to bytes, and the batched finalisation of these returns those outputs. Otherwise, within the bound of the
  batch index and with a constructor that does not throw, it throws a string: it never traps.\<close>

theorem wasm_finalize_exact:
  assumes W: "web_laws W"
  shows "(finalize_batch W pk_text inputs states blindeds evaluateds proof_text info = Inr results \<longleftrightarrow>
      (\<exists>pk xs sts bls evs pf outs.
        decodes W pk_text inputs states blindeds evaluateds proof_text pk xs sts bls evs pf \<and>
        PoprfClient_finalize_batch (web_core W) (PoprfClient_new pk) xs sts evs bls pf info = Inr outs \<and>
        results = map (\<lambda>out. JsString (b64_encode W (PoprfOutput_as_bytes out))) outs)) \<and>
    (finalize_batch W pk_text inputs states blindeds evaluateds proof_text info = Inl f \<and>
      (\<forall>v \<in> set inputs. Uint8Array_new W v \<noteq> None) \<and>
      (length inputs \<le> 65536 \<or> \<not> debug_assertions (web_core W)) \<longrightarrow> (\<exists>msg. f = Throws msg))"
  by (intro conjI impI finalize_accepts [OF W]) (elim conjE, rule finalize_throws [OF W])

theorem wasm_finalize_exact_witness:
  "\<exists>f. finalize_batch web3 pk3_text [JsOther [0]] [JsString []] [JsString []] [JsString []] [] [1] = Inl f \<and>
    (\<exists>msg. f = Throws msg)"
proof (cases "finalize_batch web3 pk3_text [JsOther [0]] [JsString []] [JsString []] [JsString []] [] [1]")
  case (Inl f)
  then show ?thesis using wasm_finalize_exact [OF web3_laws, THEN conjunct2] by fastforce
next
  case (Inr results)
  then have "\<exists>st. state_text web3 (JsString []) st"
    using wasm_finalize_exact [OF web3_laws, THEN conjunct1] by (fastforce simp: decodes_def list_all2_Cons1)
  then show ?thesis
    by (auto simp: text_defs bs_codec.enc_eq [OF env_lawsD(3) [OF toy_laws]] serialize_scalar_array_def
        dest: arg_cong [of _ _ length])
qed

section \<open>blindBatch, on every branch\<close>

text \<open>What is wrong with one element of the array of inputs, if anything.\<close>

definition blind_fault ::
  "('s, 'p, 't, 'h, 'r, 'j) web \<Rightarrow> 'p PoprfClient \<Rightarrow> bytes \<Rightarrow> 'j js \<Rightarrow> js_fault option" where
  "blind_fault W cl info v =
     (case Uint8Array_new W v of
        None \<Rightarrow> Some Host_exception
      | Some input \<Rightarrow>
          if 65534 < length input \<or> 65534 < length info
          then Some (Throws (ascii ''blind: '' @ ascii (error_fmt InputTooLong)))
          else if is_identity (web_core W) (client_key (web_core W) cl info) \<or>
            is_identity (web_core W) (input_element (web_core W) input)
          then Some (Throws (ascii ''blind: '' @ ascii (error_fmt InvalidInput)))
          else None)"

lemma map_js_err_Fail [simp]: "map_js_err p (Fail e) = Inl (Throws (p @ ascii (error_fmt e)))"
  by (simp add: map_js_err_def js_err_def)

lemma blind_loop_exact:
  assumes E: "env_laws (web_core W)" and gen: "\<And>rng. random_scalar (web_core W) rng \<noteq> None"
  shows "case dropWhile (\<lambda>v. blind_fault W cl info v = None) elems of
      [] \<Rightarrow> \<exists>r rng'. blind_loop W cl info rng elems = (Inr r, rng')
    | v # _ \<Rightarrow> \<exists>rng'. blind_loop W cl info rng elems = (Inl (the (blind_fault W cl info v)), rng')"
proof (induction elems arbitrary: rng)
  case (Cons v elems)
  obtain b rng1 where b: "random_scalar (web_core W) rng = Some (b, rng1)" using gen [of rng] by auto
  show ?case
  proof (cases "blind_fault W cl info v")
    case (Some f)
    then show ?thesis
      by (auto simp: blind_fault_def uint8array_to_vec_def PoprfClient_blind_def b blind_inner_spec [OF E]
          split: option.splits if_splits)
  next
    case None
    then obtain x where x: "Uint8Array_new W v = Some x"
      and ok: "\<exists>st bl. PoprfClient_blind (web_core W) cl x info rng = (Inr (st, bl), rng1)"
      by (auto simp: blind_fault_def PoprfClient_blind_def b blind_inner_spec [OF E] split: option.splits if_splits)
    then obtain st bl where "PoprfClient_blind (web_core W) cl x info rng = (Inr (st, bl), rng1)" by blast
    then show ?thesis
      using Cons.IH [of rng1] None x by (auto simp: uint8array_to_vec_def simp del: dropWhile_eq_Nil_conv split: list.splits)
  qed
qed simp

text \<open>C27: \<open>blindBatch\<close> on every branch. A key text that does not decode is reported
  before anything is drawn. Otherwise the call fails with the fault of the first element that has one: an
  exception of the host, or the string for an input or \<open>info\<close> that is too long or for a hash or
  a key that is the identity; with no such element it returns. It never traps, whatever the elements
  are.\<close>

theorem wasm_blind_exact:
  assumes W: "web_laws W" and gen: "\<And>rng. random_scalar (web_core W) rng \<noteq> None"
  shows "case decode_public_key W pk_text of
      Inl f \<Rightarrow> blind_batch W pk_text inputs info rng = (Inl f, rng) \<and> (\<exists>msg. f = Throws msg)
    | Inr pk \<Rightarrow>
        (case dropWhile (\<lambda>v. blind_fault W (PoprfClient_new pk) info v = None) inputs of
           [] \<Rightarrow> \<exists>obj rng'. blind_batch W pk_text inputs info rng = (Inr obj, rng')
         | v # _ \<Rightarrow> \<exists>rng'. blind_batch W pk_text inputs info rng =
             (Inl (the (blind_fault W (PoprfClient_new pk) info v)), rng'))"
proof (cases "decode_public_key W pk_text")
  case (Inl f)
  then show ?thesis by (auto simp: blind_batch_def decode_public_key_def dest: pk_codec.decode_text_Inl)
next
  case (Inr pk)
  have E: "env_laws (web_core W)" using W by (simp add: web_laws_def)
  from blind_loop_exact [OF E gen, where cl = "PoprfClient_new pk" and info = info and elems = inputs and rng = rng]
  show ?thesis by (auto simp: Inr blind_batch_def simp del: dropWhile_eq_Nil_conv split: list.splits)
qed

theorem wasm_blind_exact_witness:
  "\<exists>rng'. blind_batch web3 pk3_text [JsOther [0], JsString [], JsOther [2]] [1] 0 = (Inl Host_exception, rng')"
proof -
  have gen: "random_scalar E3 n \<noteq> None" for n
    by (subst toy_random_scalar) (simp add: mod_Suc)
  have "decode_public_key web3 pk3_text = Inr (PublicKey T1)"
    by (subst decode_public_key_iff [OF web3_laws])
      (simp add: PublicKey_to_bytes_def serialize_element_array_def valid_public_def)
  moreover have "blind_fault web3 (PoprfClient_new (PublicKey T1)) [1] (JsOther [0]) = None"
    "blind_fault web3 (PoprfClient_new (PublicKey T1)) [1] (JsString []) = Some Host_exception"
    by (simp_all add: blind_fault_def toy_run toy_bytes) (simp add: web3_def)
  ultimately show ?thesis
    using wasm_blind_exact [of web3 pk3_text "[JsOther [0], JsString [], JsOther [2]]" "[1]" 0] gen by simp
qed

end
