(* ===== verification/Deployment.thy ===== *)
theory Deployment
  imports C_Server Ffi_Properties Wasm_Properties
begin

text \<open>
  The three crates together, as the README of the repository deploys them: a browser that runs
  the bindings and a server written in C against the ABI, which exchange base64 texts.
\<close>

definition same_base :: "('s, 'p, 't, 'h, 'r) lib \<Rightarrow> ('s, 'p, 't, 'h, 'r, 'j) web \<Rightarrow> bool" where
  "same_base L W \<longleftrightarrow> web_core W = core L \<and> b64_encode W = B64_encode L \<and> b64_decode W = B64_decode L"

lemma texts_of_strings: "map (\<lambda>b. JsString (g b)) bs = map JsString texts \<Longrightarrow> texts = map g bs"
  by (induction bs arbitrary: texts) auto

text \<open>C6: Browser and C server understand each other. When \<open>blindBatch\<close> returns under the
  server's public key, the C program of the README, given the blinded messages, always answers: no call of
  it fails or is undefined, and it leaves every handle of the heap as it was. \<open>finalizeBatch\<close>
  accepts the texts it sends and returns, for every input, the server's own evaluation. The two crates are
  compiled against one core crate with one set of flags; they ship with different settings of
  \<open>precomputed-tables\<close>, which none of these functions reads.\<close>

theorem browser_to_c_server:
  assumes L: "lib_laws L" and W: "web_laws W" and base: "same_base L W"
    and inv: "ffi_inv L st" and key: "heap st p = Some (SecretKeyObj sk)"
    and pk: "b64_decode W pk_text = Inr (PublicKey_to_bytes (core L) (SecretKey_public_key (core L) sk))"
    and blind: "blind_batch W pk_text inputs info rng = (Inr obj, rng')"
    and msgs: "obj ''blindedMessages'' = Some (map JsString texts)" and ne: "inputs \<noteq> []"
    and fits: "length inputs \<le> 65536 \<or> \<not> debug_assertions (core L)" "random_scalar (core L) (os_rng st) \<noteq> None"
  shows "\<exists>es pt st' states xs outs. c_serve L p texts info st = Returns (Some (es, [pt]), st') \<and> heap st' = heap st \<and>
    obj ''states'' = Some states \<and> rmap (uint8array_to_vec W) inputs = Inr xs \<and>
    rmap (\<lambda>x. PoprfServer_evaluate (core L) (PoprfServer_new sk) x info) xs = Inr outs \<and>
    finalize_batch W pk_text inputs states (map JsString texts) (map JsString es) pt info =
      Inr (map (\<lambda>out. JsString (B64_encode L (PoprfOutput_as_bytes out))) outs)"
proof -
  let ?E = "core L" and ?srv = "PoprfServer_new sk"
  have E: "env_laws ?E" by (rule core_laws [OF L])
  have W_eqs: "web_core W = ?E" "b64_encode W = B64_encode L" "b64_decode W = B64_decode L"
    using base by (simp_all add: same_base_def)
  have pk': "b64_decode W pk_text = Inr (PublicKey_to_bytes (web_core W) (PoprfServer_public_key (web_core W) ?srv))"
    using pk by (simp add: W_eqs PoprfServer_public_key_def PoprfServer_new_def)
  obtain xs sts bls where made: "rmap (uint8array_to_vec W) inputs = Inr xs"
    "blinded_batch ?E (client_of ?E ?srv) info xs sts bls"
    "\<forall>st \<in> set sts. \<not> is_identity ?E (bs_tweaked_key st)" "\<forall>b \<in> set bls. valid_blinded ?E b"
    "obj ''states'' = Some (map (\<lambda>st. JsString (B64_encode L (PoprfBlindState_to_bytes ?E st))) sts)"
    "obj ''blindedMessages'' = Some (map (\<lambda>b. JsString (B64_encode L (BlindedElement_to_bytes ?E b))) bls)"
    and dec: "decode_public_key W pk_text = Inr (PoprfServer_public_key ?E ?srv)"
    using blind_batch_made [OF W pk' blind] unfolding W_eqs by blast
  have len: "length xs = length inputs" "length bls = length inputs"
    using made(1,2) by (auto simp: rmap_eq_Inr_iff blinded_batch_def dest: list_all2_lengthD)
  then have xs: "xs \<noteq> []" and bls: "bls \<noteq> []" using ne by auto
  have texts: "texts = map (\<lambda>b. B64_encode L (BlindedElement_to_bytes ?E b)) bls"
    by (rule texts_of_strings [OF made(6) [unfolded msgs option.inject, symmetric]])
  have "\<forall>bs. B64_decode L (B64_encode L bs) = Inr bs" using L by (simp add: lib_laws_def b64_laws_def)
  then have sent: "list_all2 (\<lambda>t b. B64_decode L t = Inr (BlindedElement_to_bytes ?E b) \<and> valid_blinded ?E b) texts bls"
    using made(4) by (simp add: texts list.rel_map list_all2_same)
  obtain r rng1 where r: "random_scalar ?E (os_rng st) = Some (r, rng1)" using fits(2) by auto
  obtain evs pf where eval: "PoprfServer_blind_evaluate_batch ?E ?srv (os_rng st) bls info = (Inr (evs, pf), rng1)"
    using batch_completes [OF E made(2) xs _ r] fits(1) len by auto
  obtain st' where serve: "c_serve L p texts info st =
      Returns (Some (map (\<lambda>ev. B64_encode L (EvaluatedElement_to_bytes ?E ev)) evs, [B64_encode L (Proof_to_bytes ?E pf)]), st')"
    "heap st' = heap st"
    using c_serve_ok [OF L inv key sent bls _ fits(2) eval] fits(1) len by auto
  note fin = finalize_batch_texts [OF W, unfolded W_eqs, OF dec made(1-4) eval]
  have "finalize_batch W pk_text inputs (map (\<lambda>st. JsString (B64_encode L (PoprfBlindState_to_bytes ?E st))) sts)
      (map JsString texts) (map JsString (map (\<lambda>ev. B64_encode L (EvaluatedElement_to_bytes ?E ev)) evs))
      (B64_encode L (Proof_to_bytes ?E pf)) info =
    Inr (map (\<lambda>out. JsString (B64_encode L (PoprfOutput_as_bytes out))) (map (\<lambda>x. poprf ?E ?srv x info) xs))"
    using fin by (simp add: texts comp_def)
  with serve made(5,1) fin [THEN conjunct2] show ?thesis by blast
qed

definition web4 :: "(tri, tri, tri, bytes, nat, bytes) web" where
  "web4 = \<lparr> web_core = E3, b64_encode = B64_encode lib3, b64_decode = B64_decode lib3,
     Uint8Array_new = (\<lambda>v. case v of JsOther b \<Rightarrow> Some b | JsString s \<Rightarrow> None) \<rparr>"

lemma web4_fields [simp]:
  "web_core web4 = E3" "b64_encode web4 = B64_encode lib3" "b64_decode web4 = B64_decode lib3"
  "Uint8Array_new web4 (JsOther b) = Some b"
  by (simp_all add: web4_def)

lemma lib3_b64 [simp]: "B64_decode lib3 (B64_encode lib3 bs) = Inr bs"
  using lib3_laws by (simp add: lib_laws_def b64_laws_def)

theorem browser_to_c_server_witness:
  "\<exists>obj texts es pt st' states out.
    fst (blind_batch web4 (B64_encode lib3 (tri_encode T1)) [JsOther [0]] [1] 0) = Inr obj \<and>
    c_serve lib3 1 texts [1] ffi3 = Returns (Some (es, [pt]), st') \<and> heap st' = heap ffi3 \<and>
    obj ''states'' = Some states \<and> PoprfServer_evaluate E3 srv3 [0] [1] = Inr out \<and>
    finalize_batch web4 (B64_encode lib3 (tri_encode T1)) [JsOther [0]] states (map JsString texts) (map JsString es) pt [1] =
      Inr [JsString (B64_encode lib3 (output_bytes out))]"
proof -
  let ?pk = "B64_encode lib3 (tri_encode T1)"
  let ?texts = "[B64_encode lib3 (BlindedElement_to_bytes E3 (BlindedElement T1))]"
  let ?obj = "[''states'' \<mapsto> [JsString (B64_encode lib3 (PoprfBlindState_to_bytes E3 st3))],
    ''blindedMessages'' \<mapsto> map JsString ?texts] :: string \<rightharpoonup> bytes js list"
  have pk: "PublicKey_to_bytes E3 (SecretKey_public_key E3 (SecretKey T1)) = tri_encode T1"
    by (simp add: PublicKey_to_bytes_def serialize_element_array_def SecretKey_public_key_def)
  have W: "web_laws web4" by (simp add: web_laws_def)
  have "decode_public_key web4 ?pk = Inr (SecretKey_public_key E3 (SecretKey T1))"
    using decode_public_key_iff [OF W, of ?pk "SecretKey_public_key E3 (SecretKey T1)"] pk
    by (simp add: valid_public_def SecretKey_public_key_def)
  then have blind: "blind_batch web4 ?pk [JsOther [0]] [1] 0 = (Inr ?obj, 2)"
    using toy_blind
    by (simp add: blind_batch_def uint8array_to_vec_def PoprfServer_public_key_def PoprfServer_new_def del: toy_random_scalar)
  have "same_base lib3 web4" by (simp add: same_base_def)
  from browser_to_c_server [OF lib3_laws W this ffi3_inv, of 1 "SecretKey T1", OF _ _ blind, of ?texts]
  obtain es pt st' states xs outs where run: "c_serve lib3 1 ?texts [1] ffi3 = Returns (Some (es, [pt]), st')" "heap st' = heap ffi3"
    "?obj ''states'' = Some states" "rmap (uint8array_to_vec web4) [JsOther [0]] = Inr xs"
    "rmap (\<lambda>x. PoprfServer_evaluate E3 srv3 x [1]) xs = Inr outs"
    "finalize_batch web4 ?pk [JsOther [0]] states (map JsString ?texts) (map JsString es) pt [1] =
      Inr (map (\<lambda>out. JsString (B64_encode lib3 (PoprfOutput_as_bytes out))) outs)"
    using pk by auto
  then obtain out where "outs = [out]" "PoprfServer_evaluate E3 srv3 [0] [1] = Inr out"
    by (auto simp: uint8array_to_vec_def rbind_eq_Inr_iff)
  then show ?thesis using run blind by (fastforce simp: PoprfOutput_as_bytes_def)
qed

end
