(* ===== verification/Handshake.thy ===== *)
theory Handshake
  imports Protocol
begin

text \<open>
  \<open>poprf-ristretto/examples/poprf_handshake.rs\<close>: the example program, which runs the whole
  protocol in one process. The program is the lines it prints and how it ends: \<open>main\<close> returns, or
  an \<open>unwrap\<close>, an \<open>expect\<close> or an assertion panics.
\<close>

section \<open>The program\<close>

text \<open>\<open>Result::unwrap\<close> and \<open>Result::expect\<close>: an error becomes a panic.\<close>

fun unwrap :: "'a res \<Rightarrow> 'a res" where
  "unwrap (Inl (Err e)) = panic"
| "unwrap r = r"

type_synonym program = "string list \<times> unit res"

fun run :: "'a res \<Rightarrow> ('a \<Rightarrow> program) \<Rightarrow> program" where
  "run (Inl f) k = ([], Inl f)"
| "run (Inr x) k = k x"

definition println :: "string \<Rightarrow> program \<Rightarrow> program" where
  "println s p = (s # fst p, snd p)"

definition assert :: "bool \<Rightarrow> program \<Rightarrow> program" where
  "assert b p = (if b then p else ([], panic))"

definition hex :: "bytes \<Rightarrow> string" where
  "hex b = foldl (\<lambda>s byte. s @ fmt_02x byte) [] b"

definition handshake_main :: "('s, 'p, 't, 'h, 'r) env \<Rightarrow> 'r \<Rightarrow> program" where
  "handshake_main E rng =
     (case PoprfServer_generate E rng of (r, rng) \<Rightarrow>
      run r (\<lambda>server.
      let client = PoprfClient_new (PoprfServer_public_key E server);
          input = ascii ''private input'';
          info = ascii ''public info'' in
      case PoprfClient_blind E client input info rng of (r, rng) \<Rightarrow>
      run (unwrap r) (\<lambda>(state, blinded).
      case PoprfServer_blind_evaluate E server rng blinded info of (r, rng) \<Rightarrow>
      run (unwrap r) (\<lambda>(evaluated, proof').
      run (unwrap (PoprfClient_finalize E client input state evaluated blinded proof' info)) (\<lambda>out.
      println (''output: '' @ hex (PoprfOutput_as_bytes out)) (
      run (unwrap (PoprfServer_evaluate E server input info)) (\<lambda>direct.
      assert (PoprfOutput_eq E out direct) (
      println ''matches offline Evaluate: ok'' (
      run (unwrap (PoprfServer_evaluate E server input (ascii ''different info''))) (\<lambda>other.
      assert (\<not> PoprfOutput_eq E out other) (
      println ''different info produces different output: ok'' ([], Inr ()))))))))))))"

section \<open>Lemmas\<close>

lemma hex_eq: "hex b = fmt_hex b"
proof -
  have "foldl (\<lambda>s byte. s @ fmt_02x byte) acc b = acc @ fmt_hex b" for acc
    by (induction b arbitrary: acc) (simp_all add: fmt_hex_def)
  then show ?thesis by (simp add: hex_def)
qed

lemma unwrap_Inr [simp]: "unwrap r = Inr x \<longleftrightarrow> r = Inr x"
  by (cases r rule: unwrap.cases) simp_all

lemma output_eq_iff: "env_laws E \<Longrightarrow> PoprfOutput_eq E a b \<longleftrightarrow> a = b"
  by (cases a; cases b) (simp add: PoprfOutput_eq_def env_lawsD)

section \<open>Property\<close>

text \<open>C29: What the example program prints. For every secret key, blind and proof randomness the
  generator yields, the client's output is printed, the offline evaluation agrees with it, and the
  evaluation under the other \<open>info\<close> differs: the program panics only when the input hashes to
  the identity, a tweaked key is zero, or SHA-512 gives the two evaluations one output.\<close>

theorem handshake_outcome:
  assumes E: "env_laws E"
    and draws: "random_scalar E rng = Some (k, rng1)" "random_scalar E rng1 = Some (b, rng2)"
      "random_scalar E rng2 = Some (r, rng3)"
  defines "srv \<equiv> PoprfServer_new (SecretKey k)" and "input \<equiv> ascii ''private input''"
    and "info \<equiv> ascii ''public info''" and "info' \<equiv> ascii ''different info''"
  shows "handshake_main E rng =
    (if is_identity E (input_element E input) \<or> scalar_is_zero E (server_t E srv info) then ([], panic)
     else
       let lines = [''output: '' @ fmt_hex (output_bytes (poprf E srv input info)), ''matches offline Evaluate: ok''] in
       if scalar_is_zero E (server_t E srv info') \<or> poprf E srv input info' = poprf E srv input info
       then (lines, panic)
       else (lines @ [''different info produces different output: ok''], Inr ()))"
proof -
  have gen: "PoprfServer_generate E rng = (Inr srv, rng1)"
    by (simp add: PoprfServer_generate_def generate_key_pair_def draws(1) srv_def Let_def)
  have len: "length input = 13" "length info = 11" "length info' = 14"
    by (simp_all add: input_def info_def info'_def)
  show ?thesis
  proof (cases "is_identity E (input_element E input) \<or> scalar_is_zero E (server_t E srv info)")
    case True
    then have "PoprfClient_blind E (client_of E srv) input info rng1 = (Fail InvalidInput, rng2)"
      using len by (auto simp: PoprfClient_blind_def draws(2) blind_inner_spec [OF E] client_key_identity [OF E])
    then show ?thesis
      using True gen by (simp add: handshake_main_def Let_def flip: input_def info_def)
  next
    case False
    obtain st bl ev pf where call:
      "PoprfClient_blind E (client_of E srv) input info rng1 = (Inr (st, bl), rng2)"
      "PoprfServer_blind_evaluate E srv rng2 bl info = (Inr (ev, pf), rng3)"
      "PoprfClient_finalize E (client_of E srv) input st ev bl pf info = Inr (poprf E srv input info)"
      using single_run_completes [OF E, of input info srv rng1 b rng2 rng2 r rng3] False draws(2,3) len by auto
    then show ?thesis
      using False gen len
      by (simp add: handshake_main_def Let_def evaluate_spec [OF E] output_eq_iff [OF E] println_def assert_def
          PoprfOutput_as_bytes_def hex_eq flip: input_def info_def info'_def)
  qed
qed

text \<open>
  The witness runs to the end: the environment of \<open>Toy\<close> with another hash expansion, under
  which both tweaked keys of the secret key 2 are non-zero.
\<close>

definition E4 :: "(tri, tri, tri, bytes, nat) env" where
  "E4 = E3\<lparr>expand_message_xmd := \<lambda>msgs. toy_expand ([1] # msgs)\<rparr>"

lemma E4_laws [simp]: "env_laws E4"
  unfolding E4_def
  by (rule expand_laws [OF toy_laws]) (auto simp: hash_laws_def toy_def toy_expand_def pad64_def)

lemma E4_random: "random_scalar E4 n =
    (if n mod 3 = 0 then random_scalar E4 (Suc n) else Some (if n mod 3 = 1 then T1 else T2, Suc n))"
  by (subst random_scalar.simps) (simp add: E4_def toy_random_def group_defs)

lemma E4_ops [simp]:
  "hash_scalar E4 msg dst = tri_of_byte (1 + sum_list msg + of_nat (length dst))"
  "hash_group E4 msg dst = tri_of_byte (1 + sum_list msg + of_nat (length dst))"
  "scalar_add E4 = tri_add" "scalar_mul E4 = tri_mul" "scalar_invert E4 = (\<lambda>a. a)"
  "scalar_is_zero E4 a \<longleftrightarrow> a = T0" "is_identity E4 P \<longleftrightarrow> P = T0"
  "serialize_element E4 = tri_encode" "sha512 E4 = pad64"
  by (auto simp: E4_def group_defs fun_eq_iff serialize_element_def sha512_def hash_scalar_def hash_group_def
      toy_expand_def) (simp_all add: toy_def)

theorem handshake_outcome_witness:
  "\<exists>line. handshake_main E4 2 =
     ([line, ''matches offline Evaluate: ok'', ''different info produces different output: ok''], Inr ())"
proof -
  have "random_scalar E4 2 = Some (T2, 3)" "random_scalar E4 3 = Some (T1, 5)" "random_scalar E4 5 = Some (T2, 6)"
    by (simp_all add: E4_random)
  note outcome = handshake_outcome [OF E4_laws this]
  show ?thesis unfolding outcome
    by (simp add: input_element_def tweak_def toy_run toy_bytes pad64_def poprf_def finalize_transcript_def)
qed

end
