(* ===== verification/Tests.thy ===== *)
theory Tests
  imports Handshake
begin

text \<open>
  Tests of the core crate as programs: the quick start of \<open>poprf-ristretto/src/lib.rs\<close>, which is compiled
  and run as a documentation test, and tests of \<open>poprf-ristretto/tests/roundtrip.rs\<close> and
  \<open>negative.rs\<close>. A test passes when it returns and fails when it panics. The tests run the public
  functions of the model in the order of the source, on the random numbers of one generator.
\<close>

section \<open>Assertions and calls that draw random numbers\<close>

text \<open>\<open>Result::unwrap_err\<close>, and the comparison of the error with the expected one.\<close>

fun unwrap_err :: "'a res \<Rightarrow> error res" where
  "unwrap_err (Inr x) = panic"
| "unwrap_err (Inl (Err e)) = Inr e"
| "unwrap_err (Inl f) = Inl f"

definition assert_err :: "'a res \<Rightarrow> error \<Rightarrow> unit res" where
  "assert_err r e = rbind (unwrap_err r) (\<lambda>err. assert_eq err e)"

fun and_then :: "'a res \<times> 'r \<Rightarrow> ('a \<Rightarrow> 'r \<Rightarrow> unit res) \<Rightarrow> unit res" where
  "and_then (r, rng) k = rbind (unwrap r) (\<lambda>x. k x rng)"

section \<open>lib.rs\<close>

definition quick_start :: "('s, 'p, 't, 'h, 'r) env \<Rightarrow> 'r \<Rightarrow> unit res" where
  "quick_start E rng =
     and_then (PoprfServer_generate E rng) (\<lambda>server rng.
     let client = PoprfClient_new (PoprfServer_public_key E server);
         input = ascii ''my secret input'';
         info = ascii ''public context'' in
     and_then (PoprfClient_blind E client input info rng) (\<lambda>(state, blinded) rng.
     and_then (PoprfServer_blind_evaluate E server rng blinded info) (\<lambda>(evaluated, proof') rng.
     rbind (unwrap (PoprfClient_finalize E client input state evaluated blinded proof' info)) (\<lambda>output.
     rbind (unwrap (PoprfServer_evaluate E server input info)) (\<lambda>direct.
     if PoprfOutput_eq E output direct then Inr () else panic)))))"

section \<open>roundtrip.rs\<close>

definition poprf_random_roundtrip :: "('s, 'p, 't, 'h, 'r) env \<Rightarrow> 'r \<Rightarrow> unit res" where
  "poprf_random_roundtrip E rng =
     and_then (PoprfServer_generate E rng) (\<lambda>server rng.
     let client = PoprfClient_new (PoprfServer_public_key E server);
         input = ascii ''poprf-input'';
         info = ascii ''public-info'' in
     and_then (PoprfClient_blind E client input info rng) (\<lambda>(state, blinded) rng.
     and_then (PoprfServer_blind_evaluate E server rng blinded info) (\<lambda>(evaluated, proof') rng.
     rbind (unwrap (PoprfClient_finalize E client input state evaluated blinded proof' info)) (\<lambda>out.
     rbind (unwrap (PoprfServer_evaluate E server input info)) (\<lambda>direct.
     if PoprfOutput_eq E out direct then Inr () else panic)))))"

text \<open>The loop that blinds every input, and the one that compares every output.\<close>

fun blind_inputs :: "('s, 'p, 't, 'h, 'r) env \<Rightarrow> 'p PoprfClient \<Rightarrow> bytes \<Rightarrow> bytes list \<Rightarrow> 'r \<Rightarrow>
    (('s, 'p) PoprfBlindState list \<times> 'p BlindedElement list) res \<times> 'r" where
  "blind_inputs E client info [] rng = (Inr ([], []), rng)"
| "blind_inputs E client info (inp # inps) rng =
     (case PoprfClient_blind E client inp info rng of
        (r, rng) \<Rightarrow>
          (case unwrap r of
             Inl f \<Rightarrow> (Inl f, rng)
           | Inr (s, b) \<Rightarrow>
               (case blind_inputs E client info inps rng of
                  (r, rng) \<Rightarrow> (rbind r (\<lambda>(states, blindeds). Inr (s # states, b # blindeds)), rng))))"

fun compare_outputs :: "('s, 'p, 't, 'h, 'r) env \<Rightarrow> 's PoprfServer \<Rightarrow> bytes \<Rightarrow> (PoprfOutput \<times> bytes) list \<Rightarrow> unit res" where
  "compare_outputs E server info [] = Inr ()"
| "compare_outputs E server info ((output, inp) # rest) =
     rbind (unwrap (PoprfServer_evaluate E server inp info)) (\<lambda>direct.
     if PoprfOutput_eq E output direct then compare_outputs E server info rest else panic)"

definition poprf_batch_roundtrip :: "('s, 'p, 't, 'h, 'r) env \<Rightarrow> 'r \<Rightarrow> unit res" where
  "poprf_batch_roundtrip E rng =
     and_then (PoprfServer_generate E rng) (\<lambda>server rng.
     let client = PoprfClient_new (PoprfServer_public_key E server);
         info = ascii ''batch-info'';
         inputs_raw = [ascii ''alpha'', ascii ''beta'', ascii ''gamma''] in
     and_then (blind_inputs E client info inputs_raw rng) (\<lambda>(states, blindeds) rng.
     and_then (PoprfServer_blind_evaluate_batch E server rng blindeds info) (\<lambda>(evals, proof') rng.
     rbind (unwrap (PoprfClient_finalize_batch E client inputs_raw states evals blindeds proof' info)) (\<lambda>outputs.
     compare_outputs E server info (zip outputs inputs_raw)))))"

definition secret_key_roundtrip :: "('s, 'p, 't, 'h, 'r) env \<Rightarrow> 'r \<Rightarrow> unit res" where
  "secret_key_roundtrip E rng =
     and_then (PoprfServer_generate E rng) (\<lambda>server rng.
     let bytes = SecretKey_to_bytes E (PoprfServer_secret_key server) in
     rbind (unwrap (SecretKey_from_bytes E bytes)) (\<lambda>parsed.
     rbind (assert_eq (SecretKey_to_bytes E parsed) bytes) (\<lambda>_.
     if Point_ct_eq E (public_point (SecretKey_public_key E parsed)) (public_point (PoprfServer_public_key E server)) then Inr () else panic)))"

definition blind_state_roundtrip_and_finalize :: "('s, 'p, 't, 'h, 'r) env \<Rightarrow> 'r \<Rightarrow> unit res" where
  "blind_state_roundtrip_and_finalize E rng =
     and_then (PoprfServer_generate E rng) (\<lambda>server rng.
     let client = PoprfClient_new (PoprfServer_public_key E server);
         info = ascii ''info'';
         input = ascii ''persisted-input'' in
     and_then (PoprfClient_blind E client input info rng) (\<lambda>(state, blinded) rng.
     and_then (PoprfServer_blind_evaluate E server rng blinded info) (\<lambda>(evaluated, proof') rng.
     let bytes = PoprfBlindState_to_bytes E state in
     rbind (assert_eq (length bytes) PoprfBlindState_LEN) (\<lambda>_.
     rbind (unwrap (PoprfBlindState_from_bytes E bytes)) (\<lambda>restored.
     rbind (unwrap (PoprfClient_finalize E client input state evaluated blinded proof' info)) (\<lambda>out_a.
     rbind (unwrap (PoprfClient_finalize E client input restored evaluated blinded proof' info)) (\<lambda>out_b.
     if PoprfOutput_eq E out_a out_b then
       rbind (unwrap (PoprfServer_evaluate E server input info)) (\<lambda>direct.
       if PoprfOutput_eq E out_a direct then Inr () else panic)
     else panic)))))))"

section \<open>negative.rs\<close>

definition finalize_batch_rejects_mismatched_lengths :: "('s, 'p, 't, 'h, 'r) env \<Rightarrow> 'r \<Rightarrow> unit res" where
  "finalize_batch_rejects_mismatched_lengths E rng =
     and_then (PoprfServer_generate E rng) (\<lambda>server rng.
     let client = PoprfClient_new (PoprfServer_public_key E server);
         info = ascii ''info'' in
     and_then (PoprfClient_blind E client (ascii ''x'') info rng) (\<lambda>(state, blinded) rng.
     and_then (PoprfServer_blind_evaluate_batch E server rng [blinded] info) (\<lambda>(evals, proof') rng.
     assert_err (PoprfClient_finalize_batch E client [ascii ''x'', ascii ''y''] [state] evals [blinded] proof' info)
       LengthMismatch)))"

text \<open>The secret key is the negated tweak of \<open>info\<close>, which the test computes with the libraries.\<close>

definition blind_evaluate_rejects_inverse_zero :: "('s, 'p, 't, 'h, 'r) env \<Rightarrow> 'r \<Rightarrow> unit res" where
  "blind_evaluate_rejects_inverse_zero E rng =
     (let info = ascii ''trigger-inverse'';
          ctx = ascii ''OPRFV1-'' @ [0x02] @ ascii ''-ristretto255-SHA512'';
          dst = ascii ''HashToScalar-'' @ ctx;
          len_bytes = to_be_bytes (word_of_nat (length info));
          framed = concat [ascii ''Info'', len_bytes, info] in
      case expand_message_xmd E [framed] [dst] 64 of
        None \<Rightarrow> panic
      | Some uniform \<Rightarrow>
          let m = Scalar_from_bytes_mod_order_wide E uniform;
              sk_scalar = Scalar_sub E (Scalar_ZERO E) m;
              sk_bytes = Scalar_to_bytes E sk_scalar in
          rbind (unwrap (SecretKey_from_bytes E sk_bytes)) (\<lambda>sk.
          let server = PoprfServer_new sk;
              dummy_client = PoprfClient_new (PoprfServer_public_key E server) in
          and_then (PoprfClient_blind E dummy_client (ascii ''any-input'') (ascii ''other-info'') rng)
            (\<lambda>(_, blinded) rng.
          case PoprfServer_blind_evaluate E server rng blinded info of (r, rng) \<Rightarrow>
          rbind (assert_err r Inverse) (\<lambda>_.
          rbind (assert_err (PoprfServer_evaluate E server (ascii ''any-input'') info) Inverse) (\<lambda>_.
          rbind (unwrap (PoprfInputTable_new E (ascii ''any-input''))) (\<lambda>table.
          assert_err (PoprfServer_evaluate_tables E server [table] info) Inverse))))))"

definition finalize_batch_rejects_mismatched_tweaked_key :: "('s, 'p, 't, 'h, 'r) env \<Rightarrow> 'r \<Rightarrow> unit res" where
  "finalize_batch_rejects_mismatched_tweaked_key E rng =
     and_then (PoprfServer_generate E rng) (\<lambda>server rng.
     let client = PoprfClient_new (PoprfServer_public_key E server);
         info_a = ascii ''info-a'';
         info_b = ascii ''info-b'' in
     and_then (PoprfClient_blind E client (ascii ''alpha'') info_a rng) (\<lambda>(state_a, blinded_a) rng.
     and_then (PoprfServer_blind_evaluate E server rng blinded_a info_a) (\<lambda>(evaluated_a, proof_a) rng.
     and_then (PoprfClient_blind E client (ascii ''beta'') info_b rng) (\<lambda>(state_b, blinded_b) rng.
     and_then (PoprfServer_blind_evaluate E server rng blinded_b info_b) (\<lambda>(evaluated_b, _) rng.
     assert_err
       (PoprfClient_finalize_batch E client [ascii ''alpha'', ascii ''beta''] [state_a, state_b]
          [evaluated_a, evaluated_b] [blinded_a, blinded_b] proof_a info_a)
       InconsistentState)))))"

definition accepts_maximum_input_and_info_lengths :: "('s, 'p, 't, 'h, 'r) env \<Rightarrow> 'r \<Rightarrow> unit res" where
  "accepts_maximum_input_and_info_lengths E rng =
     (let max_ok = replicate (2 ^ 16 - 2) 0x42 in
      and_then (PoprfServer_generate E rng) (\<lambda>server rng.
      let client = PoprfClient_new (PoprfServer_public_key E server) in
      and_then (PoprfClient_blind E client max_ok max_ok rng) (\<lambda>(state, blinded) rng.
      and_then (PoprfServer_blind_evaluate E server rng blinded max_ok) (\<lambda>(evaluated, proof') rng.
      rbind (unwrap (PoprfClient_finalize E client max_ok state evaluated blinded proof' max_ok)) (\<lambda>out.
      rbind (unwrap (PoprfServer_evaluate E server max_ok max_ok)) (\<lambda>direct.
      if PoprfOutput_eq E out direct then
        rbind (unwrap (PoprfInputTable_new E max_ok)) (\<lambda>table.
        rbind (unwrap (PoprfServer_evaluate_tables E server [table] max_ok)) (\<lambda>outs.
        if list_all2 (PoprfOutput_eq E) outs [direct] then Inr () else panic))
      else panic))))))"

section \<open>The calls of a test\<close>

text \<open>What chance decides: that no input hashes to the identity and that no tweaked key is zero.\<close>

definition lucky :: "('s, 'p, 't, 'h, 'r) env \<Rightarrow> 's PoprfServer \<Rightarrow> bytes list \<Rightarrow> bytes list \<Rightarrow> bool" where
  "lucky E srv inputs infos \<longleftrightarrow> (\<forall>x \<in> set inputs. \<not> is_identity E (input_element E x)) \<and>
     (\<forall>info \<in> set infos. \<not> scalar_is_zero E (server_t E srv info))"

lemma lucky_simps [simp]:
  "lucky E srv [] [] \<longleftrightarrow> True"
  "lucky E srv (x # xs) infos \<longleftrightarrow> \<not> is_identity E (input_element E x) \<and> lucky E srv xs infos"
  "lucky E srv [] (info # infos) \<longleftrightarrow> \<not> scalar_is_zero E (server_t E srv info) \<and> lucky E srv [] infos"
  by (auto simp: lucky_def)

lemma unwrap_value [simp]: "unwrap (Inr x) = Inr x"
  by simp

lemma blinding_call:
  assumes E: "env_laws E" and gen: "\<And>rng. random_scalar E rng \<noteq> None"
    and len: "length input \<le> 65534" "length info \<le> 65534"
    and input: "\<not> is_identity E (input_element E input)" and key: "\<not> scalar_is_zero E (server_t E srv info)"
  shows "\<exists>st bl rng'. PoprfClient_blind E (client_of E srv) input info rng = (Inr (st, bl), rng')"
proof -
  obtain b rng' where "random_scalar E rng = Some (b, rng')" using gen [of rng] by auto
  then show ?thesis
    using len input key by (simp add: PoprfClient_blind_def blind_inner_spec [OF E] client_key_identity [OF E])
qed

lemma whole_run:
  assumes E: "env_laws E" and gen: "\<And>rng. random_scalar E rng \<noteq> None"
    and len: "length input \<le> 65534" "length info \<le> 65534"
    and input: "\<not> is_identity E (input_element E input)" and key: "\<not> scalar_is_zero E (server_t E srv info)"
  shows "\<exists>st bl rng1 ev pf rng2. PoprfClient_blind E (client_of E srv) input info rng = (Inr (st, bl), rng1) \<and>
    PoprfServer_blind_evaluate E srv rng1 bl info = (Inr (ev, pf), rng2) \<and>
    PoprfClient_finalize E (client_of E srv) input st ev bl pf info = Inr (poprf E srv input info) \<and>
    PoprfServer_evaluate E srv input info = Inr (poprf E srv input info)"
proof -
  obtain b rng1 where b: "random_scalar E rng = Some (b, rng1)" using gen [of rng] by auto
  obtain r rng2 where r: "random_scalar E rng1 = Some (r, rng2)" using gen [of rng1] by auto
  from single_run_completes [OF E len input key b r] show ?thesis
    using evaluation_of_run [OF E _ key] by blast
qed

lemma blind_inputs_call:
  assumes E: "env_laws E" and gen: "\<And>rng. random_scalar E rng \<noteq> None"
    and len: "length info \<le> 65534" and key: "\<not> scalar_is_zero E (server_t E srv info)"
  shows "\<forall>x \<in> set inputs. length x \<le> 65534 \<and> \<not> is_identity E (input_element E x) \<Longrightarrow>
    \<exists>sts bls rng'. blind_inputs E (client_of E srv) info inputs rng = (Inr (sts, bls), rng') \<and>
      blinded_batch E (client_of E srv) info inputs sts bls"
proof (induction inputs arbitrary: rng)
  case Nil
  then show ?case by (simp add: blinded_batch_def)
next
  case (Cons x xs)
  then obtain st bl rng1 where call: "PoprfClient_blind E (client_of E srv) x info rng = (Inr (st, bl), rng1)"
    using blinding_call [OF E gen _ len _ key] by (meson list.set_intros(1))
  from Cons obtain sts bls rng2 where rest: "blind_inputs E (client_of E srv) info xs rng1 = (Inr (sts, bls), rng2)"
    "blinded_batch E (client_of E srv) info xs sts bls" by (meson list.set_intros(2))
  from call rest(2) have "blinded_batch E (client_of E srv) info (x # xs) (st # sts) (bl # bls)"
    by (auto simp: blinded_batch_def nth_Cons split: nat.splits)
  with call rest(1) show ?case by simp
qed

lemma generate_call:
  assumes "random_scalar E rng = Some (k, rng1)"
  shows "PoprfServer_generate E rng = (Inr (PoprfServer_new (SecretKey k)), rng1)"
  by (simp add: PoprfServer_generate_def generate_key_pair_def assms Let_def)

section \<open>The tests pass\<close>

lemma quick_start_passes:
  assumes E: "env_laws E" and gen: "\<And>rng. random_scalar E rng \<noteq> None" and draw: "random_scalar E rng = Some (k, rng1)"
    and lucky: "lucky E (PoprfServer_new (SecretKey k)) [ascii ''my secret input''] [ascii ''public context'']"
  shows "quick_start E rng = Inr ()"
  using whole_run [OF E gen, of "ascii ''my secret input''" "ascii ''public context''" "PoprfServer_new (SecretKey k)" rng1] lucky
  by (auto simp: quick_start_def generate_call [OF draw] output_eq_iff [OF E] Let_def)

lemma random_roundtrip_passes:
  assumes E: "env_laws E" and gen: "\<And>rng. random_scalar E rng \<noteq> None" and draw: "random_scalar E rng = Some (k, rng1)"
    and lucky: "lucky E (PoprfServer_new (SecretKey k)) [ascii ''poprf-input''] [ascii ''public-info'']"
  shows "poprf_random_roundtrip E rng = Inr ()"
  using whole_run [OF E gen, of "ascii ''poprf-input''" "ascii ''public-info''" "PoprfServer_new (SecretKey k)" rng1] lucky
  by (auto simp: poprf_random_roundtrip_def generate_call [OF draw] output_eq_iff [OF E] Let_def)

lemma compare_outputs_passes:
  assumes E: "env_laws E" and "\<forall>x \<in> set inputs. PoprfServer_evaluate E srv x info = Inr (f x)"
  shows "compare_outputs E srv info (zip (map f inputs) inputs) = Inr ()"
  using assms(2) by (induction inputs) (simp_all add: output_eq_iff [OF E])

lemma batch_roundtrip_passes:
  assumes E: "env_laws E" and gen: "\<And>rng. random_scalar E rng \<noteq> None" and draw: "random_scalar E rng = Some (k, rng1)"
    and lucky: "lucky E (PoprfServer_new (SecretKey k)) [ascii ''alpha'', ascii ''beta'', ascii ''gamma''] [ascii ''batch-info'']"
  shows "poprf_batch_roundtrip E rng = Inr ()"
proof -
  let ?srv = "PoprfServer_new (SecretKey k)" and ?info = "ascii ''batch-info''"
  define inputs where "inputs = [ascii ''alpha'', ascii ''beta'', ascii ''gamma'']"
  have good: "\<forall>x \<in> set inputs. length x \<le> 65534 \<and> \<not> is_identity E (input_element E x)"
    and key: "\<not> scalar_is_zero E (server_t E ?srv ?info)"
    using lucky by (simp_all add: inputs_def)
  obtain sts bls rng2 where blind: "blind_inputs E (client_of E ?srv) ?info inputs rng1 = (Inr (sts, bls), rng2)"
    and bb: "blinded_batch E (client_of E ?srv) ?info inputs sts bls"
    using blind_inputs_call [OF E gen _ key good, where rng = rng1] by auto
  obtain r rng3 where "random_scalar E rng2 = Some (r, rng3)" using gen [of rng2] by auto
  from batch_completes [OF E bb _ _ this] obtain evs pf where
    "PoprfServer_blind_evaluate_batch E ?srv rng2 bls ?info = (Inr (evs, pf), rng3)"
    "PoprfClient_finalize_batch E (client_of E ?srv) inputs sts evs bls pf ?info = Inr (map (\<lambda>x. poprf E ?srv x ?info) inputs)"
    by (auto simp: inputs_def)
  moreover have "\<forall>x \<in> set inputs. PoprfServer_evaluate E ?srv x ?info = Inr (poprf E ?srv x ?info)"
    using good key by (auto simp: evaluate_spec [OF E] not_less)
  ultimately show ?thesis
    using blind compare_outputs_passes [OF E]
    by (simp add: poprf_batch_roundtrip_def generate_call [OF draw] Let_def flip: inputs_def)
qed

lemma key_roundtrip_passes:
  assumes E: "env_laws E" and draw: "random_scalar E rng = Some (k, rng1)"
  shows "secret_key_roundtrip E rng = Inr ()"
proof -
  have "valid_secret E (SecretKey k)" using random_scalar_nonzero [OF draw] by (simp add: valid_secret_def)
  then have "SecretKey_from_bytes E (SecretKey_to_bytes E (SecretKey k)) = Inr (SecretKey k)"
    using sk_codec.dec_enc [OF env_lawsD(3) [OF E]] by blast
  then show ?thesis
    by (simp add: secret_key_roundtrip_def generate_call [OF draw] PoprfServer_secret_key_def PoprfServer_new_def
        PoprfServer_public_key_def env_lawsD [OF E] Let_def)
qed

lemma state_roundtrip_passes:
  assumes E: "env_laws E" and gen: "\<And>rng. random_scalar E rng \<noteq> None" and draw: "random_scalar E rng = Some (k, rng1)"
    and lucky: "lucky E (PoprfServer_new (SecretKey k)) [ascii ''persisted-input''] [ascii ''info'']"
  shows "blind_state_roundtrip_and_finalize E rng = Inr ()"
proof -
  let ?srv = "PoprfServer_new (SecretKey k)"
  obtain st bl rng2 ev pf rng3 where run:
    "PoprfClient_blind E (client_of E ?srv) (ascii ''persisted-input'') (ascii ''info'') rng1 = (Inr (st, bl), rng2)"
    "PoprfServer_blind_evaluate E ?srv rng2 bl (ascii ''info'') = (Inr (ev, pf), rng3)"
    "PoprfClient_finalize E (client_of E ?srv) (ascii ''persisted-input'') st ev bl pf (ascii ''info'') =
       Inr (poprf E ?srv (ascii ''persisted-input'') (ascii ''info''))"
    "PoprfServer_evaluate E ?srv (ascii ''persisted-input'') (ascii ''info'') =
       Inr (poprf E ?srv (ascii ''persisted-input'') (ascii ''info''))"
    using whole_run [OF E gen, of "ascii ''persisted-input''" "ascii ''info''" ?srv rng1] lucky by auto
  have valid: "\<not> is_identity E (bs_tweaked_key st)"
    using blind_drawn [OF E run(1)] lucky client_key_identity [OF E] by simp
  then have "PoprfBlindState_from_bytes E (PoprfBlindState_to_bytes E st) = Inr st"
    using bs_codec.whole.dec_enc [OF env_lawsD(3) [OF E], of st] by simp
  moreover have "length (PoprfBlindState_to_bytes E st) = PoprfBlindState_LEN"
    using bs_codec.whole.enc_length [OF env_lawsD(3) [OF E], of st] valid by (simp add: PoprfBlindState_LEN_def)
  ultimately show ?thesis
    using run by (simp add: blind_state_roundtrip_and_finalize_def generate_call [OF draw] output_eq_iff [OF E] Let_def)
qed

lemma mismatched_lengths_passes:
  assumes E: "env_laws E" and gen: "\<And>rng. random_scalar E rng \<noteq> None" and draw: "random_scalar E rng = Some (k, rng1)"
    and lucky: "lucky E (PoprfServer_new (SecretKey k)) [ascii ''x''] [ascii ''info'']"
  shows "finalize_batch_rejects_mismatched_lengths E rng = Inr ()"
proof -
  let ?srv = "PoprfServer_new (SecretKey k)"
  obtain st bl rng2 where blind: "PoprfClient_blind E (client_of E ?srv) (ascii ''x'') (ascii ''info'') rng1 = (Inr (st, bl), rng2)"
    using blinding_call [OF E gen, of "ascii ''x''" "ascii ''info''" ?srv rng1] lucky by auto
  then have bb: "blinded_batch E (client_of E ?srv) (ascii ''info'') [ascii ''x''] [st] [bl]"
    by (auto simp: blinded_batch_def)
  obtain r rng3 where "random_scalar E rng2 = Some (r, rng3)" using gen [of rng2] by auto
  from batch_completes [OF E bb _ _ this] obtain evs pf where
    "PoprfServer_blind_evaluate_batch E ?srv rng2 [bl] (ascii ''info'') = (Inr (evs, pf), rng3)" by auto
  with blind show ?thesis
    by (simp add: finalize_batch_rejects_mismatched_lengths_def generate_call [OF draw] assert_err_def
        PoprfClient_finalize_batch_def Let_def)
qed

lemma mismatched_key_passes:
  assumes E: "env_laws E" and gen: "\<And>rng. random_scalar E rng \<noteq> None" and draw: "random_scalar E rng = Some (k, rng1)"
    and lucky: "lucky E (PoprfServer_new (SecretKey k)) [ascii ''alpha'', ascii ''beta''] [ascii ''info-a'', ascii ''info-b'']"
    and differ: "tweak E (ascii ''info-a'') \<noteq> tweak E (ascii ''info-b'')"
  shows "finalize_batch_rejects_mismatched_tweaked_key E rng = Inr ()"
proof -
  let ?srv = "PoprfServer_new (SecretKey k)"
  have ok: "group_ok E" using E by simp
  obtain st bl rng2 ev pf rng3 where a:
    "PoprfClient_blind E (client_of E ?srv) (ascii ''alpha'') (ascii ''info-a'') rng1 = (Inr (st, bl), rng2)"
    "PoprfServer_blind_evaluate E ?srv rng2 bl (ascii ''info-a'') = (Inr (ev, pf), rng3)"
    using whole_run [OF E gen, of "ascii ''alpha''" "ascii ''info-a''" ?srv rng1] lucky by auto
  obtain st' bl' rng4 ev' pf' rng5 where b:
    "PoprfClient_blind E (client_of E ?srv) (ascii ''beta'') (ascii ''info-b'') rng3 = (Inr (st', bl'), rng4)"
    "PoprfServer_blind_evaluate E ?srv rng4 bl' (ascii ''info-b'') = (Inr (ev', pf'), rng5)"
    using whole_run [OF E gen, of "ascii ''beta''" "ascii ''info-b''" ?srv rng3] lucky by auto
  have "client_key E (client_of E ?srv) (ascii ''info-a'') \<noteq> client_key E (client_of E ?srv) (ascii ''info-b'')"
    using differ gp.padd_cancel [OF ok] gp.pmul_inj [OF ok gp.gen_not_pid [OF ok]] by (simp add: client_key_def)
  then have "bs_tweaked_key st' \<noteq> bs_tweaked_key st"
    using blind_drawn(4) [OF E a(1)] blind_drawn(4) [OF E b(1)] by simp
  then show ?thesis
    using a b
    by (simp add: finalize_batch_rejects_mismatched_tweaked_key_def generate_call [OF draw] assert_err_def
        finalize_batch_spec [OF E] Let_def)
qed

lemma maximum_lengths_passes:
  assumes E: "env_laws E" and gen: "\<And>rng. random_scalar E rng \<noteq> None" and draw: "random_scalar E rng = Some (k, rng1)"
    and lucky: "lucky E (PoprfServer_new (SecretKey k)) [replicate (2 ^ 16 - 2) 0x42] [replicate (2 ^ 16 - 2) 0x42]"
  shows "accepts_maximum_input_and_info_lengths E rng = Inr ()"
proof -
  let ?srv = "PoprfServer_new (SecretKey k)"
  define m :: bytes where "m = replicate (2 ^ 16 - 2) 0x42"
  have len: "length m = 65534" by (simp add: m_def)
  have good: "\<not> is_identity E (input_element E m)" "\<not> scalar_is_zero E (server_t E ?srv m)"
    using lucky unfolding m_def by simp_all
  obtain st bl rng2 ev pf rng3 where run:
    "PoprfClient_blind E (client_of E ?srv) m m rng1 = (Inr (st, bl), rng2)"
    "PoprfServer_blind_evaluate E ?srv rng2 bl m = (Inr (ev, pf), rng3)"
    "PoprfClient_finalize E (client_of E ?srv) m st ev bl pf m = Inr (poprf E ?srv m m)"
    "PoprfServer_evaluate E ?srv m m = Inr (poprf E ?srv m m)"
    using whole_run [OF E gen, of m m ?srv rng1] good len by auto
  obtain tb where tb: "PoprfInputTable_new E m = Inr tb" using good len by (simp add: input_table_spec [OF E])
  then have "PoprfServer_evaluate_tables E ?srv [tb] m = Inr [poprf E ?srv m m]"
    using tables_eq_evaluate [OF E, of "[tb]" "[m]" ?srv m] run(4) by simp
  with run tb show ?thesis
    unfolding accepts_maximum_input_and_info_lengths_def m_def [symmetric]
    by (simp add: generate_call [OF draw] output_eq_iff [OF E] Let_def)
qed

lemma inverse_zero_passes:
  assumes E: "env_laws E" and gen: "\<And>rng. random_scalar E rng \<noteq> None"
    and nz: "\<not> scalar_is_zero E (tweak E (ascii ''trigger-inverse''))"
  defines "sk \<equiv> scalar_sub E (Scalar_ZERO E) (tweak E (ascii ''trigger-inverse''))"
  assumes lucky: "lucky E (PoprfServer_new (SecretKey sk)) [ascii ''any-input''] [ascii ''other-info'']"
  shows "blind_evaluate_rejects_inverse_zero E rng = Inr ()"
proof -
  let ?srv = "PoprfServer_new (SecretKey sk)" and ?info = "ascii ''trigger-inverse''"
  have ok: "group_ok E" using E by simp
  have dst: "ascii ''HashToScalar-'' @ ascii ''OPRFV1-'' @ [0x02] @ ascii ''-ristretto255-SHA512'' = HASH_TO_SCALAR_DST"
    by (simp add: HASH_TO_SCALAR_DST_def ascii_simps)
  have framed: "concat [ascii ''Info'', to_be_bytes (word_of_nat (length ?info)), ?info] = ascii ''Info'' @ lp ?info"
    by (simp add: lp_def be16_def)
  obtain u where u: "expand_message_xmd E [ascii ''Info'' @ lp ?info] [HASH_TO_SCALAR_DST] 64 = Some u"
    and m: "Scalar_from_bytes_mod_order_wide E u = tweak E ?info"
    using expand_ok [OF env_lawsD(4) [OF E], of HASH_TO_SCALAR_DST "[ascii ''Info'' @ lp ?info]"]
    by (auto simp: tweak_def hash_scalar_def)
  have sk_eq: "sk = Scalar_sub E (Scalar_ZERO E) (tweak E ?info)" by (simp add: sk_def scalar_sub_def)
  have "\<not> scalar_is_zero E sk"
    using nz gp.ssub_zero [OF ok, of "Scalar_ZERO E" "tweak E ?info"] by (auto simp: sk_def scalar_is_zero_def env_lawsD [OF E])
  then have sk: "SecretKey_from_bytes E (Scalar_to_bytes E sk) = Inr (SecretKey sk)"
    using sk_codec.dec_enc [OF env_lawsD(3) [OF E], of "SecretKey sk"]
    by (simp add: valid_secret_def SecretKey_to_bytes_def serialize_scalar_array_def)
  have t: "scalar_is_zero E (server_t E ?srv ?info)"
    using gp.ssub_add [OF ok] by (simp add: server_t_def PoprfServer_new_def sk_def scalar_is_zero_def env_lawsD [OF E])
  obtain st bl rng1 where blind: "PoprfClient_blind E (client_of E ?srv) (ascii ''any-input'') (ascii ''other-info'') rng = (Inr (st, bl), rng1)"
    using blinding_call [OF E gen, of "ascii ''any-input''" "ascii ''other-info''" ?srv rng] lucky by auto
  then have "\<not> is_identity E (blinded_point bl)" by (rule blinded_not_identity [OF E])
  then have "PoprfServer_blind_evaluate E ?srv rng1 bl ?info = (Fail Inverse, rng1)"
    using t by (simp add: PoprfServer_blind_evaluate_def compute_t_spec [OF E])
  moreover obtain tb where "PoprfInputTable_new E (ascii ''any-input'') = Inr tb"
    using lucky by (simp add: input_table_spec [OF E])
  moreover from this have "PoprfServer_evaluate_tables E ?srv [tb] ?info = Fail Inverse"
    using t lucky tables_eq_evaluate [OF E, of "[tb]" "[ascii ''any-input'']" ?srv ?info] by (simp add: evaluate_spec [OF E])
  ultimately show ?thesis
    using blind sk t lucky unfolding blind_evaluate_rejects_inverse_zero_def Let_def framed dst u
    by (simp add: m evaluate_spec [OF E] assert_err_def flip: sk_eq)
qed

section \<open>An environment in which every test is lucky\<close>

text \<open>
  Its hash expansion is constant, so that every input hashes to the same
  element and every hash to a scalar is the same non-zero value. The witnesses use it.
\<close>

definition E5 :: "(tri, tri, tri, bytes, nat) env" where
  "E5 = E3\<lparr>expand_message_xmd := \<lambda>_ _ n. Some (take n (1 # replicate n 0))\<rparr>"

lemma E5_laws [simp]: "env_laws E5"
  unfolding E5_def
  by (rule expand_laws [OF toy_laws]) (auto simp: hash_laws_def toy_def pad64_def)

lemma E5_ops [simp]:
  "hash_scalar E5 msg dst = T1" "hash_group E5 msg dst = T1" "scalar_add E5 = tri_add"
  "scalar_is_zero E5 a \<longleftrightarrow> a = T0" "is_identity E5 P \<longleftrightarrow> P = T0" "sha512 E5 = pad64"
  by (auto simp: E5_def group_defs fun_eq_iff sha512_def hash_scalar_def hash_group_def)
    (simp_all add: toy_def tri_of_byte_def)

lemma E5_random: "random_scalar E5 n =
    (if n mod 3 = 0 then random_scalar E5 (Suc n) else Some (if n mod 3 = 1 then T1 else T2, Suc n))"
  by (subst random_scalar.simps) (simp add: E5_def toy_random_def group_defs)

lemma E5_random_some [simp]: "random_scalar E5 n \<noteq> None"
  by (subst E5_random, subst E5_random) (simp add: mod_Suc)

lemma E5_lucky: "lucky E5 (PoprfServer_new (SecretKey T1)) xs infos"
  by (simp add: lucky_def input_element_def server_t_def tweak_def PoprfServer_new_def)

lemma E5_key: "length info \<le> 65534 \<Longrightarrow> derive_key_pair E5 seed info = Inr (SecretKey T1, SecretKey_public_key E5 (SecretKey T1))"
  by (auto simp: derive_key_pair_eq env_lawsD derive_candidate_def find_upt Let_def intro: exI [of _ 0])

end
