(* ===== verification/Core_Tests.thy ===== *)
theory Core_Tests
  imports Tests
begin

text \<open>
  The other tests of \<open>roundtrip.rs\<close> and \<open>negative.rs\<close> that need no concrete curve: round trips of the wire
  types, comparisons of outputs, tables, and what is rejected for its length. The property covers them
  together with the tests of \<open>Tests\<close>.
\<close>

section \<open>roundtrip.rs\<close>

definition assert_that_holds :: "bool \<Rightarrow> unit res" where
  "assert_that_holds b = (if b then Inr () else panic)"

definition same_outputs :: "('s, 'p, 't, 'h, 'r) env \<Rightarrow> PoprfOutput list \<Rightarrow> PoprfOutput list \<Rightarrow> unit res" where
  "same_outputs E xs ys = assert_that_holds (list_all2 (PoprfOutput_eq E) xs ys)"

definition poprf_different_info_yields_different_output :: "('s, 'p, 't, 'h, 'r) env \<Rightarrow> 'r \<Rightarrow> unit res" where
  "poprf_different_info_yields_different_output E rng =
     and_then (PoprfServer_generate E rng) (\<lambda>server rng.
     rbind (unwrap (PoprfServer_evaluate E server (ascii ''x'') (ascii ''info1''))) (\<lambda>a.
     rbind (unwrap (PoprfServer_evaluate E server (ascii ''x'') (ascii ''info2''))) (\<lambda>b.
     assert_that_holds (\<not> PoprfOutput_eq E a b))))"

text \<open>The loop over \<open>infos\<close>; the second call, on the owned tables, is the same one here.\<close>

fun tables_loop :: "('s, 'p, 't, 'h, 'r) env \<Rightarrow> 's PoprfServer \<Rightarrow> bytes list \<Rightarrow> ('p, 't, 'h) PoprfInputTable list \<Rightarrow>
    bytes list \<Rightarrow> unit res" where
  "tables_loop E server inputs tables [] = Inr ()"
| "tables_loop E server inputs tables (info # infos) =
     rbind (rmap (\<lambda>i. unwrap (PoprfServer_evaluate E server i info)) inputs) (\<lambda>expected.
     rbind (unwrap (PoprfServer_evaluate_tables E server tables info)) (\<lambda>got.
     rbind (same_outputs E got expected) (\<lambda>_.
     rbind (unwrap (PoprfServer_evaluate_tables E server tables info)) (\<lambda>got.
     rbind (same_outputs E got expected) (\<lambda>_.
     tables_loop E server inputs tables infos)))))"

definition poprf_evaluate_tables_matches_evaluate :: "('s, 'p, 't, 'h, 'r) env \<Rightarrow> 'r \<Rightarrow> unit res" where
  "poprf_evaluate_tables_matches_evaluate E rng =
     and_then (PoprfServer_generate E rng) (\<lambda>server rng.
     let inputs = [ascii ''alpha'', ascii ''beta'', ascii ''gamma'', [], ascii ''delta''] in
     rbind (rmap (\<lambda>i. unwrap (PoprfInputTable_new E i)) inputs) (\<lambda>tables.
     rbind (tables_loop E server inputs tables [ascii ''batch-info'', [], ascii ''another-info'']) (\<lambda>_.
     let shuffled = [tables ! 3, tables ! 0, tables ! 0, tables ! 2] in
     rbind (unwrap (PoprfServer_evaluate_tables E server shuffled (ascii ''batch-info''))) (\<lambda>got.
     rbind (unwrap (PoprfServer_evaluate E server (ascii ''alpha'') (ascii ''batch-info''))) (\<lambda>expect0.
     rbind (unwrap (PoprfServer_evaluate E server (ascii ''gamma'') (ascii ''batch-info''))) (\<lambda>expect2.
     rbind (unwrap (PoprfServer_evaluate E server [] (ascii ''batch-info''))) (\<lambda>expect3.
     same_outputs E got [expect3, expect0, expect0, expect2])))))))"

text \<open>\<open>str::contains\<close>.\<close>

definition contains :: "string \<Rightarrow> string \<Rightarrow> bool" where
  "contains s t \<longleftrightarrow> (\<exists>n \<in> {..length s}. take (length t) (drop n s) = t)"

definition poprf_input_table_debug_redacts_input :: "('s, 'p, 't, 'h, 'r) env \<Rightarrow> unit res" where
  "poprf_input_table_debug_redacts_input E =
     rbind (unwrap (PoprfInputTable_new E (ascii ''secret-token-preimage''))) (\<lambda>t.
     let s = PoprfInputTable_fmt t in
     rbind (assert_eq s ''PoprfInputTable(21 bytes)'') (\<lambda>_.
     assert_that_holds (\<not> contains s ''secret'')))"

definition public_key_roundtrip :: "('s, 'p, 't, 'h, 'r) env \<Rightarrow> 'r \<Rightarrow> unit res" where
  "public_key_roundtrip E rng =
     and_then (PoprfServer_generate E rng) (\<lambda>server rng.
     let pk = PoprfServer_public_key E server;
         bytes = PublicKey_to_bytes E pk in
     rbind (unwrap (PublicKey_from_bytes E bytes)) (\<lambda>parsed.
     assert_that_holds (Point_ct_eq E (public_point parsed) (public_point pk))))"

text \<open>The three tests that run the protocol for a value to encode.\<close>

definition with_run :: "('s, 'p, 't, 'h, 'r) env \<Rightarrow> 'r \<Rightarrow>
    (('s, 'p) PoprfBlindState \<Rightarrow> 'p BlindedElement \<Rightarrow> 'p EvaluatedElement \<Rightarrow> 's Proof \<Rightarrow> unit res) \<Rightarrow> unit res" where
  "with_run E rng k =
     and_then (PoprfServer_generate E rng) (\<lambda>server rng.
     let client = PoprfClient_new (PoprfServer_public_key E server) in
     and_then (PoprfClient_blind E client (ascii ''x'') (ascii ''info'') rng) (\<lambda>(st, blinded) rng.
     and_then (PoprfServer_blind_evaluate E server rng blinded (ascii ''info'')) (\<lambda>(eval, proof') rng.
     k st blinded eval proof')))"

definition blinded_element_roundtrip :: "('s, 'p, 't, 'h, 'r) env \<Rightarrow> 'r \<Rightarrow> unit res" where
  "blinded_element_roundtrip E rng =
     and_then (PoprfServer_generate E rng) (\<lambda>server rng.
     let client = PoprfClient_new (PoprfServer_public_key E server) in
     and_then (PoprfClient_blind E client (ascii ''x'') (ascii ''info'') rng) (\<lambda>(_, blinded) rng.
     let bytes = BlindedElement_to_bytes E blinded in
     rbind (unwrap (BlindedElement_from_bytes E bytes)) (\<lambda>parsed.
     assert_eq (BlindedElement_to_bytes E parsed) bytes)))"

definition evaluated_element_roundtrip :: "('s, 'p, 't, 'h, 'r) env \<Rightarrow> 'r \<Rightarrow> unit res" where
  "evaluated_element_roundtrip E rng =
     with_run E rng (\<lambda>_ _ eval _.
     let bytes = EvaluatedElement_to_bytes E eval in
     rbind (unwrap (EvaluatedElement_from_bytes E bytes)) (\<lambda>parsed.
     assert_eq (EvaluatedElement_to_bytes E parsed) bytes))"

definition proof_roundtrip :: "('s, 'p, 't, 'h, 'r) env \<Rightarrow> 'r \<Rightarrow> unit res" where
  "proof_roundtrip E rng =
     with_run E rng (\<lambda>_ _ _ proof'.
     let bytes = Proof_to_bytes E proof' in
     rbind (unwrap (Proof_from_bytes E bytes)) (\<lambda>parsed.
     assert_eq (Proof_to_bytes E parsed) bytes))"

text \<open>\<open>ct_eq\<close> and \<open>==\<close> are one function of the model, as in the code.\<close>

definition poprf_output_constant_time_eq :: "('s, 'p, 't, 'h, 'r) env \<Rightarrow> 'r \<Rightarrow> unit res" where
  "poprf_output_constant_time_eq E rng =
     and_then (PoprfServer_generate E rng) (\<lambda>server rng.
     rbind (unwrap (PoprfServer_evaluate E server (ascii ''x'') (ascii ''info''))) (\<lambda>a.
     rbind (unwrap (PoprfServer_evaluate E server (ascii ''x'') (ascii ''info''))) (\<lambda>b.
     rbind (unwrap (PoprfServer_evaluate E server (ascii ''y'') (ascii ''info''))) (\<lambda>c.
     rbind (assert_that_holds (PoprfOutput_eq E a b)) (\<lambda>_.
     assert_that_holds (\<not> PoprfOutput_eq E a c))))))"

definition poprf_output_from_bytes_roundtrip :: "('s, 'p, 't, 'h, 'r) env \<Rightarrow> 'r \<Rightarrow> unit res" where
  "poprf_output_from_bytes_roundtrip E rng =
     and_then (PoprfServer_generate E rng) (\<lambda>server rng.
     rbind (unwrap (PoprfServer_evaluate E server (ascii ''x'') (ascii ''info''))) (\<lambda>out.
     let bytes = PoprfOutput_as_bytes out in
     rbind (unwrap (PoprfOutput_from_bytes bytes)) (\<lambda>parsed.
     assert_that_holds (PoprfOutput_eq E parsed out))))"

section \<open>negative.rs\<close>

definition from_bytes_rejects_wrong_length :: "('s, 'p, 't, 'h, 'r) env \<Rightarrow> unit res" where
  "from_bytes_rejects_wrong_length E =
     rbind (assert_err (SecretKey_from_bytes E (replicate 31 0)) Deserialize) (\<lambda>_.
     rbind (assert_err (SecretKey_from_bytes E (replicate 33 0)) Deserialize) (\<lambda>_.
     rbind (assert_err (PublicKey_from_bytes E (replicate 31 0)) Deserialize) (\<lambda>_.
     rbind (assert_err (BlindedElement_from_bytes E (replicate 31 0)) Deserialize) (\<lambda>_.
     rbind (assert_err (EvaluatedElement_from_bytes E (replicate 33 0)) Deserialize) (\<lambda>_.
     rbind (assert_err (Proof_from_bytes E (replicate 63 0)) Deserialize) (\<lambda>_.
     rbind (assert_err (Proof_from_bytes E (replicate 65 0)) Deserialize) (\<lambda>_.
     assert_err (Proof_from_bytes E []) Deserialize)))))))"

definition finalize_batch_rejects_empty :: "('s, 'p, 't, 'h, 'r) env \<Rightarrow> 'r \<Rightarrow> unit res" where
  "finalize_batch_rejects_empty E rng =
     and_then (PoprfServer_generate E rng) (\<lambda>server rng.
     let client = PoprfClient_new (PoprfServer_public_key E server);
         info = ascii ''info'' in
     and_then (PoprfClient_blind E client (ascii ''x'') info rng) (\<lambda>(_, blinded) rng.
     and_then (PoprfServer_blind_evaluate E server rng blinded info) (\<lambda>(_, proof') rng.
     assert_err (PoprfClient_finalize_batch E client [] [] [] [] proof' info) LengthMismatch)))"

definition blind_evaluate_batch_rejects_empty :: "('s, 'p, 't, 'h, 'r) env \<Rightarrow> 'r \<Rightarrow> unit res" where
  "blind_evaluate_batch_rejects_empty E rng =
     and_then (PoprfServer_generate E rng) (\<lambda>server rng.
     assert_err (fst (PoprfServer_blind_evaluate_batch E server rng [] (ascii ''info''))) LengthMismatch)"

text \<open>A call that draws random numbers and has to fail.\<close>

fun fails_then :: "'a res \<times> 'r \<Rightarrow> error \<Rightarrow> ('r \<Rightarrow> unit res) \<Rightarrow> unit res" where
  "fails_then (r, rng) e k = rbind (assert_err r e) (\<lambda>_. k rng)"

definition rejects_oversized_input_and_info :: "('s, 'p, 't, 'h, 'r) env \<Rightarrow> 'r \<Rightarrow> unit res" where
  "rejects_oversized_input_and_info E rng =
     (let too_long = replicate (2 ^ 16 - 1) 0x41; x = ascii ''x''; info = ascii ''info'' in
     rbind (assert_eq (length too_long) 65535) (\<lambda>_.
     and_then (PoprfServer_generate E rng) (\<lambda>server rng.
     let client = PoprfClient_new (PoprfServer_public_key E server) in
     fails_then (PoprfClient_blind E client too_long info rng) InputTooLong (\<lambda>rng.
     fails_then (PoprfClient_blind E client (ascii ''input'') too_long rng) InputTooLong (\<lambda>rng.
     and_then (PoprfClient_blind E client x info rng) (\<lambda>(st, blinded) rng.
     and_then (PoprfServer_blind_evaluate E server rng blinded info) (\<lambda>(evaluated, proof') rng.
     rbind (assert_err (PoprfClient_finalize E client too_long st evaluated blinded proof' info) InputTooLong) (\<lambda>_.
     rbind (assert_err (PoprfClient_finalize E client x st evaluated blinded proof' too_long) InputTooLong) (\<lambda>_.
     rbind (assert_err (PoprfClient_finalize_batch E client [too_long] [st] [evaluated] [blinded] proof' info) InputTooLong) (\<lambda>_.
     rbind (assert_err (PoprfClient_finalize_batch E client [x] [st] [evaluated] [blinded] proof' too_long) InputTooLong) (\<lambda>_.
     fails_then (PoprfServer_blind_evaluate E server rng blinded too_long) InputTooLong (\<lambda>rng.
     fails_then (PoprfServer_blind_evaluate_batch E server rng [blinded] too_long) InputTooLong (\<lambda>rng.
     rbind (assert_err (PoprfServer_evaluate E server too_long info) InputTooLong) (\<lambda>_.
     rbind (assert_err (PoprfServer_evaluate E server x too_long) InputTooLong) (\<lambda>_.
     rbind (assert_err (PoprfInputTable_new E too_long) InputTooLong) (\<lambda>_.
     rbind (unwrap (PoprfInputTable_new E x)) (\<lambda>ok_table.
     rbind (assert_err (PoprfServer_evaluate_tables E server [ok_table] too_long) InputTooLong) (\<lambda>_.
     rbind (assert_err (PoprfServer_evaluate_tables E server [] info) LengthMismatch) (\<lambda>_.
     assert_err (derive_key_pair E (replicate 32 0) too_long) InputTooLong)))))))))))))))))))"

section \<open>The tests pass\<close>

lemma assert_that_holds_True [simp]: "assert_that_holds b = Inr () \<longleftrightarrow> b"
  by (simp add: assert_that_holds_def)

lemma assert_True [simp]: "assert_that_holds True = Inr ()"
  by simp

lemma assert_err_Fail [simp]: "assert_err (Fail e) e = Inr ()"
  by (simp add: assert_err_def)

lemma same_outputs_refl [simp]: "env_laws E \<Longrightarrow> same_outputs E xs xs = Inr ()"
  by (simp add: same_outputs_def output_eq_iff list_all2_same)

lemma rmap_all: "\<forall>x \<in> set xs. f x = Inr (g x) \<Longrightarrow> rmap f xs = Inr (map g xs)"
  by (induction xs) simp_all

lemma evaluate_value:
  assumes "env_laws E" "length x \<le> 65534" "length info \<le> 65534"
    and "\<not> is_identity E (input_element E x)" "\<not> scalar_is_zero E (server_t E srv info)"
  shows "PoprfServer_evaluate E srv x info = Inr (poprf E srv x info)"
  using assms by (simp add: evaluate_spec)

lemma outputs_differ_passes:
  assumes E: "env_laws E" and draw: "random_scalar E rng = Some (k, rng1)"
    and lucky: "lucky E (PoprfServer_new (SecretKey k)) [ascii ''x''] [ascii ''info1'', ascii ''info2'']"
    and differ: "poprf E (PoprfServer_new (SecretKey k)) (ascii ''x'') (ascii ''info1'') \<noteq>
      poprf E (PoprfServer_new (SecretKey k)) (ascii ''x'') (ascii ''info2'')"
  shows "poprf_different_info_yields_different_output E rng = Inr ()"
  using lucky differ
  by (simp add: poprf_different_info_yields_different_output_def generate_call [OF draw] evaluate_value [OF E]
      output_eq_iff [OF E])

lemma constant_time_eq_passes:
  assumes E: "env_laws E" and draw: "random_scalar E rng = Some (k, rng1)"
    and lucky: "lucky E (PoprfServer_new (SecretKey k)) [ascii ''x'', ascii ''y''] [ascii ''info'']"
    and differ: "poprf E (PoprfServer_new (SecretKey k)) (ascii ''x'') (ascii ''info'') \<noteq>
      poprf E (PoprfServer_new (SecretKey k)) (ascii ''y'') (ascii ''info'')"
  shows "poprf_output_constant_time_eq E rng = Inr ()"
  using lucky differ
  by (simp add: poprf_output_constant_time_eq_def generate_call [OF draw] evaluate_value [OF E] output_eq_iff [OF E])

lemma output_roundtrip_passes:
  assumes E: "env_laws E" and draw: "random_scalar E rng = Some (k, rng1)"
    and lucky: "lucky E (PoprfServer_new (SecretKey k)) [ascii ''x''] [ascii ''info'']"
  shows "poprf_output_from_bytes_roundtrip E rng = Inr ()"
proof -
  have ev: "PoprfServer_evaluate E (PoprfServer_new (SecretKey k)) (ascii ''x'') (ascii ''info'') =
      Inr (poprf E (PoprfServer_new (SecretKey k)) (ascii ''x'') (ascii ''info''))"
    using lucky by (simp add: evaluate_value [OF E])
  have "length (output_bytes (poprf E (PoprfServer_new (SecretKey k)) (ascii ''x'') (ascii ''info''))) = 64"
    using E by (simp add: poprf_def)
  then show ?thesis using ev out_codec.dec_enc [OF TrueI]
    by (simp add: poprf_output_from_bytes_roundtrip_def generate_call [OF draw] output_eq_iff [OF E])
qed

text \<open>Batches over tables.\<close>

lemma tables_value:
  assumes E: "env_laws E" and "tables \<noteq> []" "list_all2 (\<lambda>x tb. PoprfInputTable_new E x = Inr tb) xs tables"
    and "\<forall>x \<in> set xs. PoprfServer_evaluate E srv x info = Inr (f x)"
  shows "PoprfServer_evaluate_tables E srv tables info = Inr (map f xs)"
  using tables_eq_evaluate [OF E assms(2,3)] rmap_all [OF assms(4)] by simp

lemma tables_loop_passes:
  assumes E: "env_laws E" and "tables \<noteq> []" "list_all2 (\<lambda>x tb. PoprfInputTable_new E x = Inr tb) xs tables"
    and "\<forall>info \<in> set infos. \<forall>x \<in> set xs. PoprfServer_evaluate E srv x info = Inr (f info x)"
  shows "tables_loop E srv xs tables infos = Inr ()"
  using assms(4)
proof (induction infos)
  case (Cons info infos)
  then have "rmap (\<lambda>i. unwrap (PoprfServer_evaluate E srv i info)) xs = Inr (map (f info) xs)"
    by (intro rmap_all) simp
  moreover have "PoprfServer_evaluate_tables E srv tables info = Inr (map (f info) xs)"
    using Cons by (intro tables_value [OF E assms(2,3)]) simp
  ultimately show ?case using Cons by (simp add: E)
qed simp

lemma matches_evaluate_passes:
  assumes E: "env_laws E" and draw: "random_scalar E rng = Some (k, rng1)"
    and lucky: "lucky E (PoprfServer_new (SecretKey k)) [ascii ''alpha'', ascii ''beta'', ascii ''gamma'', [], ascii ''delta'']
      [ascii ''batch-info'', [], ascii ''another-info'']"
  shows "poprf_evaluate_tables_matches_evaluate E rng = Inr ()"
proof -
  let ?srv = "PoprfServer_new (SecretKey k)"
  let ?xs = "[ascii ''alpha'', ascii ''beta'', ascii ''gamma'', [], ascii ''delta'']"
  let ?infos = "[ascii ''batch-info'', [], ascii ''another-info'']"
  have len: "\<forall>x \<in> set ?xs. length x \<le> 65534" "\<forall>i \<in> set ?infos. length i \<le> 65534" by simp_all
  then have ev: "\<forall>info \<in> set ?infos. \<forall>x \<in> set ?xs. PoprfServer_evaluate E ?srv x info = Inr (poprf E ?srv x info)"
    using lucky unfolding lucky_def by (intro ballI evaluate_value [OF E]) blast+
  have "\<forall>x \<in> set ?xs. \<exists>tb. PoprfInputTable_new E x = Inr tb"
    using lucky len(1) by (auto simp: input_table_spec [OF E])
  then obtain tb where tb: "\<forall>x \<in> set ?xs. PoprfInputTable_new E x = Inr (tb x)" by (rule bchoice [THEN exE])
  then have made: "rmap (\<lambda>i. unwrap (PoprfInputTable_new E i)) ?xs = Inr (map tb ?xs)" by (intro rmap_all) simp
  have loop: "tables_loop E ?srv ?xs (map tb ?xs) ?infos = Inr ()"
    using tb by (intro tables_loop_passes [OF E _ _ ev]) simp_all
  have "PoprfServer_evaluate_tables E ?srv (map tb [?xs ! 3, ?xs ! 0, ?xs ! 0, ?xs ! 2]) (ascii ''batch-info'') =
      Inr (map (\<lambda>x. poprf E ?srv x (ascii ''batch-info'')) [?xs ! 3, ?xs ! 0, ?xs ! 0, ?xs ! 2])"
    using tb ev by (intro tables_value [OF E]) simp_all
  then show ?thesis using made loop ev
    by (simp add: poprf_evaluate_tables_matches_evaluate_def generate_call [OF draw] Let_def E del: rmap.simps tables_loop.simps)
qed

lemma debug_passes:
  assumes E: "env_laws E" and "\<not> is_identity E (input_element E (ascii ''secret-token-preimage''))"
  shows "poprf_input_table_debug_redacts_input E = Inr ()"
proof -
  have "fmt_dec 21 = ''21''" by (simp add: fmt_dec.simps hex_digit_def)
  moreover have "\<not> contains ''PoprfInputTable(21 bytes)'' ''secret''"
    unfolding contains_def by (simp add: atMost_Suc numeral_eq_Suc)
  moreover obtain tb where "PoprfInputTable_new E (ascii ''secret-token-preimage'') = Inr tb" "it_input_len tb = 21"
    using assms(2) by (simp add: input_table_spec [OF E])
  ultimately show ?thesis
    by (simp add: poprf_input_table_debug_redacts_input_def PoprfInputTable_fmt_def)
qed

lemma public_key_passes:
  assumes E: "env_laws E" and draw: "random_scalar E rng = Some (k, rng1)"
  shows "public_key_roundtrip E rng = Inr ()"
proof -
  have "valid_public E (PoprfServer_public_key E (PoprfServer_new (SecretKey k)))"
    using random_scalar_nonzero [OF draw] public_key_valid [OF group_okI [OF E], of "SecretKey k"]
    by (simp add: valid_secret_def PoprfServer_public_key_def PoprfServer_new_def)
  then show ?thesis using pk_codec.dec_enc [OF env_lawsD(3) [OF E]]
    by (simp add: public_key_roundtrip_def generate_call [OF draw] Let_def env_lawsD [OF E])
qed

text \<open>The tests that encode a value of a run.\<close>

lemma run_for_test:
  assumes E: "env_laws E" and gen: "\<And>rng. random_scalar E rng \<noteq> None"
    and lucky: "lucky E (PoprfServer_new (SecretKey k)) [ascii ''x''] [ascii ''info'']"
  obtains st bl rng2 ev pf rng3 where
    "PoprfClient_blind E (client_of E (PoprfServer_new (SecretKey k))) (ascii ''x'') (ascii ''info'') rng1 = (Inr (st, bl), rng2)"
    "PoprfServer_blind_evaluate E (PoprfServer_new (SecretKey k)) rng2 bl (ascii ''info'') = (Inr (ev, pf), rng3)"
    "BlindedElement_from_bytes E (BlindedElement_to_bytes E bl) = Inr bl"
    "EvaluatedElement_from_bytes E (EvaluatedElement_to_bytes E ev) = Inr ev"
    "Proof_from_bytes E (Proof_to_bytes E pf) = Inr pf" "\<not> is_identity E (blinded_point bl)"
proof -
  have ok: "encoding_laws E" by (rule env_lawsD(3) [OF E])
  obtain st bl rng2 ev pf rng3 where run:
    "PoprfClient_blind E (client_of E (PoprfServer_new (SecretKey k))) (ascii ''x'') (ascii ''info'') rng1 = (Inr (st, bl), rng2)"
    "PoprfServer_blind_evaluate E (PoprfServer_new (SecretKey k)) rng2 bl (ascii ''info'') = (Inr (ev, pf), rng3)"
    using whole_run [OF E gen, of "ascii ''x''" "ascii ''info''" "PoprfServer_new (SecretKey k)" rng1] lucky by auto
  obtain r where "blind_evaluate_batch_with_r_inner E (PoprfServer_new (SecretKey k)) [bl] (ascii ''info'') r = Inr ([ev], pf)"
    using single_call_evaluated [OF run(2)] by blast
  then have "valid_evaluated E ev" using evaluations_valid [OF E] by fastforce
  moreover have bl: "\<not> is_identity E (blinded_point bl)" by (rule blinded_not_identity [OF E run(1)])
  then have "valid_blinded E bl" by (simp add: valid_blinded_def)
  ultimately show ?thesis
    using bl that [OF run] be_codec.dec_enc [OF ok] ee_codec.dec_enc [OF ok] proof_codec.whole.dec_enc [OF ok, of pf] by simp
qed

lemma encodings_pass:
  assumes E: "env_laws E" and gen: "\<And>rng. random_scalar E rng \<noteq> None" and draw: "random_scalar E rng = Some (k, rng1)"
    and lucky: "lucky E (PoprfServer_new (SecretKey k)) [ascii ''x''] [ascii ''info'']"
  shows "blinded_element_roundtrip E rng = Inr ()" "evaluated_element_roundtrip E rng = Inr ()"
    "proof_roundtrip E rng = Inr ()" "finalize_batch_rejects_empty E rng = Inr ()"
  by (rule run_for_test [OF E gen lucky, of rng1];
    simp add: blinded_element_roundtrip_def evaluated_element_roundtrip_def proof_roundtrip_def with_run_def
      finalize_batch_rejects_empty_def generate_call [OF draw] finalize_batch_spec [OF E])+

lemma rejections_pass:
  assumes draw: "random_scalar E rng = Some (k, rng1)"
  shows "from_bytes_rejects_wrong_length E = Inr ()" "blind_evaluate_batch_rejects_empty E rng = Inr ()"
  by (simp_all add: from_bytes_rejects_wrong_length_def blind_evaluate_batch_rejects_empty_def generate_call [OF draw]
      sk_codec.dec_length pk_codec.dec_length be_codec.dec_length ee_codec.dec_length proof_codec.whole.dec_length
      SCALAR_LEN_def ELEMENT_LEN_def PoprfServer_blind_evaluate_batch_def)

lemma too_long_fails:
  assumes E: "env_laws E" and gen: "\<And>rng. random_scalar E rng \<noteq> None"
    and "65534 < length input \<or> 65534 < length info"
  shows "\<exists>rng'. PoprfClient_blind E cl input info rng = (Fail InputTooLong, rng')"
  using gen [of rng] assms(3) by (auto simp: PoprfClient_blind_def blind_inner_spec [OF E] split: option.splits)

lemma oversized_passes:
  assumes E: "env_laws E" and gen: "\<And>rng. random_scalar E rng \<noteq> None" and draw: "random_scalar E rng = Some (k, rng1)"
    and lucky: "lucky E (PoprfServer_new (SecretKey k)) [ascii ''x''] [ascii ''info'']"
  shows "rejects_oversized_input_and_info E rng = Inr ()"
proof -
  let ?srv = "PoprfServer_new (SecretKey k)"
  define long where "long = (replicate (2 ^ 16 - 1) 0x41 :: bytes)"
  have long: "length long = 65535" by (simp add: long_def)
  obtain rng2 where one: "PoprfClient_blind E (client_of E ?srv) long (ascii ''info'') rng1 = (Fail InputTooLong, rng2)"
    using too_long_fails [OF E gen, of long] long by fastforce
  obtain rng3 where two: "PoprfClient_blind E (client_of E ?srv) (ascii ''input'') long rng2 = (Fail InputTooLong, rng3)"
    using too_long_fails [OF E gen, of "ascii ''input''" long] long by fastforce
  obtain st bl rng4 ev pf rng5 where run:
    "PoprfClient_blind E (client_of E ?srv) (ascii ''x'') (ascii ''info'') rng3 = (Inr (st, bl), rng4)"
    "PoprfServer_blind_evaluate E ?srv rng4 bl (ascii ''info'') = (Inr (ev, pf), rng5)"
    and bl: "\<not> is_identity E (blinded_point bl)"
    by (rule run_for_test [OF E gen lucky, of rng3])
  obtain tb where tb: "PoprfInputTable_new E (ascii ''x'') = Inr tb" using lucky by (simp add: input_table_spec [OF E])
  have "PoprfServer_blind_evaluate E ?srv r bl long = (Fail InputTooLong, r)"
    "PoprfServer_blind_evaluate_batch E ?srv r [bl] long = (Fail InputTooLong, r)" for r
    using bl long by (simp_all add: PoprfServer_blind_evaluate_def PoprfServer_blind_evaluate_batch_def compute_t_spec [OF E])
  moreover have "PoprfServer_evaluate_tables E ?srv [tb] long = Fail InputTooLong"
    "PoprfServer_evaluate_tables E ?srv [] (ascii ''info'') = Fail LengthMismatch"
    using evaluate_tables_spec [OF E, of "[ascii ''x'']" "[tb]"] evaluate_tables_spec [OF E, of "[]" "[]"] tb long by simp_all
  moreover have "derive_key_pair E (replicate 32 0) long = Fail InputTooLong"
    using long by (simp add: derive_key_pair_def)
  ultimately show ?thesis
    using one two run tb long lucky
    unfolding rejects_oversized_input_and_info_def Let_def long_def [symmetric]
    by (simp add: generate_call [OF draw] finalize_spec [OF E] finalize_batch_spec [OF E] evaluate_spec [OF E]
        input_table_spec [OF E])
qed

section \<open>Property\<close>

text \<open>C30: The modelled tests of the core crate pass (all but the test vectors and those that need a concrete
  curve or hash, containers, threads, postcard or JSON). For every environment, every build and every generator that
  keeps returning scalars, the constants are those of the formula, every value survives its encoding, a
  run, a batch and a batch over tables agree with the offline evaluation, also at the greatest length, and the
  misuses, among them every oversized argument, are rejected with the expected errors; a test can only fail when
  an input of it hashes to the identity, when a tweaked key is zero, or when two tweaks or two outputs are equal.\<close>

theorem tests_pass:
  assumes E: "env_laws E" and gen: "\<And>rng. random_scalar E rng \<noteq> None" and draw: "random_scalar E rng = Some (k, rng1)"
  defines "srv \<equiv> PoprfServer_new (SecretKey k)" and "m \<equiv> tweak E (ascii ''trigger-inverse'')"
  shows "context_string_constants_match_formula = Inr () \<and> secret_key_roundtrip E rng = Inr () \<and>
    (lucky E srv [ascii ''my secret input''] [ascii ''public context''] \<longrightarrow> quick_start E rng = Inr ()) \<and>
    (lucky E srv [ascii ''poprf-input''] [ascii ''public-info''] \<longrightarrow> poprf_random_roundtrip E rng = Inr ()) \<and>
    (lucky E srv [ascii ''alpha'', ascii ''beta'', ascii ''gamma''] [ascii ''batch-info''] \<longrightarrow>
       poprf_batch_roundtrip E rng = Inr ()) \<and>
    (lucky E srv [ascii ''persisted-input''] [ascii ''info''] \<longrightarrow> blind_state_roundtrip_and_finalize E rng = Inr ()) \<and>
    (lucky E srv [ascii ''x''] [ascii ''info''] \<longrightarrow> finalize_batch_rejects_mismatched_lengths E rng = Inr ()) \<and>
    (lucky E srv [ascii ''alpha'', ascii ''beta''] [ascii ''info-a'', ascii ''info-b''] \<and>
       tweak E (ascii ''info-a'') \<noteq> tweak E (ascii ''info-b'') \<longrightarrow>
       finalize_batch_rejects_mismatched_tweaked_key E rng = Inr ()) \<and>
    (lucky E srv [replicate (2 ^ 16 - 2) 0x42] [replicate (2 ^ 16 - 2) 0x42] \<longrightarrow>
       accepts_maximum_input_and_info_lengths E rng = Inr ()) \<and>
    (\<not> scalar_is_zero E m \<and>
       lucky E (PoprfServer_new (SecretKey (scalar_sub E (Scalar_ZERO E) m))) [ascii ''any-input''] [ascii ''other-info''] \<longrightarrow>
       blind_evaluate_rejects_inverse_zero E rng = Inr ()) \<and>
    public_key_roundtrip E rng = Inr () \<and> from_bytes_rejects_wrong_length E = Inr () \<and>
    blind_evaluate_batch_rejects_empty E rng = Inr () \<and>
    (lucky E srv [ascii ''x''] [ascii ''info''] \<longrightarrow>
       blinded_element_roundtrip E rng = Inr () \<and> evaluated_element_roundtrip E rng = Inr () \<and>
       proof_roundtrip E rng = Inr () \<and> poprf_output_from_bytes_roundtrip E rng = Inr () \<and>
       finalize_batch_rejects_empty E rng = Inr () \<and> rejects_oversized_input_and_info E rng = Inr ()) \<and>
    (\<not> is_identity E (input_element E (ascii ''secret-token-preimage'')) \<longrightarrow>
       poprf_input_table_debug_redacts_input E = Inr ()) \<and>
    (lucky E srv [ascii ''alpha'', ascii ''beta'', ascii ''gamma'', [], ascii ''delta'']
       [ascii ''batch-info'', [], ascii ''another-info''] \<longrightarrow>
       poprf_evaluate_tables_matches_evaluate E rng = Inr ()) \<and>
    (lucky E srv [ascii ''x''] [ascii ''info1'', ascii ''info2''] \<and>
       poprf E srv (ascii ''x'') (ascii ''info1'') \<noteq> poprf E srv (ascii ''x'') (ascii ''info2'') \<longrightarrow>
       poprf_different_info_yields_different_output E rng = Inr ()) \<and>
    (lucky E srv [ascii ''x'', ascii ''y''] [ascii ''info''] \<and>
       poprf E srv (ascii ''x'') (ascii ''info'') \<noteq> poprf E srv (ascii ''y'') (ascii ''info'') \<longrightarrow>
       poprf_output_constant_time_eq E rng = Inr ())"
  unfolding srv_def m_def
  by (intro conjI impI constants_match key_roundtrip_passes [OF E draw] quick_start_passes [OF E gen draw]
      random_roundtrip_passes [OF E gen draw] batch_roundtrip_passes [OF E gen draw]
      state_roundtrip_passes [OF E gen draw] mismatched_lengths_passes [OF E gen draw]
      maximum_lengths_passes [OF E gen draw] public_key_passes [OF E draw] rejections_pass [OF draw]
      encodings_pass [OF E gen draw] output_roundtrip_passes [OF E draw] oversized_passes [OF E gen draw]
      debug_passes [OF E] matches_evaluate_passes [OF E draw];
    (assumption | (elim conjE,
      (erule (1) mismatched_key_passes [OF E gen draw] | erule (1) inverse_zero_passes [OF E gen]
        | erule (1) outputs_differ_passes [OF E draw] | erule (1) constant_time_eq_passes [OF E draw]))))

theorem tests_pass_witness:
  "quick_start E5 1 = Inr () \<and> poprf_random_roundtrip E5 1 = Inr () \<and> poprf_batch_roundtrip E5 1 = Inr () \<and>
   poprf_evaluate_tables_matches_evaluate E5 1 = Inr () \<and> rejects_oversized_input_and_info E5 1 = Inr () \<and>
   proof_roundtrip E5 1 = Inr ()"
proof -
  have draw: "random_scalar E5 1 = Some (T1, 2)" by (subst E5_random) simp
  show ?thesis
    using tests_pass [OF E5_laws E5_random_some draw] E5_lucky by (simp only: E5_lucky simp_thms)
qed

end
