(* ===== verification/C_Abi_Tests.thy ===== *)
theory C_Abi_Tests
  imports C_Server Ffi_Client Ffi_Properties Handshake Tests
begin

text \<open>
  \<open>poprf-ristretto-ffi/tests/integration_test.rs\<close>: the integration tests of the C ABI, as programs over
  the model of the ABI. A test calls the exported functions through pointers to its own buffers, and uses
  the core crate where the source does. It passes when it returns; a failed assertion aborts it, and the
  use of a dead pointer is undefined, as in the functions themselves. Strings are bytes: that they are UTF-8,
  which the test also asks for, is not modelled. The buffers of a test stay where it puts them. The lemmas show that the tests pass
  and free every object they made.
\<close>

section \<open>Test programs\<close>

type_synonym ('a, 's, 'p, 't, 'h, 'r) c_test =
  "('s, 'p, 't, 'h, 'r) ffi \<Rightarrow> ('a \<times> ('s, 'p, 't, 'h, 'r) ffi) outcome"

definition then_do :: "('a, 's, 'p, 't, 'h, 'r) c_test \<Rightarrow> ('a \<Rightarrow> ('b, 's, 'p, 't, 'h, 'r) c_test) \<Rightarrow>
    ('b, 's, 'p, 't, 'h, 'r) c_test" where
  "then_do f g st = obind (f st) (\<lambda>(x, st). g x st)"

definition give :: "'a \<Rightarrow> ('a, 's, 'p, 't, 'h, 'r) c_test" where
  "give x st = Returns (x, st)"

definition assert_that :: "bool \<Rightarrow> (unit, 's, 'p, 't, 'h, 'r) c_test" where
  "assert_that b st = (if b then Returns ((), st) else Aborts)"

text \<open>A \<open>for\<close> loop over an array, or a \<open>map\<close> that collects.\<close>

fun for_each :: "'a list \<Rightarrow> ('a \<Rightarrow> ('b, 's, 'p, 't, 'h, 'r) c_test) \<Rightarrow> ('b list, 's, 'p, 't, 'h, 'r) c_test" where
  "for_each [] f = give []"
| "for_each (x # xs) f = then_do (f x) (\<lambda>y. then_do (for_each xs f) (\<lambda>ys. give (y # ys)))"

text \<open>\<open>unwrap\<close> on a result of the core crate, and on one that drew random numbers.\<close>

definition unwrapped :: "'a res \<Rightarrow> ('a, 's, 'p, 't, 'h, 'r) c_test" where
  "unwrapped r st = on_result r (\<lambda>x. Returns (x, st)) (\<lambda>e. Aborts)"

definition drawn :: "('r \<Rightarrow> 'a res \<times> 'r) \<Rightarrow> ('a, 's, 'p, 't, 'h, 'r) c_test" where
  "drawn f st = (case f (os_rng st) of (r, rng) \<Rightarrow> unwrapped r (st\<lparr>os_rng := rng\<rparr>))"

definition b64_bytes :: "('s, 'p, 't, 'h, 'r) lib \<Rightarrow> bytes \<Rightarrow> (bytes, 's, 'p, 't, 'h, 'r) c_test" where
  "b64_bytes L s st = (case B64_decode L s of Inl e \<Rightarrow> Aborts | Inr b \<Rightarrow> Returns (b, st))"

text \<open>The buffers of the test: bytes, arrays of handles, arrays of out slots, each at an address.\<close>

definition set_bytes :: "addr \<Rightarrow> bytes \<Rightarrow> (unit, 's, 'p, 't, 'h, 'r) c_test" where
  "set_bytes a b st = Returns ((), st\<lparr>c_bytes := (c_bytes st)(a \<mapsto> b)\<rparr>)"

definition set_handles :: "addr \<Rightarrow> addr list \<Rightarrow> (unit, 's, 'p, 't, 'h, 'r) c_test" where
  "set_handles a ps st = Returns ((), st\<lparr>c_handles := (c_handles st)(a \<mapsto> ps)\<rparr>)"

definition set_slots :: "addr \<Rightarrow> addr list \<Rightarrow> (unit, 's, 'p, 't, 'h, 'r) c_test" where
  "set_slots a ps st = Returns ((), st\<lparr>c_slots := (c_slots st)(a \<mapsto> map Some ps)\<rparr>)"

definition get_slots :: "addr \<Rightarrow> (addr list, 's, 'p, 't, 'h, 'r) c_test" where
  "get_slots a st =
     (case c_slots st a of
        None \<Rightarrow> Undefined
      | Some slots \<Rightarrow> if None \<in> set slots then Undefined else Returns (map the slots, st))"

definition take_cstring :: "addr \<Rightarrow> (bytes, 's, 'p, 't, 'h, 'r) c_test" where
  "take_cstring p =
     then_do (assert_that (p \<noteq> NULL)) (\<lambda>_.
     then_do (\<lambda>st. obind (deref as_cstring p st) (\<lambda>s. Returns (s, st))) (\<lambda>s.
     then_do (poprf_c_char_destroy p) (\<lambda>_. give s)))"

definition last_error :: "('s, 'p, 't, 'h, 'r) lib \<Rightarrow> (bytes option, 's, 'p, 't, 'h, 'r) c_test" where
  "last_error L =
     then_do (poprf_last_error_message L) (\<lambda>p.
     if p = NULL then give None else then_do (take_cstring p) (\<lambda>s. give (Some s)))"

section \<open>The tests\<close>

text \<open>A slice of a buffer is its address and its length. An empty one is NULL where the source passes NULL.\<close>

definition test_seed :: bytes where
  "test_seed = map word_of_nat [0..<32]"

definition max_ok :: bytes where
  "max_ok = replicate (2 ^ 16 - 2) 0x42"

definition too_long :: "byte \<Rightarrow> bytes" where
  "too_long x = replicate (2 ^ 16 - 1) x"

text \<open>\<open>encode\<close>, then \<open>take_cstring\<close>.\<close>

definition text_via :: "(addr \<Rightarrow> (addr, 's, 'p, 't, 'h, 'r) c_test) \<Rightarrow> addr \<Rightarrow> (bytes, 's, 'p, 't, 'h, 'r) c_test" where
  "text_via encode p = then_do (encode p) take_cstring"

definition server_side_round_trip_via_c_abi :: "('s, 'p, 't, 'h, 'r) lib \<Rightarrow> (unit, 's, 'p, 't, 'h, 'r) c_test" where
  "server_side_round_trip_via_c_abi L =
     (let info = ascii ''poprf-ffi-integration-test''; input = ascii ''test-token-preimage-bytes-00000000'' in
     then_do (set_bytes 1 test_seed) (\<lambda>_. then_do (set_bytes 2 info) (\<lambda>_. then_do (set_bytes 3 input) (\<lambda>_.
     then_do (poprf_secret_key_from_seed L 1 (length test_seed) 2 (length info)) (\<lambda>sk.
     then_do (assert_that (sk \<noteq> NULL)) (\<lambda>_.
     then_do (text_via (poprf_secret_key_encode_base64 L) sk) (\<lambda>sk_b64.
     then_do (assert_that (sk_b64 \<noteq> [])) (\<lambda>_.
     then_do (set_bytes 4 sk_b64) (\<lambda>_.
     then_do (poprf_secret_key_decode_base64 L 4 (length sk_b64)) (\<lambda>sk2.
     then_do (assert_that (sk2 \<noteq> NULL)) (\<lambda>_.
     then_do (poprf_secret_key_destroy sk2) (\<lambda>_.
     then_do (poprf_public_key_from_secret L sk) (\<lambda>pk_raw.
     then_do (assert_that (pk_raw \<noteq> NULL)) (\<lambda>_.
     then_do (text_via (poprf_public_key_encode_base64 L) pk_raw) (\<lambda>pk_b64.
     then_do (assert_that (pk_b64 \<noteq> [])) (\<lambda>_.
     then_do (poprf_public_key_destroy pk_raw) (\<lambda>_.
     then_do (b64_bytes L pk_b64) (\<lambda>pk_bytes.
     then_do (unwrapped (PublicKey_from_bytes (core L) pk_bytes)) (\<lambda>pk_obj.
     let client = PoprfClient_new pk_obj in
     then_do (drawn (PoprfClient_blind (core L) client input info)) (\<lambda>(state, blinded).
     let blinded_b64 = B64_encode L (BlindedElement_to_bytes (core L) blinded) in
     then_do (set_bytes 5 blinded_b64) (\<lambda>_.
     then_do (poprf_blinded_element_decode_base64 L 5 (length blinded_b64)) (\<lambda>be_ptr.
     then_do (assert_that (be_ptr \<noteq> NULL)) (\<lambda>_.
     then_do (set_handles 1 [be_ptr]) (\<lambda>_. then_do (set_slots 1 [NULL]) (\<lambda>_. then_do (set_slots 2 [NULL]) (\<lambda>_.
     then_do (poprf_blind_evaluate_batch L sk 1 1 2 (length info) 1 2) (\<lambda>rc.
     then_do (assert_that (rc = 0)) (\<lambda>_.
     then_do (get_slots 1) (\<lambda>out_eval. then_do (get_slots 2) (\<lambda>out_proof.
     let eval_ptr = hd out_eval; proof_ptr = hd out_proof in
     then_do (assert_that (eval_ptr \<noteq> NULL)) (\<lambda>_.
     then_do (assert_that (proof_ptr \<noteq> NULL)) (\<lambda>_.
     then_do (text_via (poprf_evaluated_element_encode_base64 L) eval_ptr) (\<lambda>eval_b64.
     then_do (text_via (poprf_proof_encode_base64 L) proof_ptr) (\<lambda>proof_b64.
     then_do (b64_bytes L eval_b64) (\<lambda>eval_bytes.
     then_do (b64_bytes L proof_b64) (\<lambda>proof_bytes.
     then_do (b64_bytes L blinded_b64) (\<lambda>blinded_bytes.
     then_do (unwrapped (EvaluatedElement_from_bytes (core L) eval_bytes)) (\<lambda>eval_obj.
     then_do (unwrapped (Proof_from_bytes (core L) proof_bytes)) (\<lambda>proof_obj.
     then_do (unwrapped (BlindedElement_from_bytes (core L) blinded_bytes)) (\<lambda>blinded_obj.
     then_do (unwrapped (PublicKey_from_bytes (core L) pk_bytes)) (\<lambda>pk_obj2.
     let client2 = PoprfClient_new pk_obj2 in
     then_do (unwrapped (PoprfClient_finalize_batch (core L) client2 [input] [state] [eval_obj] [blinded_obj]
       proof_obj info)) (\<lambda>outputs.
     then_do (assert_that (length outputs = 1)) (\<lambda>_.
     let expected_b64 = B64_encode L (PoprfOutput_as_bytes (hd outputs)) in
     then_do (set_bytes 6 expected_b64) (\<lambda>_.
     then_do (poprf_evaluate L sk 3 (length input) 2 (length info)) (\<lambda>out_ptr.
     then_do (assert_that (out_ptr \<noteq> NULL)) (\<lambda>_.
     then_do (text_via (poprf_output_encode_base64 L) out_ptr) (\<lambda>encoded.
     then_do (assert_that (encoded = expected_b64)) (\<lambda>_.
     then_do (poprf_output_eq_base64 L out_ptr 6 (length expected_b64)) (\<lambda>eq_rc.
     then_do (assert_that (eq_rc = 1)) (\<lambda>_.
     let wrong_b64 = B64_encode L (replicate 64 0) in
     then_do (set_bytes 7 wrong_b64) (\<lambda>_.
     then_do (poprf_output_eq_base64 L out_ptr 7 (length wrong_b64)) (\<lambda>ne_rc.
     then_do (assert_that (ne_rc = 0)) (\<lambda>_.
     then_do (poprf_output_destroy out_ptr) (\<lambda>_.
     then_do (poprf_evaluated_element_destroy eval_ptr) (\<lambda>_.
     then_do (poprf_blinded_element_destroy be_ptr) (\<lambda>_.
     then_do (poprf_proof_destroy proof_ptr) (\<lambda>_.
     poprf_secret_key_destroy sk)))))))))))))))))))))))))))))))))))))))))))))))))))))))))"

text \<open>The two nested loops of the next test: all inputs under one \<open>info\<close>, and one output of the batch.\<close>

definition one_output :: "('s, 'p, 't, 'h, 'r) lib \<Rightarrow> addr \<Rightarrow> addr \<Rightarrow> nat \<Rightarrow> addr \<Rightarrow> nat \<Rightarrow> addr \<Rightarrow>
    (unit, 's, 'p, 't, 'h, 'r) c_test" where
  "one_output L sk inp len info info_len out =
     then_do (poprf_evaluate L sk inp len info info_len) (\<lambda>single.
     then_do (assert_that (single \<noteq> NULL)) (\<lambda>_.
     then_do (text_via (poprf_output_encode_base64 L) out) (\<lambda>got.
     then_do (text_via (poprf_output_encode_base64 L) single) (\<lambda>expect.
     then_do (assert_that (got = expect)) (\<lambda>_.
     poprf_output_destroy single)))))"

definition one_info :: "('s, 'p, 't, 'h, 'r) lib \<Rightarrow> addr \<Rightarrow> (addr \<times> nat) list \<Rightarrow> addr \<Rightarrow> nat \<Rightarrow>
    (unit list, 's, 'p, 't, 'h, 'r) c_test" where
  "one_info L sk inputs info info_len =
     then_do (set_slots 1 [NULL, NULL, NULL]) (\<lambda>_.
     then_do (poprf_evaluate_tables L sk 1 3 info info_len 1) (\<lambda>rc.
     then_do (assert_that (rc = 0)) (\<lambda>_.
     then_do (get_slots 1) (\<lambda>outs.
     then_do (for_each (zip inputs outs) (\<lambda>((inp, len), out). one_output L sk inp len info info_len out)) (\<lambda>_.
     for_each outs poprf_output_destroy)))))"

definition evaluate_tables_via_c_abi :: "('s, 'p, 't, 'h, 'r) lib \<Rightarrow> (unit, 's, 'p, 't, 'h, 'r) c_test" where
  "evaluate_tables_via_c_abi L =
     (let seed_info = ascii ''poprf-ffi-integration-test'';
          inputs = [(3, 5), (4, 5), (5, 5)]; infos = [(6, 6), (7, 6)] in
     then_do (set_bytes 1 test_seed) (\<lambda>_. then_do (set_bytes 2 seed_info) (\<lambda>_.
     then_do (set_bytes 3 (ascii ''tok-0'')) (\<lambda>_. then_do (set_bytes 4 (ascii ''tok-1'')) (\<lambda>_.
     then_do (set_bytes 5 (ascii ''tok-2'')) (\<lambda>_.
     then_do (set_bytes 6 (ascii ''info-a'')) (\<lambda>_. then_do (set_bytes 7 (ascii ''info-b'')) (\<lambda>_.
     then_do (set_bytes 8 (ascii ''s'')) (\<lambda>_. then_do (set_bytes 9 (ascii ''x'')) (\<lambda>_.
     then_do (poprf_secret_key_from_seed L 1 (length test_seed) 2 (length seed_info)) (\<lambda>sk.
     then_do (assert_that (sk \<noteq> NULL)) (\<lambda>_.
     then_do (for_each inputs (\<lambda>(inp, len).
       then_do (poprf_input_table_new L inp len) (\<lambda>t. then_do (assert_that (t \<noteq> NULL)) (\<lambda>_. give t)))) (\<lambda>tables.
     then_do (set_handles 1 tables) (\<lambda>_.
     then_do (for_each infos (\<lambda>(info, info_len). one_info L sk inputs info info_len))
     (\<lambda>_.
     then_do (poprf_evaluate L sk 8 1 8 1) (\<lambda>s.
     then_do (assert_that (s \<noteq> NULL)) (\<lambda>_.
     then_do (set_slots 1 [s, s]) (\<lambda>_.
     then_do (poprf_evaluate_tables L sk 1 0 9 1 1) (\<lambda>rc.
     then_do (assert_that (rc \<noteq> 0)) (\<lambda>_.
     then_do (get_slots 1) (\<lambda>outs. then_do (assert_that (outs = [s, s])) (\<lambda>_.
     then_do (set_slots 1 [s, s]) (\<lambda>_.
     then_do (set_handles 2 [hd tables, NULL]) (\<lambda>_.
     then_do (poprf_evaluate_tables L sk 2 2 9 1 1) (\<lambda>rc.
     then_do (assert_that (rc \<noteq> 0)) (\<lambda>_.
     then_do (get_slots 1) (\<lambda>outs. then_do (assert_that (outs = [s, s])) (\<lambda>_.
     then_do (poprf_output_destroy s) (\<lambda>_.
     then_do (for_each tables poprf_input_table_destroy) (\<lambda>_.
     poprf_secret_key_destroy sk))))))))))))))))))))))))))))))"

text \<open>The cases of the next test: key, array, \<open>info\<close>, and whether the out array is NULL.\<close>

definition evaluate_tables_rejects_bad_args_via_c_abi :: "('s, 'p, 't, 'h, 'r) lib \<Rightarrow> (unit, 's, 'p, 't, 'h, 'r) c_test" where
  "evaluate_tables_rejects_bad_args_via_c_abi L =
     then_do (set_bytes 1 test_seed) (\<lambda>_. then_do (set_bytes 2 (ascii ''k'')) (\<lambda>_.
     then_do (set_bytes 3 (ascii ''tok'')) (\<lambda>_. then_do (set_bytes 4 (ascii ''s'')) (\<lambda>_.
     then_do (set_bytes 5 (ascii ''x'')) (\<lambda>_. then_do (set_bytes 6 (too_long 0x41)) (\<lambda>_.
     then_do (poprf_secret_key_from_seed L 1 (length test_seed) 2 1) (\<lambda>sk.
     then_do (assert_that (sk \<noteq> NULL)) (\<lambda>_.
     then_do (poprf_input_table_new L 3 3) (\<lambda>t.
     then_do (assert_that (t \<noteq> NULL)) (\<lambda>_.
     then_do (set_handles 1 [t]) (\<lambda>_.
     then_do (poprf_evaluate L sk 4 1 4 1) (\<lambda>s.
     then_do (assert_that (s \<noteq> NULL)) (\<lambda>_.
     then_do (for_each
       [(NULL, 1, 5, 1, False), (sk, NULL, 5, 1, False), (sk, 1, 5, 1, True), (sk, 1, NULL, 1, False),
        (sk, 1, 6, length (too_long 0x41), False)]
       (\<lambda>(k, arr, ip, il, null_out).
         then_do (set_slots 1 [s]) (\<lambda>_.
         let out = if null_out then NULL else 1 in
         then_do (poprf_evaluate_tables L k arr 1 ip il out) (\<lambda>rc.
         then_do (assert_that (rc = - 1)) (\<lambda>_.
         then_do (last_error L) (\<lambda>e. then_do (assert_that (e \<noteq> None)) (\<lambda>_.
         then_do (get_slots 1) (\<lambda>outs. assert_that (outs = [s])))))))))
     (\<lambda>_.
     then_do (set_slots 1 [NULL]) (\<lambda>_.
     then_do (poprf_evaluate_tables L sk 1 1 NULL 0 1) (\<lambda>rc.
     then_do (assert_that (rc = 0)) (\<lambda>_.
     then_do (last_error L) (\<lambda>e. then_do (assert_that (e = None)) (\<lambda>_.
     then_do (poprf_evaluate L sk 3 3 NULL 0) (\<lambda>single.
     then_do (get_slots 1) (\<lambda>outs.
     then_do (text_via (poprf_output_encode_base64 L) (hd outs)) (\<lambda>a.
     then_do (text_via (poprf_output_encode_base64 L) single) (\<lambda>b.
     then_do (assert_that (a = b)) (\<lambda>_.
     then_do (poprf_output_destroy single) (\<lambda>_.
     then_do (poprf_output_destroy (hd outs)) (\<lambda>_.
     then_do (poprf_output_destroy s) (\<lambda>_.
     then_do (poprf_input_table_destroy t) (\<lambda>_.
     poprf_secret_key_destroy sk))))))))))))))))))))))))))))"

definition input_table_edges_via_c_abi :: "('s, 'p, 't, 'h, 'r) lib \<Rightarrow> (unit, 's, 'p, 't, 'h, 'r) c_test" where
  "input_table_edges_via_c_abi L =
     then_do (set_bytes 1 test_seed) (\<lambda>_. then_do (set_bytes 2 (ascii ''k'')) (\<lambda>_.
     then_do (set_bytes 3 max_ok) (\<lambda>_. then_do (set_bytes 4 (too_long 0x42)) (\<lambda>_. then_do (set_bytes 5 (ascii ''i'')) (\<lambda>_.
     then_do (poprf_secret_key_from_seed L 1 (length test_seed) 2 1) (\<lambda>sk.
     then_do (assert_that (sk \<noteq> NULL)) (\<lambda>_.
     then_do (poprf_input_table_new L NULL 1) (\<lambda>p.
     then_do (assert_that (p = NULL)) (\<lambda>_.
     then_do (last_error L) (\<lambda>e.
     then_do (assert_that (e \<noteq> None)) (\<lambda>_.
     then_do (poprf_input_table_new L 4 (length (too_long 0x42))) (\<lambda>p.
     then_do (assert_that (p = NULL)) (\<lambda>_.
     then_do (last_error L) (\<lambda>e.
     then_do (assert_that (e \<noteq> None)) (\<lambda>_.
     then_do (poprf_input_table_new L NULL 0) (\<lambda>empty.
     then_do (assert_that (empty \<noteq> NULL)) (\<lambda>_.
     then_do (last_error L) (\<lambda>e.
     then_do (assert_that (e = None)) (\<lambda>_.
     then_do (poprf_input_table_new L 3 (length max_ok)) (\<lambda>max_t.
     then_do (assert_that (max_t \<noteq> NULL)) (\<lambda>_.
     then_do (set_handles 1 [empty, max_t, empty]) (\<lambda>_.
     then_do (set_slots 1 [NULL, NULL, NULL]) (\<lambda>_.
     then_do (poprf_evaluate_tables L sk 1 3 5 1 1) (\<lambda>rc.
     then_do (assert_that (rc = 0)) (\<lambda>_.
     then_do (poprf_evaluate L sk NULL 0 5 1) (\<lambda>expect_empty.
     then_do (poprf_evaluate L sk 3 (length max_ok) 5 1) (\<lambda>expect_max.
     let enc = text_via (poprf_output_encode_base64 L) in
     then_do (enc expect_empty) (\<lambda>e.
     then_do (enc expect_max) (\<lambda>m.
     then_do (get_slots 1) (\<lambda>outs.
     then_do (for_each outs enc) (\<lambda>texts.
     then_do (assert_that (texts = [e, m, e])) (\<lambda>_.
     then_do (for_each (outs @ [expect_empty, expect_max]) poprf_output_destroy) (\<lambda>_.
     then_do (poprf_input_table_destroy NULL) (\<lambda>_.
     then_do (poprf_input_table_destroy empty) (\<lambda>_.
     then_do (poprf_input_table_destroy max_t) (\<lambda>_.
     poprf_secret_key_destroy sk))))))))))))))))))))))))))))))))))))"

section \<open>Rules of the test programs\<close>

text \<open>
  The rules work on states in explicit form. \<open>good_heap\<close> is the part of the invariant that concerns the heap
  of such a state.
\<close>

definition good_heap :: "('s, 'p, 't, 'h, 'r) lib \<Rightarrow> (addr \<Rightarrow> ('s, 'p, 't, 'h) obj option) \<Rightarrow> bool" where
  "good_heap L h \<longleftrightarrow> finite (dom h) \<and> h NULL = None \<and> (\<forall>p x. h p = Some x \<longrightarrow> valid_obj (core L) x)"

abbreviation (input) state where
  "state h e b hs sl r \<equiv> \<lparr>heap = h, LAST_ERROR = e, c_bytes = b, c_handles = hs, c_slots = sl, os_rng = r\<rparr>"

lemma inv_state [simp]:
  "ffi_inv L (state h e b hs sl r) \<longleftrightarrow> good_heap L h \<and> (\<forall>msg. e = Some msg \<longrightarrow> 0 \<notin> set msg)"
  by (simp add: ffi_inv_def good_heap_def)

lemma good_heap_changes [simp]:
  "good_heap L h \<Longrightarrow> good_heap L (h(p := None))"
  "good_heap L h \<Longrightarrow> p \<noteq> NULL \<Longrightarrow> valid_obj (core L) x \<Longrightarrow> good_heap L (h(p \<mapsto> x))"
  by (auto simp: good_heap_def)

text \<open>The message that \<open>set_error\<close> stores.\<close>

definition stored_message :: "bytes \<Rightarrow> bytes" where
  "stored_message msg = (if 0 \<in> set msg then ascii ''error'' else msg)"

lemma stored_message_no_nul [simp]: "0 \<notin> set (stored_message msg)"
  by (simp add: stored_message_def ascii_simps)

lemma error_states:
  "clear_error (state h e b hs sl r) = state h None b hs sl r"
  "failed v msg (state h e b hs sl r) = (v, state h (Some (stored_message msg)) b hs sl r)"
  by (simp_all add: clear_error_def set_error_def failed_def stored_message_def)

lemma runs_then_do [simp]: "runs Q (then_do f g st) \<longleftrightarrow> runs (\<lambda>(x, st). runs Q (g x st)) (f st)"
  by (cases "f st") (auto simp: then_do_def split: prod.splits)

lemma runs_give [simp]: "runs Q (give x st) \<longleftrightarrow> Q (x, st)"
  by (simp add: give_def)

lemma runs_basic [simp]:
  "runs Q (assert_that b st) \<longleftrightarrow> b \<and> Q ((), st)"
  "runs Q (set_bytes a bs st) \<longleftrightarrow> Q ((), st\<lparr>c_bytes := (c_bytes st)(a \<mapsto> bs)\<rparr>)"
  "runs Q (set_handles a ps st) \<longleftrightarrow> Q ((), st\<lparr>c_handles := (c_handles st)(a \<mapsto> ps)\<rparr>)"
  "runs Q (set_slots a ps st) \<longleftrightarrow> Q ((), st\<lparr>c_slots := (c_slots st)(a \<mapsto> map Some ps)\<rparr>)"
  by (simp_all add: assert_that_def set_bytes_def set_handles_def set_slots_def)

lemma runs_get_slots [simp]:
  "c_slots st a \<noteq> None \<Longrightarrow> None \<notin> set (the (c_slots st a)) \<Longrightarrow>
     runs Q (get_slots a st) \<longleftrightarrow> Q (map the (the (c_slots st a)), st)"
  by (auto simp: get_slots_def)

lemma runs_unwrapped [simp]: "runs Q (unwrapped (Inr x) st) \<longleftrightarrow> Q (x, st)"
  by (simp add: unwrapped_def)

lemma runs_drawn [simp]:
  "runs Q (drawn f st) \<longleftrightarrow> (case f (os_rng st) of (r, rng) \<Rightarrow> runs Q (unwrapped r (st\<lparr>os_rng := rng\<rparr>)))"
  by (simp add: drawn_def split: prod.splits)

lemma runs_b64_bytes [simp]: "lib_laws L \<Longrightarrow> runs Q (b64_bytes L (B64_encode L bs) st) \<longleftrightarrow> Q (bs, st)"
  by (simp add: b64_bytes_def lib_laws_def b64_laws_def)

lemma test_lengths [simp]: "length test_seed = 32" "length max_ok = 65534" "length (too_long x) = 65535"
  by (simp_all add: test_seed_def max_ok_def too_long_def)

text \<open>Calls whose net effect on the state is known: they need no new address in the proof.\<close>

definition without :: "(addr \<Rightarrow> 'o option) \<Rightarrow> addr \<Rightarrow> addr \<Rightarrow> 'o option" where
  "without h p = h(p := None)"

lemma without_simps [simp]:
  "h p = None \<Longrightarrow> without h p = h"
  "h p = None \<Longrightarrow> without (h(p \<mapsto> x)) p = h"
  "q \<noteq> p \<Longrightarrow> without (h(q \<mapsto> x)) p = (without h p)(q \<mapsto> x)"
  by (auto simp: without_def)

lemma good_heap_without [simp]: "good_heap L h \<Longrightarrow> good_heap L (without h p)"
  by (simp add: without_def)

lemma destroyed:
  assumes "h p = Some x" "sel x = Some v" "p \<noteq> NULL"
  shows "drop_raw sel p (state h e b hs sl r) = Returns ((), state (without h p) e b hs sl r)"
  using assms by (simp add: drop_raw_def deref_def without_def)

lemma runs_destroy [simp]:
  "p \<noteq> NULL \<Longrightarrow> \<exists>x. h p = Some (OutputObj x) \<Longrightarrow>
     runs Q (poprf_output_destroy p (state h e b hs sl r)) \<longleftrightarrow> Q ((), state (without h p) e b hs sl r)"
  "p \<noteq> NULL \<Longrightarrow> \<exists>x. h p = Some (TableObj x) \<Longrightarrow>
     runs Q (poprf_input_table_destroy p (state h e b hs sl r)) \<longleftrightarrow> Q ((), state (without h p) e b hs sl r)"
  "p \<noteq> NULL \<Longrightarrow> \<exists>x. h p = Some (SecretKeyObj x) \<Longrightarrow>
     runs Q (poprf_secret_key_destroy p (state h e b hs sl r)) \<longleftrightarrow> Q ((), state (without h p) e b hs sl r)"
  "p \<noteq> NULL \<Longrightarrow> \<exists>x. h p = Some (PublicKeyObj x) \<Longrightarrow>
     runs Q (poprf_public_key_destroy p (state h e b hs sl r)) \<longleftrightarrow> Q ((), state (without h p) e b hs sl r)"
  "p \<noteq> NULL \<Longrightarrow> \<exists>x. h p = Some (BlindedObj x) \<Longrightarrow>
     runs Q (poprf_blinded_element_destroy p (state h e b hs sl r)) \<longleftrightarrow> Q ((), state (without h p) e b hs sl r)"
  "p \<noteq> NULL \<Longrightarrow> \<exists>x. h p = Some (EvaluatedObj x) \<Longrightarrow>
     runs Q (poprf_evaluated_element_destroy p (state h e b hs sl r)) \<longleftrightarrow> Q ((), state (without h p) e b hs sl r)"
  "p \<noteq> NULL \<Longrightarrow> \<exists>x. h p = Some (ProofObj x) \<Longrightarrow>
     runs Q (poprf_proof_destroy p (state h e b hs sl r)) \<longleftrightarrow> Q ((), state (without h p) e b hs sl r)"
  by (auto simp: destroy_defs destroyed)

lemma runs_destroy_null [simp]:
  "runs Q (poprf_output_destroy NULL st) \<longleftrightarrow> Q ((), st)" "runs Q (poprf_input_table_destroy NULL st) \<longleftrightarrow> Q ((), st)"
  by (simp_all add: destroy_defs drop_raw_def)

text \<open>A string that a call has just made is read and freed.\<close>

lemma take_fresh:
  assumes "p \<noteq> NULL" "h p = None"
  shows "runs Q (take_cstring p (state (h(p \<mapsto> CStringObj s)) e b hs sl r)) \<longleftrightarrow> Q (s, state h e b hs sl r)"
proof -
  have "without (h(p \<mapsto> CStringObj s)) p = h" using assms(2) by simp
  then show ?thesis using assms(1)
    by (simp add: take_cstring_def deref_def poprf_c_char_destroy_def destroyed)
qed

lemma runs_last_error:
  assumes L: "lib_laws L" and G: "good_heap L h" and e: "\<forall>msg. e = Some msg \<longrightarrow> 0 \<notin> set msg"
    and Q: "Q (e, state h e b hs sl r)"
  shows "runs Q (last_error L (state h e b hs sl r))"
  using Q G e
  by (cases e) (auto simp: last_error_def take_fresh intro!: ptr_wps [OF L])

lemma runs_text_via:
  assumes L: "lib_laws L" and enc: "encoder L sel to_bytes encode" and G: "good_heap L h"
    and obj: "h p = Some (mk v)" and sel: "\<And>v. sel (mk v) = Some v"
    and Q: "Q (B64_encode L (to_bytes v), state h None b hs sl r)"
  shows "runs Q (text_via encode p (state h e b hs sl r))"
proof -
  let ?s = "B64_encode L (to_bytes v)"
  have laws: "0 \<notin> set ?s" "alloc_laws L" using L by (simp_all add: lib_laws_def b64_laws_def)
  have nn: "p \<noteq> NULL" and fin: "finite (dom h)" using G obj by (cases "p = NULL"; simp add: good_heap_def)+
  obtain q where q: "malloc L h = q" by simp
  then have "q \<noteq> NULL" "h q = None" using laws(2) fin by (auto simp: alloc_laws_def)
  moreover have "encode p (state h e b hs sl r) = Returns (q, state (h(q \<mapsto> CStringObj ?s)) None b hs sl r)"
    using enc obj sel nn laws(1) q
    by (auto simp: encoder_def Let_def deref_def cstring_or_null_def return_box_def into_raw_def clear_error_def)
  ultimately show ?thesis using Q by (simp add: text_via_def take_fresh)
qed

lemma all_encoders:
  "encoder L as_secret_key (SecretKey_to_bytes (core L)) (poprf_secret_key_encode_base64 L)"
  "encoder L as_public_key (PublicKey_to_bytes (core L)) (poprf_public_key_encode_base64 L)"
  "encoder L as_evaluated (EvaluatedElement_to_bytes (core L)) (poprf_evaluated_element_encode_base64 L)"
  "encoder L as_proof (Proof_to_bytes (core L)) (poprf_proof_encode_base64 L)"
  "encoder L as_output PoprfOutput_as_bytes (poprf_output_encode_base64 L)"
  by (auto simp: encoder_def encode_defs)

lemmas text_wps =
  runs_text_via [OF _ all_encoders(1), where mk = SecretKeyObj, OF _ _ _ as_secret_key.simps(1)]
  runs_text_via [OF _ all_encoders(2), where mk = PublicKeyObj, OF _ _ _ as_public_key.simps(1)]
  runs_text_via [OF _ all_encoders(3), where mk = EvaluatedObj, OF _ _ _ as_evaluated.simps(1)]
  runs_text_via [OF _ all_encoders(4), where mk = ProofObj, OF _ _ _ as_proof.simps(1)]
  runs_text_via [OF _ all_encoders(5), where mk = OutputObj, OF _ _ _ as_output.simps(1)]

lemma if_None: "(if c then Some x else z) = None \<longleftrightarrow> \<not> c \<and> z = None"
  by simp

text \<open>What evaluates the side conditions and the specification of a call on an explicit state.\<close>

lemmas vcg_simps = readable_def arg_def bytes_from_raw_def check_def error_states
  handle_def handles_ok_def slots_ok_def live_def array_def fill_def object_def text_of_def
  if_None length_Suc_conv Let_def

lemmas vcg_rules = runs_last_error text_wps call_wps

section \<open>The tests pass\<close>

lemma evaluated:
  assumes E: "env_laws E" and "length x \<le> 65534" "\<not> is_identity E (input_element E x)"
    and "length info \<le> 65534" "\<not> scalar_is_zero E (server_t E srv info)"
  shows "PoprfServer_evaluate E srv x info = Inr (poprf E srv x info)"
    and "valid_obj E (OutputObj (poprf E srv x info))"
  using assms evaluate_length [OF E, of srv x info] by (simp_all add: evaluate_spec)

lemma table_hashed:
  assumes E: "env_laws E" and "length x \<le> 65534" "\<not> is_identity E (input_element E x)"
  shows "\<exists>tb. PoprfInputTable_new E x = Inr tb \<and> valid_obj E (TableObj tb)"
proof -
  obtain tb where "PoprfInputTable_new E x = Inr tb" using assms by (simp add: input_table_spec)
  then show ?thesis by auto
qed

lemma tables_evaluated:
  assumes E: "env_laws E" and "tables \<noteq> []"
    and "list_all2 (\<lambda>x tb. PoprfInputTable_new E x = Inr tb) xs tables"
    and "list_all2 (\<lambda>x out. PoprfServer_evaluate E srv x info = Inr out) xs outs"
  shows "PoprfServer_evaluate_tables E srv tables info = Inr outs"
  using tables_eq_evaluate [OF E assms(2,3)] assms(4) by (simp add: rmap_eq_Inr_iff)

lemma input_table_edges_passes:
  assumes L: "lib_laws L" and G: "good_heap L h" and msg: "\<forall>msg. e = Some msg \<longrightarrow> 0 \<notin> set msg"
    and sk: "derive_key_pair (core L) test_seed (ascii ''k'') = Inr (sk, pk)"
    and lucky: "lucky (core L) (PoprfServer_new sk) [[], max_ok] [ascii ''i'']"
  shows "runs (\<lambda>(_, st'). heap st' = h) (input_table_edges_via_c_abi L (state h e b hs sl r))"
proof -
  let ?E = "core L" and ?srv = "PoprfServer_new sk" and ?i = "ascii ''i''"
  have E: "env_laws ?E" by (rule core_laws [OF L])
  obtain tb1 tb2 where tb: "PoprfInputTable_new ?E [] = Inr tb1" "valid_obj ?E (TableObj tb1)"
    "PoprfInputTable_new ?E max_ok = Inr tb2" "valid_obj ?E (TableObj tb2)"
    using table_hashed [OF E, of "[]"] table_hashed [OF E, of max_ok] lucky by (simp del: valid_obj.simps) blast
  have sk_ok: "valid_obj ?E (SecretKeyObj sk)" using derive_key_pair_valid [OF sk] by simp
  have none: "PoprfInputTable_new ?E (too_long 0x42) = Fail InputTooLong" by (simp add: input_table_spec [OF E])
  have ev: "PoprfServer_evaluate ?E ?srv [] ?i = Inr (poprf ?E ?srv [] ?i)"
    "PoprfServer_evaluate ?E ?srv max_ok ?i = Inr (poprf ?E ?srv max_ok ?i)"
    "valid_obj ?E (OutputObj (poprf ?E ?srv [] ?i))" "valid_obj ?E (OutputObj (poprf ?E ?srv max_ok ?i))"
    using lucky by (auto intro!: evaluated [OF E] simp del: valid_obj.simps)
  have batch: "PoprfServer_evaluate_tables ?E ?srv [tb1, tb2, tb1] ?i =
      Inr [poprf ?E ?srv [] ?i, poprf ?E ?srv max_ok ?i, poprf ?E ?srv [] ?i]"
    using tb(1,3) ev(1,2) by (intro tables_evaluated [OF E, where xs = "[[], max_ok, []]"]) simp_all
  show ?thesis
    unfolding input_table_edges_via_c_abi_def using sk sk_ok tb none batch ev msg
    apply (simp add: G L Let_def del: valid_obj.simps)
    apply (rule vcg_rules [OF L], (simp add: G vcg_simps del: valid_obj.simps)+,
      (clarsimp simp: vcg_simps simp del: valid_obj.simps)?)+
    done
qed

lemma rejects_bad_args_passes:
  assumes L: "lib_laws L" and G: "good_heap L h" and msg: "\<forall>msg. e = Some msg \<longrightarrow> 0 \<notin> set msg"
    and sk: "derive_key_pair (core L) test_seed (ascii ''k'') = Inr (sk, pk)"
    and lucky: "lucky (core L) (PoprfServer_new sk) [ascii ''tok'', ascii ''s''] [[], ascii ''s'']"
  shows "runs (\<lambda>(_, st'). heap st' = h) (evaluate_tables_rejects_bad_args_via_c_abi L (state h e b hs sl r))"
proof -
  let ?E = "core L" and ?srv = "PoprfServer_new sk" and ?x = "ascii ''tok''" and ?s = "ascii ''s''"
  have E: "env_laws ?E" by (rule core_laws [OF L])
  obtain tb where tb: "PoprfInputTable_new ?E ?x = Inr tb" "valid_obj ?E (TableObj tb)"
    using table_hashed [OF E, of ?x] lucky by (simp del: valid_obj.simps) blast
  have sk_ok: "valid_obj ?E (SecretKeyObj sk)" using derive_key_pair_valid [OF sk] by simp
  have ev: "PoprfServer_evaluate ?E ?srv ?x [] = Inr (poprf ?E ?srv ?x [])"
    "PoprfServer_evaluate ?E ?srv ?s ?s = Inr (poprf ?E ?srv ?s ?s)"
    "valid_obj ?E (OutputObj (poprf ?E ?srv ?x []))" "valid_obj ?E (OutputObj (poprf ?E ?srv ?s ?s))"
    using lucky by (auto intro!: evaluated [OF E] simp del: valid_obj.simps)
  have batch: "PoprfServer_evaluate_tables ?E ?srv [tb] [] = Inr [poprf ?E ?srv ?x []]"
    "PoprfServer_evaluate_tables ?E ?srv [tb] (too_long 0x41) = Fail InputTooLong"
    using tb(1) ev(1) lucky tables_eq_evaluate [OF E, of "[tb]" "[?x]"] by (simp_all add: evaluate_spec [OF E])
  show ?thesis
    unfolding evaluate_tables_rejects_bad_args_via_c_abi_def using sk sk_ok tb batch ev msg
    apply (simp add: G L Let_def del: valid_obj.simps)
    apply (rule vcg_rules [OF L], (simp add: G vcg_simps del: valid_obj.simps)+,
      (clarsimp simp: vcg_simps simp del: valid_obj.simps)?)+
    done
qed

lemma ascii_empty [simp]: "ascii s = [] \<longleftrightarrow> s = []"
  by (simp add: ascii_def)

lemma good_heap_null: "good_heap L h \<Longrightarrow> h p = Some x \<Longrightarrow> p \<noteq> NULL"
  by (cases "p = NULL") (simp_all add: good_heap_def)

text \<open>A buffer of the test that holds a slice.\<close>

definition holds :: "(addr \<Rightarrow> bytes option) \<Rightarrow> addr \<Rightarrow> nat \<Rightarrow> bytes \<Rightarrow> bool" where
  "holds b a n x \<longleftrightarrow> a \<noteq> NULL \<and> x \<noteq> [] \<and> n = length x \<and> b a = Some x"

lemma runs_one_output:
  assumes L: "lib_laws L" and G: "good_heap L h" and e: "\<forall>msg. e = Some msg \<longrightarrow> 0 \<notin> set msg"
    and objs: "h p = Some (SecretKeyObj sk)" "h out = Some (OutputObj o')"
    and mem: "holds b inp len x" "holds b info info_len i"
    and ev: "PoprfServer_evaluate (core L) (PoprfServer_new sk) x i = Inr o'" "valid_obj (core L) (OutputObj o')"
    and Q: "Q ((), state h None b hs sl r)"
  shows "runs Q (one_output L p inp len info info_len out (state h e b hs sl r))"
  unfolding one_output_def using objs mem ev Q e good_heap_null [OF G objs(1)] good_heap_null [OF G objs(2)]
  apply (simp add: G L Let_def del: valid_obj.simps)
  apply (rule vcg_rules [OF L], (simp add: G vcg_simps holds_def del: valid_obj.simps)+,
    (clarsimp simp: vcg_simps simp del: valid_obj.simps)?)+
  done

lemma runs_one_info:
  assumes L: "lib_laws L" and G: "good_heap L h" and e: "\<forall>msg. e = Some msg \<longrightarrow> 0 \<notin> set msg"
    and sk: "h p = Some (SecretKeyObj sk)" and tables: "hs 1 = Some [p0, p1, p2]"
      "h p0 = Some (TableObj t0)" "h p1 = Some (TableObj t1)" "h p2 = Some (TableObj t2)"
    and mem: "holds b a0 n0 x0" "holds b a1 n1 x1" "holds b a2 n2 x2" "holds b info info_len i"
    and batch: "PoprfServer_evaluate_tables (core L) (PoprfServer_new sk) [t0, t1, t2] i = Inr [o0, o1, o2]"
    and ev: "PoprfServer_evaluate (core L) (PoprfServer_new sk) x0 i = Inr o0"
      "PoprfServer_evaluate (core L) (PoprfServer_new sk) x1 i = Inr o1"
      "PoprfServer_evaluate (core L) (PoprfServer_new sk) x2 i = Inr o2"
    and valid: "valid_obj (core L) (OutputObj o0)" "valid_obj (core L) (OutputObj o1)" "valid_obj (core L) (OutputObj o2)"
    and Q: "\<And>us sl'. Q (us, state h None b hs sl' r)"
  shows "runs Q (one_info L p [(a0, n0), (a1, n1), (a2, n2)] info info_len (state h e b hs sl r))"
proof -
  note objs = sk tables
  note nn = good_heap_null [OF G objs(1)] good_heap_null [OF G objs(3)] good_heap_null [OF G objs(4)] good_heap_null [OF G objs(5)]
  have i: "info \<noteq> NULL" "i \<noteq> []" "b info = Some i" "info_len = length i" "holds b info (length i) i"
    using mem(4) by (simp_all add: holds_def)
  note one = runs_one_output [OF L _ _ _ _ mem(1) i(5) ev(1) valid(1), where p = p]
    runs_one_output [OF L _ _ _ _ mem(2) i(5) ev(2) valid(2), where p = p]
    runs_one_output [OF L _ _ _ _ mem(3) i(5) ev(3) valid(3), where p = p]
  show ?thesis
    unfolding one_info_def using objs nn batch valid i(1-4) e
    apply (simp add: G L Let_def del: valid_obj.simps)
    apply (rule vcg_rules [OF L], (simp add: G vcg_simps del: valid_obj.simps)+,
      (clarsimp simp: vcg_simps simp del: valid_obj.simps)?)
    apply (rule one, (auto simp: G simp del: valid_obj.simps; fail)+, simp only: prod.case)+
    by (auto simp: Q)
qed

lemma evaluate_tables_passes:
  assumes L: "lib_laws L" and G: "good_heap L h" and msg: "\<forall>msg. e = Some msg \<longrightarrow> 0 \<notin> set msg"
    and sk: "derive_key_pair (core L) test_seed (ascii ''poprf-ffi-integration-test'') = Inr (sk, pk)"
    and lucky: "lucky (core L) (PoprfServer_new sk) [ascii ''tok-0'', ascii ''tok-1'', ascii ''tok-2'', ascii ''s'']
      [ascii ''info-a'', ascii ''info-b'', ascii ''s'']"
  shows "runs (\<lambda>(_, st'). heap st' = h) (evaluate_tables_via_c_abi L (state h e b hs sl r))"
proof -
  let ?E = "core L" and ?srv = "PoprfServer_new sk" and ?s = "ascii ''s''"
  let ?xs = "[ascii ''tok-0'', ascii ''tok-1'', ascii ''tok-2'']" and ?infos = "[ascii ''info-a'', ascii ''info-b'']"
  have E: "env_laws ?E" by (rule core_laws [OF L])
  have sk_ok: "valid_obj ?E (SecretKeyObj sk)" using derive_key_pair_valid [OF sk] by simp
  have "\<forall>x \<in> set ?xs. \<exists>tb. PoprfInputTable_new ?E x = Inr tb \<and> valid_obj ?E (TableObj tb)"
    using lucky by (auto intro!: table_hashed [OF E] simp del: valid_obj.simps)
  then obtain tb where tb: "\<forall>x \<in> set ?xs. PoprfInputTable_new ?E x = Inr (tb x) \<and> valid_obj ?E (TableObj (tb x))"
    by (rule bchoice [THEN exE])
  have ev: "\<forall>x \<in> set ?xs. \<forall>i \<in> set ?infos. PoprfServer_evaluate ?E ?srv x i = Inr (poprf ?E ?srv x i) \<and>
      valid_obj ?E (OutputObj (poprf ?E ?srv x i))"
    and s: "PoprfServer_evaluate ?E ?srv ?s ?s = Inr (poprf ?E ?srv ?s ?s)" "valid_obj ?E (OutputObj (poprf ?E ?srv ?s ?s))"
    using lucky by (auto intro!: evaluated [OF E] simp del: valid_obj.simps)
  have "PoprfServer_evaluate_tables ?E ?srv (map tb ?xs) i = Inr (map (\<lambda>x. poprf ?E ?srv x i) ?xs)" if "i \<in> set ?infos" for i
    using that tb ev by (intro tables_evaluated [OF E, where xs = ?xs]) auto
  then have batch: "\<forall>i \<in> set ?infos. PoprfServer_evaluate_tables ?E ?srv (map tb ?xs) i = Inr (map (\<lambda>x. poprf ?E ?srv x i) ?xs)"
    by blast
  have one: "runs Q (one_info L p [(3, 5), (4, 5), (5, 5)] a 6 (state h e b hs sl r))"
    if "\<forall>msg. e = Some msg \<longrightarrow> 0 \<notin> set msg" "good_heap L h" "h p = Some (SecretKeyObj sk)" "hs 1 = Some [p0, p1, p2]"
      "h p0 = Some (TableObj (tb (?xs ! 0)))" "h p1 = Some (TableObj (tb (?xs ! 1)))" "h p2 = Some (TableObj (tb (?xs ! 2)))"
      "holds b 3 5 (?xs ! 0)" "holds b 4 5 (?xs ! 1)" "holds b 5 5 (?xs ! 2)" "i \<in> set ?infos" "holds b a 6 i"
      "\<And>us sl'. Q (us, state h None b hs sl' r)"
    for Q p a h e b hs sl r p0 p1 p2 i
  proof -
    have "\<forall>x \<in> set ?xs. PoprfServer_evaluate ?E ?srv x i = Inr (poprf ?E ?srv x i) \<and> valid_obj ?E (OutputObj (poprf ?E ?srv x i))"
      using ev that(11) by blast
    with batch [rule_format, OF that(11)] show ?thesis using that(13)
      by (intro runs_one_info [where h = h and b = b and hs = hs and ?o0.0 = "poprf ?E ?srv (?xs ! 0) i" and
            ?o1.0 = "poprf ?E ?srv (?xs ! 1) i" and ?o2.0 = "poprf ?E ?srv (?xs ! 2) i", OF L that(2,1,3-10,12)])
        (simp_all del: valid_obj.simps)
  qed
  show ?thesis
    unfolding evaluate_tables_via_c_abi_def using sk sk_ok tb s msg
    apply (simp add: G L Let_def del: valid_obj.simps)
    apply (rule vcg_rules [OF L], (simp add: G vcg_simps del: valid_obj.simps)+,
      (clarsimp simp: vcg_simps simp del: valid_obj.simps)?)+
    apply (rule one [where i = "ascii ''info-a''"], (simp add: G holds_def del: valid_obj.simps)+)
    apply (rule one [where i = "ascii ''info-b''"], (simp add: G holds_def del: valid_obj.simps)+)
    apply (rule vcg_rules [OF L], (simp add: G vcg_simps del: valid_obj.simps)+,
      (clarsimp simp: vcg_simps simp del: valid_obj.simps)?)+
    done
qed

text \<open>The values of a run with one input, and their encodings.\<close>

lemma run_values:
  assumes E: "env_laws E" and gen: "\<And>rng. random_scalar E rng \<noteq> None"
    and len: "length x \<le> 65534" "length info \<le> 65534"
    and good: "\<not> is_identity E (input_element E x)" "\<not> scalar_is_zero E (server_t E srv info)"
  obtains st bl r1 ev pf r2 where
    "PoprfClient_blind E (client_of E srv) x info r = (Inr (st, bl), r1)"
    "PoprfServer_blind_evaluate_batch E srv r1 [bl] info = (Inr ([ev], pf), r2)"
    "PoprfClient_finalize_batch E (client_of E srv) [x] [st] [ev] [bl] pf info = Inr [poprf E srv x info]"
    "BlindedElement_from_bytes E (BlindedElement_to_bytes E bl) = Inr bl" "valid_blinded E bl"
    "EvaluatedElement_from_bytes E (EvaluatedElement_to_bytes E ev) = Inr ev" "valid_evaluated E ev"
    "Proof_from_bytes E (Proof_to_bytes E pf) = Inr pf" "random_scalar E r1 \<noteq> None"
proof -
  have ok: "encoding_laws E" by (rule env_lawsD(3) [OF E])
  obtain st bl r1 where blind: "PoprfClient_blind E (client_of E srv) x info r = (Inr (st, bl), r1)"
    using blinding_call [OF E gen len good] by blast
  then have bb: "blinded_batch E (client_of E srv) info [x] [st] [bl]" by (auto simp: blinded_batch_def)
  obtain k r2 where k: "random_scalar E r1 = Some (k, r2)" using gen [of r1] by auto
  from batch_completes [OF E bb _ _ this] obtain evs pf where
    eval: "PoprfServer_blind_evaluate_batch E srv r1 [bl] info = (Inr (evs, pf), r2)"
    and fin: "PoprfClient_finalize_batch E (client_of E srv) [x] [st] evs [bl] pf info = Inr [poprf E srv x info]"
    by auto
  have "length evs = 1" using fin by (simp add: finalize_batch_spec [OF E] split: if_splits)
  then obtain ev where ev: "evs = [ev]" by (auto simp: length_Suc_conv)
  have "valid_blinded E bl" "valid_evaluated E ev"
    using blinded_not_identity [OF E blind] evaluated_valid [OF E eval] by (simp_all add: valid_blinded_def ev)
  moreover have "Proof_from_bytes E (Proof_to_bytes E pf) = Inr pf" using proof_codec.whole.dec_enc [OF ok, of pf] by simp
  ultimately show ?thesis
    using that [OF blind _ _ _ _ _ _ _ gen] eval fin be_codec.dec_enc [OF ok] ee_codec.dec_enc [OF ok] by (simp add: ev)
qed

lemma server_side_round_trip_passes:
  assumes L: "lib_laws L" and G: "good_heap L h" and msg: "\<forall>msg. e = Some msg \<longrightarrow> 0 \<notin> set msg"
    and gen: "\<And>rng. random_scalar (core L) rng \<noteq> None" and filled: "\<And>bs. bs \<noteq> [] \<Longrightarrow> B64_encode L bs \<noteq> []"
    and sk: "derive_key_pair (core L) test_seed (ascii ''poprf-ffi-integration-test'') = Inr (sk, pk)"
    and lucky: "lucky (core L) (PoprfServer_new sk) [ascii ''test-token-preimage-bytes-00000000''] [ascii ''poprf-ffi-integration-test'']"
    and differ: "output_bytes (poprf (core L) (PoprfServer_new sk) (ascii ''test-token-preimage-bytes-00000000'')
      (ascii ''poprf-ffi-integration-test'')) \<noteq> replicate 64 0"
  shows "runs (\<lambda>(_, st'). heap st' = h) (server_side_round_trip_via_c_abi L (state h e b hs sl r))"
proof -
  let ?E = "core L" and ?srv = "PoprfServer_new sk"
  define x where "x = ascii ''test-token-preimage-bytes-00000000''"
  define i where "i = ascii ''poprf-ffi-integration-test''"
  have bufs: "length x = 34" "length i = 26" "x \<noteq> []" "i \<noteq> []" by (simp_all add: x_def i_def)
  then have len: "length x \<le> 65534" "length i \<le> 65534" by simp_all
  have E: "env_laws ?E" and ok: "encoding_laws ?E" using core_laws [OF L] by (simp_all add: env_lawsD)
  have good: "\<not> is_identity ?E (input_element ?E x)" "\<not> scalar_is_zero ?E (server_t ?E ?srv i)"
    using lucky by (simp_all add: x_def i_def)
  define out where "out = poprf ?E ?srv x i"
  define vk where "vk = SecretKey_public_key ?E sk"
  have cl: "client_of ?E ?srv = PoprfClient_new vk" by (simp add: vk_def PoprfServer_public_key_def PoprfServer_new_def)
  have valid: "valid_secret ?E sk" using derive_key_pair_valid [OF sk] by simp
  then have vk: "valid_public ?E vk" using public_key_valid [OF group_okI [OF E]] by (simp add: vk_def)
  obtain st bl r1 ev pf r2 where run:
    "PoprfClient_blind ?E (client_of ?E ?srv) x i r = (Inr (st, bl), r1)"
    "PoprfServer_blind_evaluate_batch ?E ?srv r1 [bl] i = (Inr ([ev], pf), r2)"
    "PoprfClient_finalize_batch ?E (client_of ?E ?srv) [x] [st] [ev] [bl] pf i = Inr [out]"
    "BlindedElement_from_bytes ?E (BlindedElement_to_bytes ?E bl) = Inr bl" "valid_blinded ?E bl"
    "EvaluatedElement_from_bytes ?E (EvaluatedElement_to_bytes ?E ev) = Inr ev" "valid_evaluated ?E ev"
    "Proof_from_bytes ?E (Proof_to_bytes ?E pf) = Inr pf" "random_scalar ?E r1 \<noteq> None"
    by (rule run_values [OF E gen len good, where r = r, folded out_def])
  have evo: "PoprfServer_evaluate ?E ?srv x i = Inr out" and out: "valid_obj ?E (OutputObj out)"
    unfolding out_def using evaluated [OF E len(1) good(1) len(2) good(2)] by blast+
  have keys: "SecretKey_from_bytes ?E (SecretKey_to_bytes ?E sk) = Inr sk" "PublicKey_from_bytes ?E (PublicKey_to_bytes ?E vk) = Inr vk"
    using sk_codec.dec_enc [OF ok valid] pk_codec.dec_enc [OF ok vk] by simp_all
  have outs: "PoprfOutput_from_bytes (PoprfOutput_as_bytes out) = Inr out"
    "PoprfOutput_from_bytes (replicate 64 0) = Inr (PoprfOutput (replicate 64 0))"
    "PoprfOutput_eq ?E out out" "\<not> PoprfOutput_eq ?E out (PoprfOutput (replicate 64 0))"
    using out differ out_codec.dec_enc [OF TrueI, of out] out_codec.dec_enc [OF TrueI, of "PoprfOutput (replicate 64 0)"]
    by (auto simp: output_eq_iff [OF E] PoprfOutput_as_bytes_def out_def x_def i_def)
  have texts: "B64_encode L (SecretKey_to_bytes ?E sk) \<noteq> []" "B64_encode L (PublicKey_to_bytes ?E vk) \<noteq> []"
    "B64_encode L (BlindedElement_to_bytes ?E bl) \<noteq> []" "B64_encode L (PoprfOutput_as_bytes out) \<noteq> []"
    "B64_encode L (replicate 64 0) \<noteq> []"
    using sk_codec.enc_length [OF ok valid] pk_codec.enc_length [OF ok vk] be_codec.enc_length [OF ok run(5)] out
    by (auto simp: SCALAR_LEN_def ELEMENT_LEN_def PoprfOutput_as_bytes_def intro!: filled)
  have b64: "B64_decode L (B64_encode L bs) = Inr bs" for bs using L by (simp add: lib_laws_def b64_laws_def)
  have objs: "valid_obj ?E (SecretKeyObj sk)" "valid_obj ?E (PublicKeyObj vk)" "valid_obj ?E (BlindedObj bl)"
    "valid_obj ?E (EvaluatedObj ev)" "valid_obj ?E (ProofObj pf)" "SecretKey_public_key ?E sk = vk"
    using valid vk run(5,7) by (simp_all add: vk_def)
  show ?thesis
    unfolding server_side_round_trip_via_c_abi_def Let_def x_def [symmetric] i_def [symmetric]
    using sk run(1-4,6,8,9) [unfolded cl] objs evo out keys outs texts bufs msg
    apply (simp add: G L flip: x_def i_def del: valid_obj.simps)
    apply (rule vcg_rules [OF L], (simp add: G L b64 vcg_simps del: valid_obj.simps)+,
      (clarsimp simp: vcg_simps simp del: valid_obj.simps)?)+
    by -
qed

text \<open>The library of the witness.\<close>

definition lib5 :: "(tri, tri, tri, bytes, nat) lib" where
  "lib5 = lib3\<lparr>core := E5\<rparr>"

lemma lib5_laws [simp]: "lib_laws lib5"
  using lib3_laws by (simp add: lib5_def lib_laws_def alloc_laws_def b64_laws_def)

lemma E5_output:
  assumes "length x = 34"
  shows "output_bytes (poprf E5 srv x info) \<noteq> replicate 64 0"
proof
  have "lp x = 0 # 34 # x" using assms by (simp add: lp_def be16_def to_be_bytes_def)
  then have "output_bytes (poprf E5 srv x info) ! 1 = 34"
    unfolding poprf_def finalize_transcript_def by (simp add: pad64_def)
  moreover assume "output_bytes (poprf E5 srv x info) = replicate 64 0"
  ultimately have "replicate 64 (0 :: byte) ! 1 = 34" by (simp only:)
  then show False by (subst (asm) nth_replicate) simp_all
qed

section \<open>Property\<close>

text \<open>A test passes when it returns, and here also leaves the heap as it was.\<close>

definition passes :: "(unit, 's, 'p, 't, 'h, 'r) c_test \<Rightarrow> ('s, 'p, 't, 'h, 'r) ffi \<Rightarrow> bool" where
  "passes t st \<longleftrightarrow> runs (\<lambda>(_, st'). heap st' = heap st) (t st)"

lemma passesI:
  assumes inv: "ffi_inv L st"
    and runs: "\<And>h e b hs sl r. good_heap L h \<Longrightarrow> \<forall>msg. e = Some msg \<longrightarrow> 0 \<notin> set msg \<Longrightarrow>
      runs (\<lambda>(_, st'). heap st' = h) (t (state h e b hs sl r))"
  shows "passes t st"
proof -
  have st: "st = state (heap st) (LAST_ERROR st) (c_bytes st) (c_handles st) (c_slots st) (os_rng st)" by simp
  have "good_heap L (heap st)" "\<forall>msg. LAST_ERROR st = Some msg \<longrightarrow> 0 \<notin> set msg"
    using inv by (simp_all add: ffi_inv_def good_heap_def)
  from runs [OF this] show ?thesis unfolding passes_def by (subst (2) st)
qed

text \<open>C32: The integration tests of the C ABI pass and leak nothing. From any state of the library
  that satisfies the invariant, with the keys derived from the test seed, each test returns: every value it
  unwraps is there, every assertion holds, no dead or foreign pointer is used; a key and a run of the
  protocol survive the trip through texts and handles, a batch over hashed inputs agrees with single
  evaluations, a rejected call sets the error, returns -1 or NULL and writes no output, a successful one
  clears the error. At the end the heap is the one it started from. A test can only fail when an
  input of it hashes to the identity, when a tweaked key is zero or when the output is 64 zero bytes.\<close>

theorem c_abi_tests_pass:
  assumes L: "lib_laws L" and inv: "ffi_inv L st"
    and gen: "\<And>rng. random_scalar (core L) rng \<noteq> None" and filled: "\<And>bs. bs \<noteq> [] \<Longrightarrow> B64_encode L bs \<noteq> []"
    and sk: "derive_key_pair (core L) test_seed (ascii ''poprf-ffi-integration-test'') = Inr (sk, pk)"
    and sk': "derive_key_pair (core L) test_seed (ascii ''k'') = Inr (sk', pk')"
  defines "srv \<equiv> PoprfServer_new sk" and "srv' \<equiv> PoprfServer_new sk'"
    and "input \<equiv> ascii ''test-token-preimage-bytes-00000000''" and "info \<equiv> ascii ''poprf-ffi-integration-test''"
  shows
    "(lucky (core L) srv [input] [info] \<and> output_bytes (poprf (core L) srv input info) \<noteq> replicate 64 0 \<longrightarrow>
       passes (server_side_round_trip_via_c_abi L) st) \<and>
     (lucky (core L) srv [ascii ''tok-0'', ascii ''tok-1'', ascii ''tok-2'', ascii ''s'']
        [ascii ''info-a'', ascii ''info-b'', ascii ''s''] \<longrightarrow>
       passes (evaluate_tables_via_c_abi L) st) \<and>
     (lucky (core L) srv' [ascii ''tok'', ascii ''s''] [[], ascii ''s''] \<longrightarrow>
       passes (evaluate_tables_rejects_bad_args_via_c_abi L) st) \<and>
     (lucky (core L) srv' [[], max_ok] [ascii ''i''] \<longrightarrow> passes (input_table_edges_via_c_abi L) st)"
proof (intro conjI impI; (elim conjE)?)
  assume "lucky (core L) srv [input] [info]" "output_bytes (poprf (core L) srv input info) \<noteq> replicate 64 0"
  then show "passes (server_side_round_trip_via_c_abi L) st"
    by (intro passesI [OF inv] server_side_round_trip_passes [OF L _ _ gen filled sk]) (simp_all add: assms(7-))
next
  assume "lucky (core L) srv [ascii ''tok-0'', ascii ''tok-1'', ascii ''tok-2'', ascii ''s'']
    [ascii ''info-a'', ascii ''info-b'', ascii ''s'']"
  then show "passes (evaluate_tables_via_c_abi L) st"
    unfolding srv_def by (intro passesI [OF inv] evaluate_tables_passes [OF L _ _ sk])
next
  assume "lucky (core L) srv' [ascii ''tok'', ascii ''s''] [[], ascii ''s'']"
  then show "passes (evaluate_tables_rejects_bad_args_via_c_abi L) st"
    unfolding srv'_def by (intro passesI [OF inv] rejects_bad_args_passes [OF L _ _ sk'])
next
  assume "lucky (core L) srv' [[], max_ok] [ascii ''i'']"
  then show "passes (input_table_edges_via_c_abi L) st"
    unfolding srv'_def by (intro passesI [OF inv] input_table_edges_passes [OF L _ _ sk'])
qed

theorem c_abi_tests_pass_witness:
  "passes (server_side_round_trip_via_c_abi lib5) (ffi3\<lparr>heap := Map.empty\<rparr>) \<and>
   passes (evaluate_tables_via_c_abi lib5) (ffi3\<lparr>heap := Map.empty\<rparr>) \<and>
   passes (evaluate_tables_rejects_bad_args_via_c_abi lib5) (ffi3\<lparr>heap := Map.empty\<rparr>) \<and>
   passes (input_table_edges_via_c_abi lib5) (ffi3\<lparr>heap := Map.empty\<rparr>)"
proof -
  have core: "core lib5 = E5" by (simp add: lib5_def)
  have inv: "ffi_inv lib5 (ffi3\<lparr>heap := Map.empty\<rparr>)" by (simp add: ffi_inv_def)
  have gen: "random_scalar (core lib5) n \<noteq> None" for n by (simp add: core)
  have filled: "B64_encode lib5 bs \<noteq> []" if "bs \<noteq> []" for bs
    using that by (cases bs) (simp_all add: lib5_def lib3_def Let_def)
  have differ: "output_bytes (poprf E5 srv (ascii ''test-token-preimage-bytes-00000000'') info) \<noteq> replicate 64 0" for srv info
    by (rule E5_output) simp
  note pass = c_abi_tests_pass [OF lib5_laws inv gen filled, unfolded core, OF _ E5_key E5_key]
  show ?thesis by (intro conjI pass [THEN conjunct1, THEN mp] pass [THEN conjunct2, THEN conjunct1, THEN mp]
      pass [THEN conjunct2, THEN conjunct2, THEN conjunct1, THEN mp]
      pass [THEN conjunct2, THEN conjunct2, THEN conjunct2, THEN mp] E5_lucky differ) simp_all
qed

end
