(* ===== verification/Smoke_Test.thy ===== *)
theory Smoke_Test
  imports Wasm_Properties Tests
begin

text \<open>
  \<open>poprf-ristretto-wasm/tests/smoke.rs\<close>: the round trip across the boundary of the bindings, as a
  program. The client is \<open>blindBatch\<close> and \<open>finalizeBatch\<close> on JavaScript arrays, the server is
  the core crate, and the oracle is its offline evaluation.
\<close>

section \<open>The test\<close>

definition SEED :: bytes where
  "SEED = map word_of_nat [0..<32]"

definition KEY_INFO :: bytes where
  "KEY_INFO = ascii ''poprf-ristretto-wasm-smoke''"

definition INFO :: bytes where
  "INFO = ascii ''shared-info-string''"

definition INPUT_A :: bytes where
  "INPUT_A = ascii ''alice's preimage bytes''"

definition INPUT_B :: bytes where
  "INPUT_B = ascii ''bob's preimage bytes''"

text \<open>
  \<open>expect\<close> on a result of the bindings and on any other one. \<open>Uint8Array::new_with_length\<close> with
  \<open>copy_from\<close> is a parameter of the test, as the constructor of the bindings is.
\<close>

fun expect_js :: "js_fault + 'a \<Rightarrow> 'a res" where
  "expect_js (Inr x) = Inr x"
| "expect_js (Inl Spins) = Inl Diverge"
| "expect_js (Inl f) = panic"

fun expect :: "'e + 'a \<Rightarrow> 'a res" where
  "expect (Inr x) = Inr x"
| "expect (Inl e) = panic"

definition js_array_of_inputs :: "(bytes \<Rightarrow> 'j js) \<Rightarrow> 'j js list" where
  "js_array_of_inputs uint8array_from = [uint8array_from INPUT_A, uint8array_from INPUT_B]"

definition array_field :: "(string \<rightharpoonup> 'j js list) \<Rightarrow> string \<Rightarrow> 'j js list res" where
  "array_field obj key = (case obj key of None \<Rightarrow> panic | Some arr \<Rightarrow> Inr arr)"

definition array_to_b64_strings :: "'j js list \<Rightarrow> bytes list res" where
  "array_to_b64_strings arr = rmap (\<lambda>v. expect_js (as_string [] v)) arr"

definition round_trip_blind_eval_finalize ::
  "('s, 'p, 't, 'h, 'r, 'j) web \<Rightarrow> (bytes \<Rightarrow> 'j js) \<Rightarrow> 'r \<Rightarrow> unit res" where
  "round_trip_blind_eval_finalize W uint8array_from rng =
     (let E = web_core W in
      rbind (unwrap (derive_key_pair E SEED KEY_INFO)) (\<lambda>(sk, pk).
      let pk_b64 = b64_encode W (PublicKey_to_bytes E pk);
          inputs = js_array_of_inputs uint8array_from in
      case blind_batch W pk_b64 inputs INFO rng of (r, rng) \<Rightarrow>
      rbind (expect_js r) (\<lambda>blind_out.
      rbind (array_field blind_out ''states'') (\<lambda>states_arr.
      rbind (array_field blind_out ''blindedMessages'') (\<lambda>blindeds_arr.
      rbind (array_to_b64_strings blindeds_arr) (\<lambda>blindeds_b64.
      rbind (rmap (\<lambda>s. rbind (expect (b64_decode W s)) (\<lambda>bytes. unwrap (BlindedElement_from_bytes E bytes))) blindeds_b64)
        (\<lambda>blindeds_rust.
      let server = PoprfServer_new sk in
      case PoprfServer_blind_evaluate_batch E server rng blindeds_rust INFO of (r, rng) \<Rightarrow>
      rbind (unwrap r) (\<lambda>(evals, proof').
      let evals_arr = map (\<lambda>e. JsString (b64_encode W (EvaluatedElement_to_bytes E e))) evals;
          proof_b64 = b64_encode W (Proof_to_bytes E proof') in
      rbind (expect_js (finalize_batch W pk_b64 inputs states_arr blindeds_arr evals_arr proof_b64 INFO)) (\<lambda>finalized.
      rbind (array_to_b64_strings finalized) (\<lambda>finalized_b64.
      rbind (assert_eq (length finalized_b64) 2) (\<lambda>_.
      rbind (unwrap (PoprfServer_evaluate E server INPUT_A INFO)) (\<lambda>oracle_a.
      rbind (unwrap (PoprfServer_evaluate E server INPUT_B INFO)) (\<lambda>oracle_b.
      let oracle_a_b64 = b64_encode W (PoprfOutput_as_bytes oracle_a);
          oracle_b_b64 = b64_encode W (PoprfOutput_as_bytes oracle_b) in
      rbind (assert_eq (finalized_b64 ! 0) oracle_a_b64) (\<lambda>_.
      assert_eq (finalized_b64 ! 1) oracle_b_b64))))))))))))))"

section \<open>The test passes\<close>

lemma strings_of_array [simp]: "array_to_b64_strings (map (\<lambda>x. JsString (f x)) xs) = Inr (map f xs)"
  unfolding array_to_b64_strings_def by (induction xs) simp_all

lemma two_strings [simp]: "array_to_b64_strings [JsString s, JsString t] = Inr [s, t]"
  by (simp add: array_to_b64_strings_def)

text \<open>Blinding in a loop returns while the generator does.\<close>

lemma blind_loop_returns:
  assumes E: "env_laws (web_core W)" and gen: "\<And>rng. random_scalar (web_core W) rng \<noteq> None"
    and len: "length info \<le> 65534" and key: "\<not> scalar_is_zero (web_core W) (server_t (web_core W) srv info)"
  shows "\<forall>v \<in> set elems. \<exists>x. Uint8Array_new W v = Some x \<and> length x \<le> 65534 \<and>
      \<not> is_identity (web_core W) (input_element (web_core W) x) \<Longrightarrow>
    \<exists>ss bs rng'. blind_loop W (client_of (web_core W) srv) info rng elems = (Inr (ss, bs), rng')"
proof (induction elems arbitrary: rng)
  case (Cons v elems)
  then obtain x where x: "Uint8Array_new W v = Some x" "length x \<le> 65534"
    "\<not> is_identity (web_core W) (input_element (web_core W) x)" by auto
  obtain st bl rng1 where "PoprfClient_blind (web_core W) (client_of (web_core W) srv) x info rng = (Inr (st, bl), rng1)"
    using blinding_call [OF E gen x(2) len x(3) key] by blast
  moreover obtain ss bs rng2 where "blind_loop W (client_of (web_core W) srv) info rng1 elems = (Inr (ss, bs), rng2)"
    using Cons by fastforce
  ultimately show ?case using x(1) by (simp add: uint8array_to_vec_def)
qed simp

lemma test_buffers [simp]:
  "length INFO \<le> 65534" "length INPUT_A \<le> 65534" "length INPUT_B \<le> 65534" "length KEY_INFO \<le> 65534"
  by (simp_all add: INFO_def INPUT_A_def INPUT_B_def KEY_INFO_def)

text \<open>C31: The smoke test of the bindings passes. For every environment, base64 and host whose typed arrays
  hold what they were made from, and every generator that keeps returning scalars, the trip of two inputs
  through \<open>blindBatch\<close>, the server and \<open>finalizeBatch\<close>, as JavaScript arrays of texts, ends in the
  server's own evaluations. The key of
  the test is assumed to be derivable from its seed; the test can then only fail when an input of it hashes to the identity or the tweaked key is zero.\<close>

theorem smoke_test_passes:
  assumes W: "web_laws W" and arr: "\<And>bs. Uint8Array_new W (uint8array_from bs) = Some bs"
    and gen: "\<And>rng. random_scalar (web_core W) rng \<noteq> None"
    and sk: "derive_key_pair (web_core W) SEED KEY_INFO = Inr (sk, pk)"
    and lucky: "lucky (web_core W) (PoprfServer_new sk) [INPUT_A, INPUT_B] [INFO]"
  shows "round_trip_blind_eval_finalize W uint8array_from rng = Inr ()"
proof -
  let ?E = "web_core W" and ?srv = "PoprfServer_new sk" and ?inputs = "js_array_of_inputs uint8array_from"
  have E: "env_laws ?E" and b64: "b64_decode W (b64_encode W bs) = Inr bs" for bs
    using W by (simp_all add: web_laws_def)
  have pk: "pk = PoprfServer_public_key ?E ?srv"
    using derive_key_pair_valid [OF sk] by (simp add: PoprfServer_public_key_def PoprfServer_new_def)
  have vk: "valid_public ?E pk"
    using derive_key_pair_valid [OF sk] public_key_valid [OF group_okI [OF E], of sk] by simp
  have pk_text: "b64_decode W (b64_encode W (PublicKey_to_bytes ?E pk)) = Inr (PublicKey_to_bytes ?E (PoprfServer_public_key ?E ?srv))"
    by (simp add: b64 pk)
  then have dec: "decode_public_key W (b64_encode W (PublicKey_to_bytes ?E pk)) = Inr (PoprfServer_public_key ?E ?srv)"
    using decode_public_key_iff [OF W] vk by (simp add: pk)
  obtain ss bs rng1 where "blind_loop W (client_of ?E ?srv) INFO rng ?inputs = (Inr (ss, bs), rng1)"
    using blind_loop_returns [OF E gen, where srv = ?srv and elems = ?inputs and info = INFO and rng = rng] lucky arr
    by (auto simp: js_array_of_inputs_def)
  then obtain obj where blind: "blind_batch W (b64_encode W (PublicKey_to_bytes ?E pk)) ?inputs INFO rng = (Inr obj, rng1)"
    using dec by (simp add: blind_batch_def)
  obtain xs sts bls where made: "rmap (uint8array_to_vec W) ?inputs = Inr xs"
    "blinded_batch ?E (client_of ?E ?srv) INFO xs sts bls"
    "\<forall>st \<in> set sts. \<not> is_identity ?E (bs_tweaked_key st)" "\<forall>b \<in> set bls. valid_blinded ?E b"
    "obj ''states'' = Some (map (\<lambda>st. JsString (b64_encode W (PoprfBlindState_to_bytes ?E st))) sts)"
    "obj ''blindedMessages'' = Some (map (\<lambda>b. JsString (b64_encode W (BlindedElement_to_bytes ?E b))) bls)"
    using blind_batch_made [OF W pk_text blind] by blast
  have xs: "xs = [INPUT_A, INPUT_B]" using made(1) arr by (simp add: js_array_of_inputs_def rbind_eq_Inr_iff)
  obtain k rng2 where "random_scalar ?E rng1 = Some (k, rng2)" using gen [of rng1] by auto
  from batch_completes [OF E made(2) _ _ this] obtain evs pf where
    eval: "PoprfServer_blind_evaluate_batch ?E ?srv rng1 bls INFO = (Inr (evs, pf), rng2)"
    by (auto simp: xs)
  have parsed: "rmap (\<lambda>s. rbind (expect (b64_decode W s)) (\<lambda>bytes. unwrap (BlindedElement_from_bytes ?E bytes)))
      (map (\<lambda>b. b64_encode W (BlindedElement_to_bytes ?E b)) bls) = Inr bls"
    using made(4) be_codec.dec_enc [OF env_lawsD(3) [OF E]] by (induction bls) (simp_all add: b64)
  note fin = finalize_batch_texts [OF W dec made(1-4) eval]
  then have "PoprfServer_evaluate ?E ?srv INPUT_A INFO = Inr (poprf ?E ?srv INPUT_A INFO)"
    "PoprfServer_evaluate ?E ?srv INPUT_B INFO = Inr (poprf ?E ?srv INPUT_B INFO)"
    by (auto simp: xs rbind_eq_Inr_iff)
  then show ?thesis
    using sk blind made(5,6) parsed eval fin by (simp add: round_trip_blind_eval_finalize_def array_field_def xs Let_def assert_eq_def)
qed

definition web5 :: "(tri, tri, tri, bytes, nat, bytes) web" where
  "web5 = web3\<lparr>web_core := E5\<rparr>"

theorem smoke_test_passes_witness: "round_trip_blind_eval_finalize web5 JsOther 0 = Inr ()"
proof -
  have W: "web_laws web5" "web_core web5 = E5" "Uint8Array_new web5 (JsOther bs) = Some bs" for bs
    by (simp_all add: web5_def web_laws_def)
  show ?thesis
    using smoke_test_passes [OF W(1,3), unfolded W(2), OF _ E5_key E5_lucky] by simp
qed

end
