(* ===== verification/Spec2Isabelle.thy ===== *)
theory Spec2Isabelle
  imports Dleq_Properties Api_Properties Well_Formed Issuance Secrecy Hash_Inputs Dleq_Oracle Serde_Properties
    Ffi_Contract Ffi_Races Ffi_Wipe Deployment Core_Tests C_Abi_Tests Smoke_Test
begin

text \<open>
  A verification library for \<open>poprf-ristretto\<close>, the RFC 9497 partially-oblivious
  pseudorandom function (POPRF) over ristretto255 with SHA-512: the core crate
  (\<open>poprf-ristretto/src\<close>) with its example program, its C ABI
  (\<open>poprf-ristretto-ffi/src/lib.rs\<close>) and its browser bindings (\<open>poprf-ristretto-wasm/src/lib.rs\<close>).

  \<^bold>\<open>The program.\<close> A client blinds an input under a public key and an \<open>info\<close> string; a server
  evaluates the blinded element with its secret key, tweaked by \<open>info\<close>, and proves with a DLEQ
  proof that it used that key; the client checks the proof, unblinds and hashes. The server can
  also evaluate an input alone, from the bytes or from a table with the input pre-hashed. A batch
  shares one proof. The C ABI exposes the server to C through opaque handles, the browser
  bindings expose the client to JavaScript, and serde impls carry the wire types.

  \<^bold>\<open>How code becomes definitions.\<close> One definition per function, under the function's name (with
  the type's name in front for a method: \<open>PoprfClient_blind\<close>), with the code's checks in the
  code's order. A \<open>Result\<close> is a sum; \<open>Inl\<close> holds a declared error, a panic or a loop that does not
  end (\<open>Errors\<close>), and \<open>rbind\<close> is the \<open>?\<close> operator (\<open>Prelude\<close>). A random number generator is a state
  that a function takes and returns. Bytes are 8-bit words; slices and fixed-size writes panic
  where Rust does. The two cargo features and debug assertions are fields of the environment, so
  that every theorem covers every build.

  \<^bold>\<open>Parameters.\<close> The libraries under the crates (curve25519-dalek, sha2, elliptic-curve's
  \<open>expand_message_xmd\<close>, subtle) are the record \<open>env\<close> of \<open>Environment\<close>, with their documented
  behaviour as \<open>env_laws\<close>: a field, a group of prime order on which it acts, canonical encodings
  of 32 bytes, an incremental hash. The C ABI adds base64 and an allocator (\<open>lib_laws\<close>), the
  bindings base64 and a JavaScript constructor (\<open>web_laws\<close>). \<open>Toy\<close> is an environment that satisfies
  \<open>env_laws\<close>, with the field of three elements; \<open>lib3\<close> and \<open>web3\<close> extend it. The witness of a
  property applies it there. No law says that a hash is hard to invert: a property that depends
  on hashing gives the hash inputs that would have to collide.

  \<^bold>\<open>Theories and sources.\<close>

  \<^item> \<open>Prelude\<close>: the result monad, bytes, slices, hex and decimal formatting, collections of rules.
  \<^item> \<open>Errors\<close>: \<open>error.rs\<close>.  \<open>Util\<close>: \<open>util.rs\<close> and the constants of \<open>lib.rs\<close>.
  \<^item> \<open>Group_Ops\<close>: \<open>group.rs\<close>, and the locale \<open>prime_group\<close> in which the algebra of the protocol is
    proved, interpreted (\<open>gp\<close>) on the code's own wrappers.
  \<^item> \<open>Codec\<close>: the locale \<open>wire_codec\<close> of fixed-length encodings, and pairs of them; every
    \<open>to_bytes\<close>/\<open>from_bytes\<close> couple of the program is an interpretation.
  \<^item> \<open>Key\<close>: \<open>key.rs\<close>.  \<open>Dleq\<close>: \<open>dleq.rs\<close>, with the locale \<open>dleq_system\<close> that the server relies on.
  \<^item> \<open>Poprf_Types\<close>, \<open>Poprf_Client\<close>, \<open>Poprf_Server\<close>: \<open>poprf.rs\<close>. Each operation is followed by
    a specification without the code's loops, buffers and checks of lengths (\<open>spec_simps\<close>).
  \<^item> \<open>Serde\<close>: \<open>serde_util.rs\<close> and the serde impls of \<open>key.rs\<close>, \<open>dleq.rs\<close> and \<open>poprf.rs\<close>; the locale
    \<open>serde_type\<close> extends \<open>wire_codec\<close> and is interpreted for the seven types.
  \<^item> \<open>Ffi\<close>: the C ABI. State: the heap of boxed objects, the last error, the caller's byte
    regions, arrays of handles and out slots. \<open>Ffi_Safety\<close>: the invariant of the heap, and what each
    function does when its caller keeps to the \<open># Safety\<close> section; the heap is used through the
    locale \<open>handle_store\<close>. \<open>Ffi_Session\<close>: programs as step relations (\<open>ffi_step\<close>, \<open>ffi_session\<close>).
    \<open>Ffi_Threads\<close>: several threads on one heap, each with its own last error, a call being one step
    (\<open>thread_step\<close>). \<open>Ffi_Races\<close>: the same with calls in flight, which are entered, read, and write at
    the end while others run (\<open>conc_exec\<close>), under the rules of the README (\<open>permitted\<close>) or not.
    \<open>Ffi_Spec\<close>: what each call promises, as a function of values alone (\<open>ffi_spec\<close>, \<open>realise\<close>);
    \<open>Ffi_Refinement\<close>: the exported functions implement it. \<open>Ffi_Client\<close>: rules for programs that call
    the ABI, weakest preconditions read off the specification.
  \<^item> \<open>Wipe\<close>: the derived \<open>Zeroize\<close> impls of \<open>key.rs\<close> and \<open>poprf.rs\<close>, and the locale \<open>zeroizing\<close>,
    interpreted for the four types. \<open>Ffi_Wipe\<close>: what freed handles and the freed buffers
    of the calls leave in the heap.
  \<^item> \<open>C_Server\<close>: a C server against the ABI, the program of the README of the crate for a batch of any
    size, with the lemmas that it never fails and leaks nothing.
  \<^item> \<open>Wasm\<close>: the browser bindings.  \<open>Handshake\<close>: \<open>examples/poprf_handshake.rs\<close>.
  \<^item> \<open>Tests\<close>, \<open>Core_Tests\<close>: the documentation test of \<open>lib.rs\<close> and the tests of \<open>roundtrip.rs\<close> and
    \<open>negative.rs\<close> as programs; the unit test of \<open>util.rs\<close> is in \<open>Util\<close>.  \<open>C_Abi_Tests\<close>: the four tests of the
    C ABI, \<open>poprf-ristretto-ffi/tests/integration_test.rs\<close>, as programs over the model of the ABI.
    \<open>Smoke_Test\<close>: the test of the bindings, \<open>poprf-ristretto-wasm/tests/smoke.rs\<close>.
  \<^item> \<open>Toy\<close>, \<open>Toy_Run\<close>: the concrete environment and runs of the protocol on it.

  \<^bold>\<open>Properties.\<close> \<open>Protocol\<close>: runs, single and batched, are correct and
  complete; tables change nothing; blinding hides the input. \<open>Integrity\<close>: what a client
  that accepts knows of a dishonest answer, and that parties with different keys or \<open>info\<close>
  values notice. \<open>Issuance\<close>: one server, any number of sessions and an untrusted network as
  a step relation; no session is ever spoilt: the server's answer completes it from every reachable state.
  \<open>Secrecy\<close>: a server cannot tell batches of inputs apart (exactly one list of blinds
  explains any other batch), and two proofs with one proof scalar give the key away.
  \<open>Hash_Inputs\<close>: the strings hashed to scalars do not overlap. \<open>Well_Formed\<close>:
  every value given out is well-formed. \<open>Dleq_Properties\<close>: completeness, special soundness,
  what a forger would have to hit, exact verdicts, equivalence of the two builds. \<open>Dleq_Oracle\<close>: with
  the hash answered freely at one string, a wrong entry of a batch is overlooked for one answer only, and
  proofs can be simulated without the key. \<open>Api_Properties\<close>: every operation on every
  branch, the order of checks, no panic, derivation and sampling of keys, encodings, domain separation.
  \<open>Serde_Properties\<close>, \<open>Ffi_Properties\<close>, \<open>Wasm_Properties\<close>: round
  trips and exact acceptance; safety of C sessions, the error protocol, results behind handles; the
  bindings on every branch. \<open>Ffi_Contract\<close>: refinement of the specification by all 23
  calls, privacy of the last error. \<open>Ffi_Races\<close>: no interleaving of overlapping calls goes wrong while
  the README's rule on destructors is kept, and a use after free when it is not. \<open>Ffi_Wipe\<close>: freed
  handles are wiped, a decoded key survives in a freed buffer all the same. \<open>Deployment\<close>:
  browser and C server, end to end. \<open>Core_Tests\<close>, \<open>C_Abi_Tests\<close>, \<open>Smoke_Test\<close>: the tests
  pass, but for named coincidences of the hash, and those of the C ABI free what they make.

  \<^bold>\<open>Bounds and termination.\<close> Inputs and \<open>info\<close> are at most 65534 bytes (\<open>MAX_LP_LEN\<close>). A batch entry
  has a two-byte index: at 65537 entries a debug build panics and a release build wraps, which two
  theorems prove; elsewhere the bound is a hypothesis. The only loop that may not end draws
  random scalars; it is a partial function, and totality is proved from the draws of the
  generator. No definition uses fuel.

  \<^bold>\<open>Not modelled.\<close> Constant-time execution and the copies a compiler leaves on the
  stack or the base64 and string libraries in their buffers (no effect on values; the zeroisation covers
  objects behind handles and the crates' own buffers); the single reads inside a call (a call in
  flight reads at \<open>Load\<close> and at any number of \<open>Touch\<close> events, and writes at \<open>Store\<close>), weak memory
  orderings, and aliasing between the caller's arrays; failure to allocate; the \<open>Debug\<close> output's formatter beyond its text; the messages
  serde derives from \<open>expecting\<close>; tests that depend on a concrete curve or hash (test
  vectors, encodings of the identity and of invalid points, tampered proofs, a wrong key or \<open>info\<close>, whose rejection
  \<open>Integrity\<close> reduces to a collision), on Rust containers and threads, or on postcard and JSON; benchmarks and
  build scripts. Of the three crates and the example, what no
  definition translates is imports, attributes, module declarations and documentation.
\<close>

end
